theory Spec2Isabelle
  imports Main "HOL-Library.Word"
begin

section \<open>Data model of g10/encode.c\<close>

text \<open>
  The C code works on a handful of structs, on the global option block \<open>opt\<close> and on
  two IOBUF streams. Return codes are C ints: 0 is success and \<open>if (rc)\<close> is
  \<open>rc \<noteq> 0\<close>. Every struct is a record whose fields carry the struct's tag as a
  prefix, since several structs share field names (\<open>algo\<close>, \<open>mode\<close>, \<open>pubkey_algo\<close>).
\<close>

type_synonym byte = "8 word"
type_synonym u32 = "32 word"
type_synonym MPI = nat

text \<open>The fields of the global \<open>opt\<close> that encode.c reads or writes.\<close>

record options =
  opt_compress :: int
  opt_rfc1991 :: bool
  opt_verbose :: bool
  opt_textmode :: bool
  opt_s2k_mode :: int
  opt_def_digest_algo :: int
  opt_s2k_digest_algo :: int
  opt_def_cipher_algo :: int
  opt_s2k_cipher_algo :: int
  opt_armor :: bool
  opt_comment_string :: "string option"
  opt_no_literal :: bool
  opt_set_filename :: "string option"
  opt_set_filesize :: u32
  opt_pgp2 :: bool
  opt_throw_keyid :: bool

text \<open>
  Modelled from the spec: the recipient key (PKT_public_key) is declared outside
  encode.c. The spec's RecipientKey has a public-key algorithm id, key material and a key
  identifier; the size of the key, its integrity-protection capability and its advertised
  preference lists (most preferred first) are what the policy of section 4.4 reads.
\<close>

record public_key =
  pk_pubkey_algo :: int
  pk_pkey :: "MPI list"
  pk_keyid :: "u32 \<times> u32"
  pk_nbits :: nat
  pk_mdc_feature :: bool
  pk_prefs_sym :: "int list"
  pk_prefs_zip :: "int list"

record DEK =
  dek_algo :: int
  dek_keylen :: nat
  dek_key :: "byte list"
  dek_use_mdc :: bool

record STRING2KEY =
  s2k_mode :: int
  s2k_hash_algo :: int
  s2k_salt :: "byte list"
  s2k_count :: u32

record PKT_symkey_enc =
  ske_version :: int
  ske_cipher_algo :: int
  ske_s2k :: STRING2KEY

record PKT_pubkey_enc =
  enc_pubkey_algo :: int
  enc_keyid :: "u32 \<times> u32"
  enc_throw_keyid :: bool
  enc_data :: "MPI list"

record PKT_plaintext =
  pt_name :: string
  pt_timestamp :: u32
  pt_mode :: char
  pt_len :: u32
  pt_new_ctb :: bool

text \<open>A PACKET is a tag and a pointer; \<open>init_packet\<close> leaves it empty.\<close>

datatype PACKET =
    PKT_NONE
  | PKT_SYMKEY_ENC PKT_symkey_enc
  | PKT_PUBKEY_ENC PKT_pubkey_enc
  | PKT_PLAINTEXT PKT_plaintext

record cipher_filter_context =
  cfx_dek :: "DEK option"
  cfx_datalen :: u32

text \<open>The filter functions pushed on a stream, each with the context it is given.\<close>

datatype filter =
    text_filter
  | armor_filter
  | cipher_filter cipher_filter_context
  | compress_filter int

datatype stream = Inp | Out

datatype resource = R_dek | R_s2k | R_symkey_enc | R_pubkey_enc | R_frame | R_packet PACKET | R_pk_list

datatype status = STATUS_END_ENCRYPTION

text \<open>
  Everything the code does to the outside world is recorded, in order, as an event. A
  call that returns a code is recorded with the code it returned.
\<close>

datatype event =
    EvOpen stream
  | EvClose stream
  | EvCancel stream
  | EvPushFilter stream filter
  | EvComment string
  | EvMakeSessionKey DEK
  | EvPubkeyEncrypt public_key int
  | EvBuildPacket PACKET int
  | EvWrite "byte list" int
  | EvStatus status
  | EvFree resource

datatype log_entry = LogInfo string | LogError string | LogHexdump string

text \<open>
  The state threaded through the code: the global options (encode_crypt writes
  \<open>opt.pgp2\<close>), the events so far and the log.
\<close>

record world =
  w_opt :: options
  trace :: "event list"
  logs :: "log_entry list"

text \<open>
  Macros that encode.c uses and other headers define. They are parameters of the
  model: no value is assumed for any of them.
\<close>

record build =
  ENABLE_COMMENT_PACKETS :: bool
  comment_banner :: string
  IOBUF_FILELENGTH_LIMIT :: nat
  CIPHER_ALGO_3DES :: int
  DEFAULT_CIPHER_ALGO :: int
  G10ERR_OPEN_FILE :: int
  G10ERR_PASSPHRASE :: int
  G10ERR_WRITE_FILE :: int
  DBG_CIPHER :: bool

text \<open>
  The collaborators that encode.c calls and other files implement. Each is a parameter:
  the answer of a primitive that does I/O or draws randomness may depend on the events so
  far. \<open>inp_chunks\<close> is what successive \<open>iobuf_read\<close> calls deliver before the
  call that returns -1.
\<close>

record env =
  is_file_compressed :: "string option \<Rightarrow> bool \<times> int"
  iobuf_open :: "string option \<Rightarrow> bool"
  open_outfile :: "string option \<Rightarrow> int \<Rightarrow> int"
  passphrase_to_dek :: "int \<Rightarrow> STRING2KEY \<Rightarrow> DEK option \<times> STRING2KEY"
  iobuf_get_filelength :: "string option \<Rightarrow> u32"
  inp_chunks :: "string option \<Rightarrow> byte list list"
  make_basename :: "string \<Rightarrow> string"
  make_timestamp :: u32
  calc_packet_length :: "PACKET \<Rightarrow> u32"
  build_pk_list :: "string list \<Rightarrow> int \<times> public_key list"
  is_RSA :: "int \<Rightarrow> bool"
  session_key :: "event list \<Rightarrow> int \<Rightarrow> byte list"
  print_pubkey_algo_note :: "int \<Rightarrow> log_entry list"
  pubkey_nbits :: "int \<Rightarrow> MPI list \<Rightarrow> nat"
  encode_session_key :: "DEK \<Rightarrow> nat \<Rightarrow> MPI"
  pubkey_encrypt :: "event list \<Rightarrow> int \<Rightarrow> MPI \<Rightarrow> MPI list \<Rightarrow> int \<times> MPI list"
  build_packet :: "event list \<Rightarrow> PACKET \<Rightarrow> int"
  iobuf_write :: "event list \<Rightarrow> byte list \<Rightarrow> int"

definition emit :: "event \<Rightarrow> world \<Rightarrow> world" where
  "emit ev w = w\<lparr>trace := trace w @ [ev]\<rparr>"

definition log_msg :: "log_entry \<Rightarrow> world \<Rightarrow> world" where
  "log_msg m w = w\<lparr>logs := logs w @ [m]\<rparr>"

definition log_all :: "log_entry list \<Rightarrow> world \<Rightarrow> world" where
  "log_all ms w = w\<lparr>logs := logs w @ ms\<rparr>"

definition log_when :: "bool \<Rightarrow> log_entry \<Rightarrow> world \<Rightarrow> world" where
  "log_when b m w = (if b then log_msg m w else w)"

section \<open>write_pubkey_enc_from_list (lines 522-581)\<close>

text \<open>
  One turn of the \<open>for\<close> loop: the code between \<open>pk = pk_list->pk\<close> and
  \<open>free_pubkey_enc(enc)\<close>, returning the \<open>rc\<close> that the loop tests next.
\<close>

definition write_pubkey_enc :: "env \<Rightarrow> public_key \<Rightarrow> DEK \<Rightarrow> world \<Rightarrow> int \<times> world" where
  "write_pubkey_enc E pk dek w =
    (let w1 = log_all (print_pubkey_algo_note E (pk_pubkey_algo pk)) w;
         frame = encode_session_key E dek (pubkey_nbits E (pk_pubkey_algo pk) (pk_pkey pk));
         res = pubkey_encrypt E (trace w1) (pk_pubkey_algo pk) frame (pk_pkey pk);
         rc = fst res;
         enc = \<lparr>enc_pubkey_algo = pk_pubkey_algo pk, enc_keyid = pk_keyid pk,
                enc_throw_keyid = opt_throw_keyid (w_opt w), enc_data = snd res\<rparr>;
         w2 = emit (EvFree R_frame) (emit (EvPubkeyEncrypt pk rc) w1)
     in if rc \<noteq> 0
        then (rc, emit (EvFree R_pubkey_enc) (log_msg (LogError ''pubkey_encrypt failed'') w2))
        else
          (let w3 = log_when (opt_verbose (w_opt w)) (LogInfo ''encrypted for'') w2;
               pkt = PKT_PUBKEY_ENC enc;
               rc2 = build_packet E (trace w3) pkt;
               w4 = emit (EvBuildPacket pkt rc2) w3;
               w5 = log_when (rc2 \<noteq> 0) (LogError ''build_packet(pubkey_enc) failed'') w4
           in (rc2, emit (EvFree R_pubkey_enc) w5)))"

fun write_pubkey_enc_from_list :: "env \<Rightarrow> public_key list \<Rightarrow> DEK \<Rightarrow> world \<Rightarrow> int \<times> world" where
  "write_pubkey_enc_from_list E [] dek w = (0, w)"
| "write_pubkey_enc_from_list E (pk # pk_list) dek w =
    (case write_pubkey_enc E pk dek w of
       (rc, w') \<Rightarrow> if rc \<noteq> 0 then (rc, w') else write_pubkey_enc_from_list E pk_list dek w')"


section \<open>Policy helpers that other files implement\<close>

text \<open>
  Modelled from the spec: select_mdc_from_pklist is not in encode.c. Section 4.4:
  integrity protection is "enabled if and only if every recipient's key supports it; a
  single non-supporting recipient disables it for the whole message".
\<close>

definition select_mdc_from_pklist :: "public_key list \<Rightarrow> bool" where
  "select_mdc_from_pklist pk_list = list_all pk_mdc_feature pk_list"

datatype preftype = PREFTYPE_SYM | PREFTYPE_ZIP

definition pk_prefs :: "preftype \<Rightarrow> public_key \<Rightarrow> int list" where
  "pk_prefs t pk = (case t of PREFTYPE_SYM \<Rightarrow> pk_prefs_sym pk | PREFTYPE_ZIP \<Rightarrow> pk_prefs_zip pk)"

text \<open>
  Modelled from the spec: select_algo_from_prefs is not in encode.c. Section 4.4: "the
  algorithm most preferred across the intersection of all recipients' advertised
  symmetric-cipher preferences", with no result "if no common preference exists"; the
  caller in encode.c tests that case as the value -1. The spec does not say whose order
  ranks the intersection: the first recipient's order is taken here.
\<close>

definition select_algo_from_prefs :: "public_key list \<Rightarrow> preftype \<Rightarrow> int" where
  "select_algo_from_prefs pk_list t =
    (case pk_list of
       [] \<Rightarrow> - 1
     | pk # rest \<Rightarrow>
         (case filter (\<lambda>a. list_all (\<lambda>q. a \<in> set (pk_prefs t q)) rest) (pk_prefs t pk) of
            [] \<Rightarrow> - 1
          | a # _ \<Rightarrow> a))"

text \<open>
  Modelled from the spec: make_session_key is not in encode.c. Section 4.3: it
  "generates a fresh cryptographically random key of the length required by the resolved
  cipher algorithm"; the random bytes are the environment's.
\<close>

definition make_session_key :: "env \<Rightarrow> event list \<Rightarrow> DEK \<Rightarrow> DEK" where
  "make_session_key E tr dek =
    dek\<lparr>dek_key := session_key E tr (dek_algo dek),
        dek_keylen := length (session_key E tr (dek_algo dek))\<rparr>"

section \<open>Code that encode_simple and encode_crypt have in common\<close>

text \<open>\<open>m_free\<close> and the stream calls do nothing on a NULL pointer.\<close>

definition m_free :: "resource \<Rightarrow> bool \<Rightarrow> world \<Rightarrow> world" where
  "m_free r allocated w = (if allocated then emit (EvFree r) w else w)"

definition iobuf_close :: "stream \<Rightarrow> bool \<Rightarrow> world \<Rightarrow> world" where
  "iobuf_close s opened w = (if opened then emit (EvClose s) w else w)"

definition iobuf_cancel :: "stream \<Rightarrow> bool \<Rightarrow> world \<Rightarrow> world" where
  "iobuf_cancel s opened w = (if opened then emit (EvCancel s) w else w)"

text \<open>Lines 134-143 and 322-331: the armor filter, or the comment packets.\<close>

definition push_armor :: "build \<Rightarrow> world \<Rightarrow> world" where
  "push_armor B w =
    (if opt_armor (w_opt w) then emit (EvPushFilter Out armor_filter) w
     else if ENABLE_COMMENT_PACKETS B then
       (let w1 = emit (EvComment (comment_banner B)) w
        in case opt_comment_string (w_opt w) of
             None \<Rightarrow> w1
           | Some s \<Rightarrow> emit (EvComment s) w1)
     else w)"

text \<open>Lines 156-170 and 366-379: the name put in the literal packet.\<close>

definition plaintext_name :: "env \<Rightarrow> options \<Rightarrow> string option \<Rightarrow> string" where
  "plaintext_name E opt filename =
    (case opt_set_filename opt of
       Some s \<Rightarrow> make_basename E s
     | None \<Rightarrow> (case filename of Some f \<Rightarrow> make_basename E f | None \<Rightarrow> []))"

text \<open>Lines 183-193 and 381-390: the value of \<open>filesize\<close>.\<close>

definition get_filesize :: "build \<Rightarrow> env \<Rightarrow> string option \<Rightarrow> world \<Rightarrow> u32 \<times> world" where
  "get_filesize B E filename w =
    (if filename \<noteq> None \<and> \<not> opt_textmode (w_opt w) then
       (let filesize = iobuf_get_filelength E filename;
            w1 = log_when (filesize = 0) (LogInfo ''WARNING: empty file'') w
        in (if IOBUF_FILELENGTH_LIMIT B \<le> unat filesize then 0 else filesize, w1))
     else
       (if opt_set_filesize (w_opt w) \<noteq> 0 then opt_set_filesize (w_opt w) else 0, w))"

text \<open>
  Lines 195-206 and 392-403: the literal packet and \<open>cfx.datalen\<close>. With
  \<open>opt.no_literal\<close> the packet variable keeps what it held.
\<close>

definition setup_plaintext ::
  "env \<Rightarrow> options \<Rightarrow> string option \<Rightarrow> u32 \<Rightarrow> bool \<Rightarrow> PACKET \<Rightarrow> PACKET \<times> u32" where
  "setup_plaintext E opt filename filesize do_compress pkt =
    (if \<not> opt_no_literal opt then
       (let pt = \<lparr>pt_name = plaintext_name E opt filename,
                  pt_timestamp = make_timestamp E,
                  pt_mode = (if opt_textmode opt then CHR ''t'' else CHR ''b''),
                  pt_len = filesize,
                  pt_new_ctb = (filesize = 0 \<and> \<not> opt_rfc1991 opt)\<rparr>
        in (PKT_PLAINTEXT pt,
            if filesize \<noteq> 0 \<and> \<not> do_compress then calc_packet_length E (PKT_PLAINTEXT pt) else 0))
     else (pkt, if filesize \<noteq> 0 \<and> \<not> do_compress then filesize else 0))"

text \<open>
  Lines 225-230 and 433-438: the copy loop of the \<open>no_literal\<close> case, over the chunks
  that \<open>iobuf_read\<close> delivers; \<open>rc\<close> is changed only by a failed write.
\<close>

fun copy_loop :: "build \<Rightarrow> env \<Rightarrow> byte list list \<Rightarrow> int \<Rightarrow> world \<Rightarrow> int \<times> world" where
  "copy_loop B E [] rc w = (rc, w)"
| "copy_loop B E (copy_buffer # chunks) rc w =
    (let r = iobuf_write E (trace w) copy_buffer;
         w1 = emit (EvWrite copy_buffer r) w
     in if r = - 1
        then (G10ERR_WRITE_FILE B, log_msg (LogError ''copying input to output failed'') w1)
        else copy_loop B E chunks rc w1)"

text \<open>Lines 215-232 and 424-440: "do the work".\<close>

definition do_the_work ::
  "build \<Rightarrow> env \<Rightarrow> string option \<Rightarrow> PACKET \<Rightarrow> int \<Rightarrow> world \<Rightarrow> int \<times> world" where
  "do_the_work B E filename pkt rc w =
    (if \<not> opt_no_literal (w_opt w) then
       (let rc1 = build_packet E (trace w) pkt;
            w1 = emit (EvBuildPacket pkt rc1) w
        in (rc1, log_when (rc1 \<noteq> 0) (LogError ''build_packet failed'') w1))
     else copy_loop B E (inp_chunks E filename) rc w)"

section \<open>encode_simple (lines 68-249)\<close>

text \<open>Lines 144-154: the symmetric session-key packet; \<open>rc\<close> and the packet variable.\<close>

definition write_symkey_enc ::
  "env \<Rightarrow> DEK option \<Rightarrow> STRING2KEY option \<Rightarrow> world \<Rightarrow> int \<times> PACKET \<times> world" where
  "write_symkey_enc E dek s2k w =
    (case (s2k, dek) of
       (Some s, Some d) \<Rightarrow>
         if \<not> opt_rfc1991 (w_opt w) then
           (let enc = \<lparr>ske_version = 4, ske_cipher_algo = dek_algo d, ske_s2k = s\<rparr>;
                pkt = PKT_SYMKEY_ENC enc;
                rc = build_packet E (trace w) pkt;
                w1 = emit (EvBuildPacket pkt rc) w;
                w2 = log_when (rc \<noteq> 0) (LogError ''build symkey packet failed'') w1
            in (rc, pkt, emit (EvFree R_symkey_enc) w2))
         else (0, PKT_NONE, w)
     | _ \<Rightarrow> (0, PKT_NONE, w))"

text \<open>Lines 234-248: "finish the stuff".\<close>

definition encode_simple_finish ::
  "int \<Rightarrow> int \<Rightarrow> PACKET \<Rightarrow> DEK option \<Rightarrow> STRING2KEY option \<Rightarrow> world \<Rightarrow> int \<times> world" where
  "encode_simple_finish rc mode pkt dek s2k w =
    (let w1 = iobuf_close Inp True w;
         w2 = (if rc \<noteq> 0 then iobuf_cancel Out True w1
               else (let w' = iobuf_close Out True w1
                     in if mode \<noteq> 0 then emit (EvStatus STATUS_END_ENCRYPTION) w' else w'));
         w3 = emit (EvFree (R_packet pkt)) w2;
         w4 = m_free R_dek (dek \<noteq> None) w3;
         w5 = m_free R_s2k (s2k \<noteq> None) w4
     in (rc, w5))"

text \<open>Lines 134-248: what encode_simple does once the output is open.\<close>

definition encode_simple_out ::
  "build \<Rightarrow> env \<Rightarrow> string option \<Rightarrow> int \<Rightarrow> bool \<Rightarrow> DEK option \<Rightarrow> STRING2KEY option \<Rightarrow> world
    \<Rightarrow> int \<times> world" where
  "encode_simple_out B E filename mode do_compress dek s2k w =
    (let w1 = push_armor B w;
         (rc1, pkt1, w2) = write_symkey_enc E dek s2k w1;
         (filesize, w3) = get_filesize B E filename w2;
         (pkt, datalen) = setup_plaintext E (w_opt w3) filename filesize do_compress pkt1;
         cfx = \<lparr>cfx_dek = dek, cfx_datalen = datalen\<rparr>;
         w4 = (if mode \<noteq> 0 then emit (EvPushFilter Out (cipher_filter cfx)) w3 else w3);
         w5 = (if do_compress then emit (EvPushFilter Out (compress_filter 0)) w4 else w4);
         (rc, w6) = do_the_work B E filename pkt rc1 w5
     in encode_simple_finish rc mode pkt dek s2k w6)"

text \<open>Lines 110-116: the S2K parameters and the call of passphrase_to_dek.\<close>

definition init_s2k :: "options \<Rightarrow> STRING2KEY" where
  "init_s2k opt =
    \<lparr>s2k_mode = (if opt_rfc1991 opt then 0 else opt_s2k_mode opt),
     s2k_hash_algo = (if opt_def_digest_algo opt \<noteq> 0 then opt_def_digest_algo opt
                      else opt_s2k_digest_algo opt),
     s2k_salt = [], s2k_count = 0\<rparr>"

definition get_passphrase_dek :: "env \<Rightarrow> options \<Rightarrow> DEK option \<times> STRING2KEY" where
  "get_passphrase_dek E opt =
    passphrase_to_dek E
      (if opt_def_cipher_algo opt \<noteq> 0 then opt_def_cipher_algo opt else opt_s2k_cipher_algo opt)
      (init_s2k opt)"

text \<open>Line 117: \<open>!cfx.dek || !cfx.dek->keylen\<close>.\<close>

definition no_key :: "DEK option \<Rightarrow> bool" where
  "no_key dek = (case dek of None \<Rightarrow> True | Some d \<Rightarrow> dek_keylen d = 0)"

text \<open>Lines 108-132: the passphrase, then the output file.\<close>

definition encode_simple_key ::
  "build \<Rightarrow> env \<Rightarrow> string option \<Rightarrow> int \<Rightarrow> bool \<Rightarrow> world \<Rightarrow> int \<times> world" where
  "encode_simple_key B E filename mode do_compress w =
    (let opt = w_opt w;
         dek = (if mode \<noteq> 0 then fst (get_passphrase_dek E opt) else None);
         s2k = (if mode \<noteq> 0 then Some (snd (get_passphrase_dek E opt)) else None)
     in if mode \<noteq> 0 \<and> no_key dek then
          (G10ERR_PASSPHRASE B,
           log_msg (LogError ''error creating passphrase'')
             (iobuf_close Inp True (m_free R_s2k True (m_free R_dek (dek \<noteq> None) w))))
        else
          (let rc = open_outfile E filename (if opt_armor opt then 1 else 0)
           in if rc \<noteq> 0 then
                (rc, m_free R_s2k (s2k \<noteq> None) (m_free R_dek (dek \<noteq> None) (iobuf_cancel Inp True w)))
              else encode_simple_out B E filename mode do_compress dek s2k (emit (EvOpen Out) w)))"

definition encode_simple :: "build \<Rightarrow> env \<Rightarrow> string option \<Rightarrow> int \<Rightarrow> world \<Rightarrow> int \<times> world" where
  "encode_simple B E filename mode w =
    (let opt = w_opt w;
         compressed = fst (is_file_compressed E filename);
         rc = snd (is_file_compressed E filename);
         w1 = log_when (compressed \<and> opt_verbose opt) (LogInfo ''already compressed'') w;
         do_compress = (if compressed then False else opt_compress opt \<noteq> 0 \<and> \<not> opt_rfc1991 opt)
     in if rc \<noteq> 0 then (rc, w1)
        else if \<not> iobuf_open E filename then
          (G10ERR_OPEN_FILE B, log_msg (LogError ''can't open'') w1)
        else
          (let w2 = emit (EvOpen Inp) w1;
               w3 = (if opt_textmode opt then emit (EvPushFilter Inp text_filter) w2 else w2)
           in encode_simple_key B E filename mode do_compress w3))"

definition encode_symmetric :: "build \<Rightarrow> env \<Rightarrow> string option \<Rightarrow> world \<Rightarrow> int \<times> world" where
  "encode_symmetric B E filename w = encode_simple B E filename 1 w"

definition encode_store :: "build \<Rightarrow> env \<Rightarrow> string option \<Rightarrow> world \<Rightarrow> int \<times> world" where
  "encode_store B E filename w = encode_simple B E filename 0 w"


section \<open>encode_crypt (lines 255-457)\<close>

text \<open>
  Lines 280-291: the \<open>--pgp2\<close> check, a loop over the recipients that stops at the first
  key that is not an RSA key of at most 2048 bits. \<open>nbits_from_pk\<close> is the key's size.
\<close>

fun pgp2_check_list :: "env \<Rightarrow> public_key list \<Rightarrow> world \<Rightarrow> world" where
  "pgp2_check_list E [] w = w"
| "pgp2_check_list E (pk # work_list) w =
    (if \<not> (is_RSA E (pk_pubkey_algo pk) \<and> pk_nbits pk \<le> 2048) then
       (log_msg (LogInfo ''this message may not be usable by PGP 2.x'')
          (log_msg (LogInfo ''you can only encrypt to RSA keys of 2048 bits or less in --pgp2 mode'') w))
         \<lparr>w_opt := (w_opt w)\<lparr>opt_pgp2 := False\<rparr>\<rparr>
     else pgp2_check_list E work_list w)"

definition pgp2_check :: "env \<Rightarrow> public_key list \<Rightarrow> world \<Rightarrow> world" where
  "pgp2_check E pk_list w = (if opt_pgp2 (w_opt w) then pgp2_check_list E pk_list w else w)"

text \<open>Lines 332-360: "create a session key".\<close>

definition create_session_key :: "build \<Rightarrow> env \<Rightarrow> public_key list \<Rightarrow> world \<Rightarrow> DEK \<times> world" where
  "create_session_key B E pk_list w =
    (let sel = select_algo_from_prefs pk_list PREFTYPE_SYM;
         algo = (if opt_def_cipher_algo (w_opt w) = 0
                 then (if sel = - 1 then CIPHER_ALGO_3DES B else sel)
                 else opt_def_cipher_algo (w_opt w));
         w1 = (if opt_def_cipher_algo (w_opt w) = 0 \<and> sel = - 1 \<and> opt_pgp2 (w_opt w) then
                 (log_msg (LogInfo ''this message may not be usable by PGP 2.x'')
                    (log_msg (LogInfo ''unable to use the IDEA cipher for all of the keys you are encrypting to.'') w))
                   \<lparr>w_opt := (w_opt w)\<lparr>opt_pgp2 := False\<rparr>\<rparr>
               else w);
         dek = make_session_key E (trace w1)
                 \<lparr>dek_algo = algo, dek_keylen = 0, dek_key = [],
                  dek_use_mdc = select_mdc_from_pklist pk_list\<rparr>;
         w2 = emit (EvMakeSessionKey dek) w1
     in (dek, log_when (DBG_CIPHER B) (LogHexdump ''DEK is: '') w2))"

text \<open>Lines 408-422: "register the compress filter".\<close>

definition push_compress :: "public_key list \<Rightarrow> bool \<Rightarrow> world \<Rightarrow> world" where
  "push_compress pk_list do_compress w =
    (if do_compress then
       (let compr_algo = select_algo_from_prefs pk_list PREFTYPE_ZIP
        in if compr_algo = 0 then w
           else emit (EvPushFilter Out
                  (compress_filter (if compr_algo = 1 then 1 else if compr_algo = 2 then 2 else 0))) w)
     else w)"

text \<open>
  Lines 442-456: the label \<open>leave\<close>. \<open>inp\<close> and \<open>out\<close> say whether the stream pointer is
  non-NULL, \<open>dek\<close> whether \<open>cfx.dek\<close> is.
\<close>

definition encode_crypt_leave :: "int \<Rightarrow> bool \<Rightarrow> bool \<Rightarrow> PACKET \<Rightarrow> bool \<Rightarrow> world \<Rightarrow> int \<times> world" where
  "encode_crypt_leave rc inp out pkt dek w =
    (let w1 = iobuf_close Inp inp w;
         w2 = (if rc \<noteq> 0 then iobuf_cancel Out out w1
               else emit (EvStatus STATUS_END_ENCRYPTION) (iobuf_close Out out w1));
         w3 = emit (EvFree (R_packet pkt)) w2;
         w4 = m_free R_dek dek w3
     in (rc, emit (EvFree R_pk_list) w4))"

text \<open>Lines 322-456: what encode_crypt does once the output is open.\<close>

definition encode_crypt_out ::
  "build \<Rightarrow> env \<Rightarrow> string option \<Rightarrow> public_key list \<Rightarrow> bool \<Rightarrow> world \<Rightarrow> int \<times> world" where
  "encode_crypt_out B E filename pk_list do_compress w =
    (let w1 = push_armor B w;
         (dek, w2) = create_session_key B E pk_list w1;
         (rc1, w3) = write_pubkey_enc_from_list E pk_list dek w2
     in if rc1 \<noteq> 0 then encode_crypt_leave rc1 True True PKT_NONE True w3
        else
          (let (filesize, w4) = get_filesize B E filename w3;
               (pkt, datalen) = setup_plaintext E (w_opt w4) filename filesize do_compress PKT_NONE;
               cfx = \<lparr>cfx_dek = Some dek, cfx_datalen = datalen\<rparr>;
               w5 = emit (EvPushFilter Out (cipher_filter cfx)) w4;
               w6 = push_compress pk_list do_compress w5;
               (rc, w7) = do_the_work B E filename pkt rc1 w6
           in encode_crypt_leave rc True True pkt True w7))"

text \<open>Lines 293-320: the compression probe and the two streams.\<close>

definition encode_crypt_open ::
  "build \<Rightarrow> env \<Rightarrow> string option \<Rightarrow> public_key list \<Rightarrow> world \<Rightarrow> int \<times> world" where
  "encode_crypt_open B E filename pk_list w =
    (let opt = w_opt w;
         compressed = fst (is_file_compressed E filename);
         rc2 = snd (is_file_compressed E filename);
         w1 = log_when (compressed \<and> opt_verbose opt) (LogInfo ''already compressed'') w;
         do_compress = (if compressed then False else opt_compress opt \<noteq> 0 \<and> \<not> opt_rfc1991 opt)
     in if rc2 \<noteq> 0 then encode_crypt_leave rc2 False False PKT_NONE False w1
        else if \<not> iobuf_open E filename then
          encode_crypt_leave (G10ERR_OPEN_FILE B) False False PKT_NONE False
            (log_msg (LogError ''can't open'') w1)
        else
          (let w2 = log_when (opt_verbose opt) (LogInfo ''reading from'') (emit (EvOpen Inp) w1);
               w3 = (if opt_textmode opt then emit (EvPushFilter Inp text_filter) w2 else w2);
               rc = open_outfile E filename (if opt_armor opt then 1 else 0)
           in if rc \<noteq> 0 then encode_crypt_leave rc True False PKT_NONE False w3
              else encode_crypt_out B E filename pk_list do_compress (emit (EvOpen Out) w3)))"

definition encode_crypt :: "build \<Rightarrow> env \<Rightarrow> string option \<Rightarrow> string list \<Rightarrow> world \<Rightarrow> int \<times> world" where
  "encode_crypt B E filename remusr w =
    (let rc = fst (build_pk_list E remusr);
         pk_list = snd (build_pk_list E remusr)
     in if rc \<noteq> 0 then (rc, w)
        else encode_crypt_open B E filename pk_list (pgp2_check E pk_list w))"

section \<open>encrypt_filter (lines 465-516)\<close>

record encrypt_filter_context =
  efx_pk_list :: "public_key list"
  efx_cfx :: cipher_filter_context
  efx_header_okay :: bool

datatype control = IOBUFCTRL_UNDERFLOW | IOBUFCTRL_FLUSH | IOBUFCTRL_FREE | IOBUFCTRL_DESC

text \<open>
  What a call leaves behind: the return code, the name stored through \<open>buf\<close> by
  IOBUFCTRL_DESC, the filter context and the world.
\<close>

record filter_result =
  r_rc :: int
  r_desc :: "string option"
  r_efx :: encrypt_filter_context
  r_world :: world

text \<open>Lines 478-494: the DEK of the filter.\<close>

definition filter_session_key :: "build \<Rightarrow> env \<Rightarrow> public_key list \<Rightarrow> world \<Rightarrow> DEK \<times> world" where
  "filter_session_key B E pk_list w =
    (let sel = select_algo_from_prefs pk_list PREFTYPE_SYM;
         algo = (if opt_def_cipher_algo (w_opt w) = 0
                 then (if sel = - 1 then DEFAULT_CIPHER_ALGO B else sel)
                 else opt_def_cipher_algo (w_opt w));
         dek = make_session_key E (trace w)
                 \<lparr>dek_algo = algo, dek_keylen = 0, dek_key = [],
                  dek_use_mdc = select_mdc_from_pklist pk_list\<rparr>;
         w1 = emit (EvMakeSessionKey dek) w
     in (dek, log_when (DBG_CIPHER B) (LogHexdump ''DEK is: '') w1))"

text \<open>
  Lines 476-508: IOBUFCTRL_FLUSH. The stream \<open>a\<close> is the output. A failed
  write_pubkey_enc_from_list returns before \<open>header_okay\<close> is set.
\<close>

definition encrypt_filter_flush ::
  "build \<Rightarrow> env \<Rightarrow> encrypt_filter_context \<Rightarrow> byte list \<Rightarrow> world \<Rightarrow> filter_result" where
  "encrypt_filter_flush B E efx buf w =
    (if \<not> efx_header_okay efx then
       (let (dek, w1) = filter_session_key B E (efx_pk_list efx) w;
            efx1 = efx\<lparr>efx_cfx := (efx_cfx efx)\<lparr>cfx_dek := Some dek\<rparr>\<rparr>;
            (rc, w2) = write_pubkey_enc_from_list E (efx_pk_list efx) dek w1
        in if rc \<noteq> 0 then \<lparr>r_rc = rc, r_desc = None, r_efx = efx1, r_world = w2\<rparr>
           else
             (let w3 = emit (EvPushFilter Out (cipher_filter (efx_cfx efx1))) w2;
                  efx2 = efx1\<lparr>efx_header_okay := True\<rparr>;
                  rc' = iobuf_write E (trace w3) buf
              in \<lparr>r_rc = rc', r_desc = None, r_efx = efx2, r_world = emit (EvWrite buf rc') w3\<rparr>))
     else
       (let rc' = iobuf_write E (trace w) buf
        in \<lparr>r_rc = rc', r_desc = None, r_efx = efx, r_world = emit (EvWrite buf rc') w\<rparr>))"

text \<open>\<open>BUG()\<close> does not return: the result of IOBUFCTRL_UNDERFLOW is \<open>None\<close>.\<close>

definition encrypt_filter ::
  "build \<Rightarrow> env \<Rightarrow> encrypt_filter_context \<Rightarrow> control \<Rightarrow> byte list \<Rightarrow> world \<Rightarrow> filter_result option" where
  "encrypt_filter B E efx ctl buf w =
    (case ctl of
       IOBUFCTRL_UNDERFLOW \<Rightarrow> None
     | IOBUFCTRL_FLUSH \<Rightarrow> Some (encrypt_filter_flush B E efx buf w)
     | IOBUFCTRL_FREE \<Rightarrow> Some \<lparr>r_rc = 0, r_desc = None, r_efx = efx, r_world = w\<rparr>
     | IOBUFCTRL_DESC \<Rightarrow> Some \<lparr>r_rc = 0, r_desc = Some ''encrypt_filter'', r_efx = efx, r_world = w\<rparr>)"

text \<open>
  A sequence of IOBUFCTRL_FLUSH calls on one filter, one per buffer, whatever each call
  returns: the return codes, the last context and the last world.
\<close>

fun flush_all ::
  "build \<Rightarrow> env \<Rightarrow> byte list list \<Rightarrow> encrypt_filter_context \<Rightarrow> world
    \<Rightarrow> int list \<times> encrypt_filter_context \<times> world" where
  "flush_all B E [] efx w = ([], efx, w)"
| "flush_all B E (buf # bufs) efx w =
    (case encrypt_filter B E efx IOBUFCTRL_FLUSH buf w of
       None \<Rightarrow> ([], efx, w)
     | Some r \<Rightarrow>
         (case flush_all B E bufs (r_efx r) (r_world r) of
            (rcs, efx', w') \<Rightarrow> (r_rc r # rcs, efx', w')))"

section \<open>What a trace shows\<close>

fun stream_op :: "stream \<Rightarrow> event \<Rightarrow> bool" where
  "stream_op s (EvOpen s') = (s' = s)"
| "stream_op s (EvClose s') = (s' = s)"
| "stream_op s (EvCancel s') = (s' = s)"
| "stream_op s _ = False"

text \<open>What was done to a stream as a whole: opening, closing and cancelling, in order.\<close>

definition stream_ops :: "stream \<Rightarrow> event list \<Rightarrow> event list" where
  "stream_ops s tr = filter (stream_op s) tr"

fun wrapped_for :: "event \<Rightarrow> public_key list" where
  "wrapped_for (EvPubkeyEncrypt pk rc) = [pk]"
| "wrapped_for _ = []"

text \<open>The recipients \<open>pubkey_encrypt\<close> was called for, in call order.\<close>

definition wrapped :: "event list \<Rightarrow> public_key list" where
  "wrapped tr = concat (map wrapped_for tr)"

fun built_by :: "event \<Rightarrow> PACKET list" where
  "built_by (EvBuildPacket pkt rc) = (if rc = 0 then [pkt] else [])"
| "built_by _ = []"

text \<open>The packets that \<open>build_packet\<close> wrote with return code 0, in order.\<close>

definition built :: "event list \<Rightarrow> PACKET list" where
  "built tr = concat (map built_by tr)"


text \<open>The events of a run from world \<open>w\<close> to world \<open>w'\<close>.\<close>

definition events_of :: "world \<Rightarrow> world \<Rightarrow> event list" where
  "events_of w w' = drop (length (trace w)) (trace w')"

fun wrap_code :: "event \<Rightarrow> int list" where
  "wrap_code (EvPubkeyEncrypt pk rc) = [rc]"
| "wrap_code (EvBuildPacket (PKT_PUBKEY_ENC enc) rc) = [rc]"
| "wrap_code _ = []"

text \<open>
  The return codes of the key wraps and of the builds of public-key session-key packets,
  in call order.
\<close>

definition wrap_codes :: "event list \<Rightarrow> int list" where
  "wrap_codes tr = concat (map wrap_code tr)"

text \<open>A public-key session-key packet addressed to the recipient \<open>pk\<close>.\<close>

fun pubkey_enc_for :: "public_key \<Rightarrow> PACKET \<Rightarrow> bool" where
  "pubkey_enc_for pk (PKT_PUBKEY_ENC enc) =
     (enc_pubkey_algo enc = pk_pubkey_algo pk \<and> enc_keyid enc = pk_keyid pk)"
| "pubkey_enc_for pk _ = False"

text \<open>The events that one turn of the recipient loop can leave.\<close>

fun is_wrap_event :: "event \<Rightarrow> bool" where
  "is_wrap_event (EvPubkeyEncrypt pk rc) = True"
| "is_wrap_event (EvBuildPacket (PKT_PUBKEY_ENC enc) rc) = True"
| "is_wrap_event (EvFree R_frame) = True"
| "is_wrap_event (EvFree R_pubkey_enc) = True"
| "is_wrap_event _ = False"

text \<open>
  \<open>wrap_ok\<close>: the key was wrapped for every recipient of the list, in list order, one
  packet was written for each, and every call returned 0. \<open>wrap_failed\<close>: the key was
  wrapped for the recipients up to one of them, number \<open>n\<close>, and no further; a packet was
  written for each recipient before that one; every call but the last returned 0 and the
  last returned \<open>rc\<close>.
\<close>

definition wrap_ok :: "public_key list \<Rightarrow> event list \<Rightarrow> bool" where
  "wrap_ok pk_list evs \<longleftrightarrow>
     wrapped evs = pk_list \<and> list_all2 pubkey_enc_for pk_list (built evs) \<and>
     list_all (\<lambda>c. c = 0) (wrap_codes evs)"

definition wrap_failed :: "public_key list \<Rightarrow> int \<Rightarrow> event list \<Rightarrow> bool" where
  "wrap_failed pk_list rc evs \<longleftrightarrow>
     (\<exists>n<length pk_list. wrapped evs = take (Suc n) pk_list \<and>
         list_all2 pubkey_enc_for (take n pk_list) (built evs)) \<and>
     (\<exists>cs. wrap_codes evs = cs @ [rc] \<and> list_all (\<lambda>c. c = 0) cs)"

fun write_code :: "event \<Rightarrow> int list" where
  "write_code (EvWrite buf r) = [r]"
| "write_code _ = []"

text \<open>The return codes of the \<open>iobuf_write\<close> calls, in call order.\<close>

definition write_codes :: "event list \<Rightarrow> int list" where
  "write_codes tr = concat (map write_code tr)"

fun is_write_event :: "event \<Rightarrow> bool" where
  "is_write_event (EvWrite buf r) = True"
| "is_write_event _ = False"

text \<open>The events of the blocks that have no loop, as lists.\<close>

definition open_events :: "options \<Rightarrow> event list" where
  "open_events opt = EvOpen Inp # (if opt_textmode opt then [EvPushFilter Inp text_filter] else [])"

definition armor_events :: "build \<Rightarrow> options \<Rightarrow> event list" where
  "armor_events B opt =
    (if opt_armor opt then [EvPushFilter Out armor_filter]
     else if ENABLE_COMMENT_PACKETS B then
       EvComment (comment_banner B) #
         (case opt_comment_string opt of None \<Rightarrow> [] | Some s \<Rightarrow> [EvComment s])
     else [])"

definition leave_events :: "int \<Rightarrow> bool \<Rightarrow> bool \<Rightarrow> PACKET \<Rightarrow> bool \<Rightarrow> event list" where
  "leave_events rc inp out pkt dek =
    (if inp then [EvClose Inp] else []) @
    (if rc \<noteq> 0 then (if out then [EvCancel Out] else [])
     else (if out then [EvClose Out] else []) @ [EvStatus STATUS_END_ENCRYPTION]) @
    [EvFree (R_packet pkt)] @ (if dek then [EvFree R_dek] else []) @ [EvFree R_pk_list]"

definition finish_events :: "int \<Rightarrow> int \<Rightarrow> PACKET \<Rightarrow> bool \<Rightarrow> bool \<Rightarrow> event list" where
  "finish_events rc mode pkt dek s2k =
    [EvClose Inp] @
    (if rc \<noteq> 0 then [EvCancel Out]
     else EvClose Out # (if mode \<noteq> 0 then [EvStatus STATUS_END_ENCRYPTION] else [])) @
    [EvFree (R_packet pkt)] @ (if dek then [EvFree R_dek] else []) @
    (if s2k then [EvFree R_s2k] else [])"

fun is_compress_push :: "event \<Rightarrow> bool" where
  "is_compress_push (EvPushFilter Out (compress_filter a)) = True"
| "is_compress_push _ = False"


text \<open>
  What "do the work" leaves: with \<open>opt.no_literal\<close> only writes, and the code
  G10ERR_WRITE_FILE if one of them returned -1, the code it started with otherwise;
  without it the one build of the packet, whose code is returned.
\<close>

definition is_work :: "build \<Rightarrow> bool \<Rightarrow> PACKET \<Rightarrow> int \<Rightarrow> int \<Rightarrow> event list \<Rightarrow> bool" where
  "is_work B no_lit pkt rc rc' evs \<longleftrightarrow>
    (if no_lit then
       list_all is_write_event evs \<and>
       (if - 1 \<in> set (write_codes evs) then rc' = G10ERR_WRITE_FILE B else rc' = rc)
     else evs = [EvBuildPacket pkt rc'])"


text \<open>The log only grows.\<close>

definition log_ext :: "world \<Rightarrow> world \<Rightarrow> bool" where
  "log_ext w w' \<longleftrightarrow> (\<exists>ls. logs w' = logs w @ ls)"

text \<open>
  The cipher algorithm that lines 334-355 put in the DEK, and the DEK that they make:
  this algorithm and the flag of select_mdc_from_pklist.
\<close>

definition crypt_algo :: "build \<Rightarrow> options \<Rightarrow> public_key list \<Rightarrow> int" where
  "crypt_algo B opt pk_list =
    (if opt_def_cipher_algo opt = 0
     then (if select_algo_from_prefs pk_list PREFTYPE_SYM = - 1 then CIPHER_ALGO_3DES B
           else select_algo_from_prefs pk_list PREFTYPE_SYM)
     else opt_def_cipher_algo opt)"

definition is_crypt_dek :: "build \<Rightarrow> options \<Rightarrow> public_key list \<Rightarrow> DEK \<Rightarrow> bool" where
  "is_crypt_dek B opt pk_list dek \<longleftrightarrow>
     dek_algo dek = crypt_algo B opt pk_list \<and> dek_use_mdc dek = select_mdc_from_pklist pk_list"

text \<open>
  The events of encode_crypt from the armor filter on, when it returns \<open>rc\<close>: either
  the key wrap failed, or it succeeded and the cipher filter, the compress filter, the work
  and the cleanup follow. \<open>pkt\<close> is the literal packet and \<open>datalen\<close> the length given
  to the cipher filter.
\<close>

definition crypt_body ::
  "build \<Rightarrow> options \<Rightarrow> public_key list \<Rightarrow> PACKET \<Rightarrow> u32 \<Rightarrow> int \<Rightarrow> event list \<Rightarrow> bool" where
  "crypt_body B opt pk_list pkt datalen rc evs \<longleftrightarrow>
    (\<exists>dek wr. list_all is_wrap_event wr \<and> is_crypt_dek B opt pk_list dek \<and>
       ((rc \<noteq> 0 \<and> wrap_failed pk_list rc wr \<and>
         evs = armor_events B opt @ EvMakeSessionKey dek # wr @ leave_events rc True True PKT_NONE True) \<or>
        (wrap_ok pk_list wr \<and>
         (\<exists>cz wk. list_all is_compress_push cz \<and> is_work B (opt_no_literal opt) pkt 0 rc wk \<and>
            evs = armor_events B opt @ EvMakeSessionKey dek # wr @
              EvPushFilter Out (cipher_filter \<lparr>cfx_dek = Some dek, cfx_datalen = datalen\<rparr>) #
              cz @ wk @ leave_events rc True True pkt True))))"

text \<open>The literal packet and the data length of a run, from the options at its start.\<close>

definition literal_of :: "build \<Rightarrow> env \<Rightarrow> world \<Rightarrow> string option \<Rightarrow> bool \<Rightarrow> PACKET \<Rightarrow> PACKET \<times> u32" where
  "literal_of B E w filename do_compress pkt =
     setup_plaintext E (w_opt w) filename (fst (get_filesize B E filename w)) do_compress pkt"

definition do_compress_of :: "env \<Rightarrow> options \<Rightarrow> string option \<Rightarrow> bool" where
  "do_compress_of E opt filename =
     (if fst (is_file_compressed E filename) then False
      else opt_compress opt \<noteq> 0 \<and> \<not> opt_rfc1991 opt)"


text \<open>
  The events of a whole run of encode_crypt that returns \<open>rc\<close>, by the place where it
  left: build_pk_list failed; the compression probe failed; the input did not open; the
  output did not open; or the output opened and the body ran.
\<close>

definition crypt_events ::
  "build \<Rightarrow> env \<Rightarrow> string option \<Rightarrow> string list \<Rightarrow> world \<Rightarrow> int \<Rightarrow> event list \<Rightarrow> bool" where
  "crypt_events B E filename remusr w rc evs \<longleftrightarrow>
    (fst (build_pk_list E remusr) \<noteq> 0 \<and> rc = fst (build_pk_list E remusr) \<and> evs = []) \<or>
    (fst (build_pk_list E remusr) = 0 \<and> snd (is_file_compressed E filename) \<noteq> 0 \<and>
       rc = snd (is_file_compressed E filename) \<and>
       evs = leave_events rc False False PKT_NONE False) \<or>
    (fst (build_pk_list E remusr) = 0 \<and> snd (is_file_compressed E filename) = 0 \<and>
       \<not> iobuf_open E filename \<and> rc = G10ERR_OPEN_FILE B \<and>
       evs = leave_events rc False False PKT_NONE False) \<or>
    (fst (build_pk_list E remusr) = 0 \<and> snd (is_file_compressed E filename) = 0 \<and>
       iobuf_open E filename \<and>
       open_outfile E filename (if opt_armor (w_opt w) then 1 else 0) \<noteq> 0 \<and>
       rc = open_outfile E filename (if opt_armor (w_opt w) then 1 else 0) \<and>
       evs = open_events (w_opt w) @ leave_events rc True False PKT_NONE False) \<or>
    (fst (build_pk_list E remusr) = 0 \<and> snd (is_file_compressed E filename) = 0 \<and>
       iobuf_open E filename \<and>
       open_outfile E filename (if opt_armor (w_opt w) then 1 else 0) = 0 \<and>
       (\<exists>body. evs = open_events (w_opt w) @ EvOpen Out # body \<and>
          crypt_body B (w_opt w) (snd (build_pk_list E remusr))
            (fst (literal_of B E w filename (do_compress_of E (w_opt w) filename) PKT_NONE))
            (snd (literal_of B E w filename (do_compress_of E (w_opt w) filename) PKT_NONE))
            rc body))"


text \<open>The packet variable of encode_simple after lines 144-154.\<close>

definition symkey_packet :: "options \<Rightarrow> DEK option \<Rightarrow> STRING2KEY option \<Rightarrow> PACKET" where
  "symkey_packet opt dek s2k =
    (case (s2k, dek) of
       (Some s, Some d) \<Rightarrow>
         if \<not> opt_rfc1991 opt
         then PKT_SYMKEY_ENC \<lparr>ske_version = 4, ske_cipher_algo = dek_algo d, ske_s2k = s\<rparr>
         else PKT_NONE
     | _ \<Rightarrow> PKT_NONE)"

text \<open>
  The events of encode_simple from the armor filter on, when it returns \<open>rc\<close>:
  \<open>rc1\<close> is the code of the build of the symmetric session-key packet (0 when there is
  none), \<open>pkt\<close> the literal packet and \<open>datalen\<close> the length given to the cipher
  filter.
\<close>

definition simple_body ::
  "build \<Rightarrow> options \<Rightarrow> int \<Rightarrow> bool \<Rightarrow> DEK option \<Rightarrow> STRING2KEY option \<Rightarrow> PACKET \<Rightarrow> u32
     \<Rightarrow> int \<Rightarrow> event list \<Rightarrow> bool" where
  "simple_body B opt mode do_compress dek s2k pkt datalen rc evs \<longleftrightarrow>
    (\<exists>rc1 wk. (symkey_packet opt dek s2k = PKT_NONE \<longrightarrow> rc1 = 0) \<and>
       is_work B (opt_no_literal opt) pkt rc1 rc wk \<and>
       evs = armor_events B opt @
         (if symkey_packet opt dek s2k = PKT_NONE then []
          else [EvBuildPacket (symkey_packet opt dek s2k) rc1, EvFree R_symkey_enc]) @
         (if mode \<noteq> 0 then [EvPushFilter Out (cipher_filter \<lparr>cfx_dek = dek, cfx_datalen = datalen\<rparr>)]
          else []) @
         (if do_compress then [EvPushFilter Out (compress_filter 0)] else []) @
         wk @ finish_events rc mode pkt (dek \<noteq> None) (s2k \<noteq> None))"

text \<open>
  The events of a whole run of encode_simple that returns \<open>rc\<close>, by the place where it
  left: the compression probe failed; the input did not open; no key came from the
  passphrase; the output did not open; or the output opened and the body ran.
\<close>

definition simple_events ::
  "build \<Rightarrow> env \<Rightarrow> string option \<Rightarrow> int \<Rightarrow> world \<Rightarrow> int \<Rightarrow> event list \<Rightarrow> bool" where
  "simple_events B E filename mode w rc evs \<longleftrightarrow>
    (let opt = w_opt w;
         dek = (if mode \<noteq> 0 then fst (get_passphrase_dek E opt) else None);
         s2k = (if mode \<noteq> 0 then Some (snd (get_passphrase_dek E opt)) else None);
         dc = do_compress_of E opt filename;
         lit = literal_of B E w filename dc (symkey_packet opt dek s2k)
     in (snd (is_file_compressed E filename) \<noteq> 0 \<and> rc = snd (is_file_compressed E filename) \<and>
           evs = []) \<or>
        (snd (is_file_compressed E filename) = 0 \<and> \<not> iobuf_open E filename \<and>
           rc = G10ERR_OPEN_FILE B \<and> evs = []) \<or>
        (snd (is_file_compressed E filename) = 0 \<and> iobuf_open E filename \<and>
           mode \<noteq> 0 \<and> no_key dek \<and> rc = G10ERR_PASSPHRASE B \<and>
           evs = open_events opt @ (if dek \<noteq> None then [EvFree R_dek] else []) @
                 [EvFree R_s2k, EvClose Inp]) \<or>
        (snd (is_file_compressed E filename) = 0 \<and> iobuf_open E filename \<and>
           \<not> (mode \<noteq> 0 \<and> no_key dek) \<and>
           open_outfile E filename (if opt_armor opt then 1 else 0) \<noteq> 0 \<and>
           rc = open_outfile E filename (if opt_armor opt then 1 else 0) \<and>
           evs = open_events opt @ EvCancel Inp #
                 (if dek \<noteq> None then [EvFree R_dek] else []) @
                 (if s2k \<noteq> None then [EvFree R_s2k] else [])) \<or>
        (snd (is_file_compressed E filename) = 0 \<and> iobuf_open E filename \<and>
           \<not> (mode \<noteq> 0 \<and> no_key dek) \<and>
           open_outfile E filename (if opt_armor opt then 1 else 0) = 0 \<and>
           (\<exists>body. evs = open_events opt @ EvOpen Out # body \<and>
              simple_body B opt mode dc dek s2k (fst lit) (snd lit) rc body)))"

fun literal_built_by :: "event \<Rightarrow> PKT_plaintext list" where
  "literal_built_by (EvBuildPacket (PKT_PLAINTEXT pt) rc) = [pt]"
| "literal_built_by _ = []"

text \<open>The literal packets handed to \<open>build_packet\<close>, whatever it returned.\<close>

definition literal_builds :: "event list \<Rightarrow> PKT_plaintext list" where
  "literal_builds tr = concat (map literal_built_by tr)"

fun literal_code :: "event \<Rightarrow> int list" where
  "literal_code (EvBuildPacket (PKT_PLAINTEXT pt) rc) = [rc]"
| "literal_code _ = []"

text \<open>The return codes of the builds of literal packets.\<close>

definition literal_codes :: "event list \<Rightarrow> int list" where
  "literal_codes tr = concat (map literal_code tr)"

fun symkey_built_by :: "event \<Rightarrow> PKT_symkey_enc list" where
  "symkey_built_by (EvBuildPacket (PKT_SYMKEY_ENC enc) rc) = [enc]"
| "symkey_built_by _ = []"

text \<open>The symmetric session-key packets handed to \<open>build_packet\<close>, whatever it returned.\<close>

definition symkey_builds :: "event list \<Rightarrow> PKT_symkey_enc list" where
  "symkey_builds tr = concat (map symkey_built_by tr)"

fun is_out_data :: "event \<Rightarrow> bool" where
  "is_out_data (EvBuildPacket pkt rc) = True"
| "is_out_data (EvWrite buf r) = True"
| "is_out_data _ = False"

text \<open>The packets and the raw data given to the output, in order.\<close>

definition out_data :: "event list \<Rightarrow> event list" where
  "out_data tr = filter is_out_data tr"

fun status_of :: "event \<Rightarrow> status list" where
  "status_of (EvStatus st) = [st]"
| "status_of _ = []"

definition statuses :: "event list \<Rightarrow> status list" where
  "statuses tr = concat (map status_of tr)"

fun freed_by :: "event \<Rightarrow> resource list" where
  "freed_by (EvFree r) = [r]"
| "freed_by _ = []"

definition frees :: "event list \<Rightarrow> resource list" where
  "frees tr = concat (map freed_by tr)"

fun session_key_of :: "event \<Rightarrow> DEK list" where
  "session_key_of (EvMakeSessionKey dek) = [dek]"
| "session_key_of _ = []"

text \<open>The DEKs that \<open>make_session_key\<close> filled, in order.\<close>

definition session_keys :: "event list \<Rightarrow> DEK list" where
  "session_keys tr = concat (map session_key_of tr)"

fun cipher_pushed_by :: "event \<Rightarrow> cipher_filter_context list" where
  "cipher_pushed_by (EvPushFilter Out (cipher_filter cfx)) = [cfx]"
| "cipher_pushed_by _ = []"

text \<open>The contexts with which the cipher filter was pushed on the output.\<close>

definition cipher_pushes :: "event list \<Rightarrow> cipher_filter_context list" where
  "cipher_pushes tr = concat (map cipher_pushed_by tr)"

fun written_by :: "event \<Rightarrow> byte list list" where
  "written_by (EvWrite buf r) = [buf]"
| "written_by _ = []"

text \<open>The buffers given to \<open>iobuf_write\<close>, in order.\<close>

definition written :: "event list \<Rightarrow> byte list list" where
  "written tr = concat (map written_by tr)"

text \<open>The literal packet of lines 196-199, from the options at the start of the run.\<close>

definition literal_pt :: "build \<Rightarrow> env \<Rightarrow> world \<Rightarrow> string option \<Rightarrow> PKT_plaintext" where
  "literal_pt B E w filename =
    \<lparr>pt_name = plaintext_name E (w_opt w) filename,
     pt_timestamp = make_timestamp E,
     pt_mode = (if opt_textmode (w_opt w) then CHR ''t'' else CHR ''b''),
     pt_len = fst (get_filesize B E filename w),
     pt_new_ctb = (fst (get_filesize B E filename w) = 0 \<and> \<not> opt_rfc1991 (w_opt w))\<rparr>"

text \<open>An algorithm that every recipient of a list, which is not empty, advertises.\<close>

definition common_pref :: "preftype \<Rightarrow> public_key list \<Rightarrow> int \<Rightarrow> bool" where
  "common_pref t pk_list a \<longleftrightarrow> pk_list \<noteq> [] \<and> list_all (\<lambda>pk. a \<in> set (pk_prefs t pk)) pk_list"

text \<open>The cipher algorithm that lines 480-490 put in the DEK of the filter.\<close>

definition filter_algo :: "build \<Rightarrow> options \<Rightarrow> public_key list \<Rightarrow> int" where
  "filter_algo B opt pk_list =
    (if opt_def_cipher_algo opt = 0
     then (if select_algo_from_prefs pk_list PREFTYPE_SYM = - 1 then DEFAULT_CIPHER_ALGO B
           else select_algo_from_prefs pk_list PREFTYPE_SYM)
     else opt_def_cipher_algo opt)"

text \<open>
  The number of key wraps and builds of public-key session-key packets that returned a
  code other than 0: one for each call of write_pubkey_enc_from_list that failed.
\<close>

definition failed_wraps :: "event list \<Rightarrow> nat" where
  "failed_wraps tr = length (filter (\<lambda>c. c \<noteq> 0) (wrap_codes tr))"

section \<open>Concrete inputs\<close>

text \<open>
  A build with the numbers of OpenPGP for 3DES (2) and CAST5 (3), and an environment in
  which every collaborator succeeds unless told otherwise: \<open>pe\<close> gives the code of
  \<open>pubkey_encrypt\<close> from the key's algorithm, \<open>bp\<close> the code of \<open>build_packet\<close>
  from the packet, \<open>wr\<close> the code of \<open>iobuf_write\<close> from the buffer, \<open>pd\<close> the DEK
  that \<open>passphrase_to_dek\<close> derives for an algorithm, \<open>len\<close> the length of the input
  file and \<open>pks\<close> the recipients that \<open>build_pk_list\<close> finds.
\<close>

definition build_ex :: build where
  "build_ex = \<lparr>ENABLE_COMMENT_PACKETS = False, comment_banner = ''#created by GNUPG'',
     IOBUF_FILELENGTH_LIMIT = 4294967295, CIPHER_ALGO_3DES = 2, DEFAULT_CIPHER_ALGO = 3,
     G10ERR_OPEN_FILE = 24, G10ERR_PASSPHRASE = 26, G10ERR_WRITE_FILE = 22, DBG_CIPHER = False\<rparr>"

definition env_ex ::
  "(int \<Rightarrow> int) \<Rightarrow> (PACKET \<Rightarrow> int) \<Rightarrow> (byte list \<Rightarrow> int) \<Rightarrow> (int \<Rightarrow> DEK option) \<Rightarrow> u32
     \<Rightarrow> public_key list \<Rightarrow> env" where
  "env_ex pe bp wr pd len pks =
    \<lparr>is_file_compressed = (\<lambda>f. (False, 0)),
     iobuf_open = (\<lambda>f. True),
     open_outfile = (\<lambda>f a. 0),
     passphrase_to_dek = (\<lambda>a s. (pd a, s)),
     iobuf_get_filelength = (\<lambda>f. len),
     inp_chunks = (\<lambda>f. [[104, 105]]),
     make_basename = (\<lambda>s. s),
     make_timestamp = 0,
     calc_packet_length = (\<lambda>p. 20),
     build_pk_list = (\<lambda>r. (0, pks)),
     is_RSA = (\<lambda>a. a = 1),
     session_key = (\<lambda>tr a. [1, 2, 3, 4]),
     print_pubkey_algo_note = (\<lambda>a. []),
     pubkey_nbits = (\<lambda>a k. 1024),
     encode_session_key = (\<lambda>d n. 42),
     pubkey_encrypt = (\<lambda>tr a frame k. (pe a, [77])),
     build_packet = (\<lambda>tr p. bp p),
     iobuf_write = (\<lambda>tr b. wr b)\<rparr>"

definition opt_ex :: options where
  "opt_ex = \<lparr>opt_compress = 0, opt_rfc1991 = False, opt_verbose = False, opt_textmode = False,
     opt_s2k_mode = 3, opt_def_digest_algo = 0, opt_s2k_digest_algo = 2, opt_def_cipher_algo = 0,
     opt_s2k_cipher_algo = 3, opt_armor = False, opt_comment_string = None, opt_no_literal = False,
     opt_set_filename = None, opt_set_filesize = 0, opt_pgp2 = False, opt_throw_keyid = False\<rparr>"

definition world_ex :: "options \<Rightarrow> world" where
  "world_ex opt = \<lparr>w_opt = opt, trace = [], logs = []\<rparr>"

text \<open>An RSA key of 1024 bits, an ElGamal key (algorithm 16) of 4096 bits.\<close>

definition pk_rsa :: public_key where
  "pk_rsa = \<lparr>pk_pubkey_algo = 1, pk_pkey = [5, 7], pk_keyid = (1, 1), pk_nbits = 1024,
     pk_mdc_feature = True, pk_prefs_sym = [7, 3, 2], pk_prefs_zip = [1]\<rparr>"

definition pk_elg :: public_key where
  "pk_elg = \<lparr>pk_pubkey_algo = 16, pk_pkey = [11, 13, 17], pk_keyid = (2, 2), pk_nbits = 4096,
     pk_mdc_feature = False, pk_prefs_sym = [3, 2], pk_prefs_zip = [2, 1]\<rparr>"

definition dek_ex :: DEK where
  "dek_ex = \<lparr>dek_algo = 3, dek_keylen = 16, dek_key = [], dek_use_mdc = False\<rparr>"


text \<open>A filter context before the first flush.\<close>

definition efx_ex :: "public_key list \<Rightarrow> encrypt_filter_context" where
  "efx_ex pks = \<lparr>efx_pk_list = pks, efx_cfx = \<lparr>cfx_dek = None, cfx_datalen = 0\<rparr>,
     efx_header_okay = False\<rparr>"

section \<open>Basic facts about the blocks\<close>

lemma trace_emit [simp]: "trace (emit ev w) = trace w @ [ev]"
  and w_opt_emit [simp]: "w_opt (emit ev w) = w_opt w"
  and logs_emit [simp]: "logs (emit ev w) = logs w"
  by (simp_all add: emit_def)

lemma trace_log_msg [simp]: "trace (log_msg m w) = trace w"
  and w_opt_log_msg [simp]: "w_opt (log_msg m w) = w_opt w"
  and trace_log_all [simp]: "trace (log_all ms w) = trace w"
  and w_opt_log_all [simp]: "w_opt (log_all ms w) = w_opt w"
  and trace_log_when [simp]: "trace (log_when b m w) = trace w"
  and w_opt_log_when [simp]: "w_opt (log_when b m w) = w_opt w"
  by (simp_all add: log_msg_def log_all_def log_when_def)

lemma wrapped_append [simp]: "wrapped (xs @ ys) = wrapped xs @ wrapped ys"
  and built_append [simp]: "built (xs @ ys) = built xs @ built ys"
  and wrap_codes_append [simp]: "wrap_codes (xs @ ys) = wrap_codes xs @ wrap_codes ys"
  by (simp_all add: wrapped_def built_def wrap_codes_def)

lemma wrapped_Nil [simp]: "wrapped [] = []"
  and built_Nil [simp]: "built [] = []"
  and wrap_codes_Nil [simp]: "wrap_codes [] = []"
  and wrapped_Cons [simp]: "wrapped (e # es) = wrapped_for e @ wrapped es"
  and built_Cons [simp]: "built (e # es) = built_by e @ built es"
  and wrap_codes_Cons [simp]: "wrap_codes (e # es) = wrap_code e @ wrap_codes es"
  by (simp_all add: wrapped_def built_def wrap_codes_def)


lemma write_pubkey_enc_result:
  "w_opt (snd (write_pubkey_enc E pk dek w)) = w_opt w \<and>
    ((fst (write_pubkey_enc E pk dek w) \<noteq> 0 \<and>
      trace (snd (write_pubkey_enc E pk dek w)) =
        trace w @ [EvPubkeyEncrypt pk (fst (write_pubkey_enc E pk dek w)), EvFree R_frame, EvFree R_pubkey_enc]) \<or>
     (\<exists>enc. pubkey_enc_for pk (PKT_PUBKEY_ENC enc) \<and>
        trace (snd (write_pubkey_enc E pk dek w)) =
          trace w @ [EvPubkeyEncrypt pk 0, EvFree R_frame,
                     EvBuildPacket (PKT_PUBKEY_ENC enc) (fst (write_pubkey_enc E pk dek w)), EvFree R_pubkey_enc]))"
  by (simp add: write_pubkey_enc_def Let_def)

lemma write_pubkey_enc_cases:
  "write_pubkey_enc E pk dek w = (rc, w') \<Longrightarrow>
    w_opt w' = w_opt w \<and>
    ((rc \<noteq> 0 \<and> trace w' = trace w @ [EvPubkeyEncrypt pk rc, EvFree R_frame, EvFree R_pubkey_enc]) \<or>
     (\<exists>enc. pubkey_enc_for pk (PKT_PUBKEY_ENC enc) \<and>
        trace w' = trace w @ [EvPubkeyEncrypt pk 0, EvFree R_frame, EvBuildPacket (PKT_PUBKEY_ENC enc) rc, EvFree R_pubkey_enc]))"
  using write_pubkey_enc_result [of E pk dek w] by simp

lemma write_pubkey_enc_events:
  assumes "write_pubkey_enc E pk dek w = (rc, w')"
  shows "\<exists>evs. trace w' = trace w @ evs \<and> w_opt w' = w_opt w \<and> list_all is_wrap_event evs \<and>
           (if rc = 0 then wrap_ok [pk] evs else wrap_failed [pk] rc evs)"
proof -
  from write_pubkey_enc_cases [OF assms] have o: "w_opt w' = w_opt w"
    and c: "(rc \<noteq> 0 \<and> trace w' = trace w @ [EvPubkeyEncrypt pk rc, EvFree R_frame, EvFree R_pubkey_enc]) \<or>
     (\<exists>enc. pubkey_enc_for pk (PKT_PUBKEY_ENC enc) \<and>
        trace w' = trace w @ [EvPubkeyEncrypt pk 0, EvFree R_frame, EvBuildPacket (PKT_PUBKEY_ENC enc) rc, EvFree R_pubkey_enc])"
    by simp_all
  from c show ?thesis
  proof
    assume a: "rc \<noteq> 0 \<and> trace w' = trace w @ [EvPubkeyEncrypt pk rc, EvFree R_frame, EvFree R_pubkey_enc]"
    have "wrap_failed [pk] rc [EvPubkeyEncrypt pk rc, EvFree R_frame, EvFree R_pubkey_enc]"
      unfolding wrap_failed_def by simp
    with a o show ?thesis by auto
  next
    assume "\<exists>enc. pubkey_enc_for pk (PKT_PUBKEY_ENC enc) \<and>
        trace w' = trace w @ [EvPubkeyEncrypt pk 0, EvFree R_frame, EvBuildPacket (PKT_PUBKEY_ENC enc) rc, EvFree R_pubkey_enc]"
    then obtain enc where f: "pubkey_enc_for pk (PKT_PUBKEY_ENC enc)"
      and t: "trace w' = trace w @ [EvPubkeyEncrypt pk 0, EvFree R_frame, EvBuildPacket (PKT_PUBKEY_ENC enc) rc, EvFree R_pubkey_enc]"
      by blast
    let ?evs = "[EvPubkeyEncrypt pk 0, EvFree R_frame, EvBuildPacket (PKT_PUBKEY_ENC enc) rc, EvFree R_pubkey_enc]"
    have ok: "rc = 0 \<Longrightarrow> wrap_ok [pk] ?evs"
      using f unfolding wrap_ok_def by simp
    have "wrap_codes ?evs = [0] @ [rc] \<and> list_all (\<lambda>c. c = 0) [0::int]" by simp
    then have "\<exists>cs. wrap_codes ?evs = cs @ [rc] \<and> list_all (\<lambda>c. c = 0) cs" by (rule exI)
    then have bad: "rc \<noteq> 0 \<Longrightarrow> wrap_failed [pk] rc ?evs"
      unfolding wrap_failed_def by simp
    from t o ok bad show ?thesis by (intro exI [of _ ?evs]) simp
  qed
qed

lemma wrap_ok_Cons:
  "wrap_ok [pk] evs1 \<Longrightarrow> wrap_ok pk_list evs2 \<Longrightarrow> wrap_ok (pk # pk_list) (evs1 @ evs2)"
  unfolding wrap_ok_def by (auto simp: list_all2_Cons1)

lemma wrap_failed_Cons:
  assumes "wrap_ok [pk] evs1" and "wrap_failed pk_list rc evs2"
  shows "wrap_failed (pk # pk_list) rc (evs1 @ evs2)"
proof -
  from assms(1) obtain p where p: "wrapped evs1 = [pk]" "built evs1 = [p]" "pubkey_enc_for pk p"
    "list_all (\<lambda>c. c = 0) (wrap_codes evs1)"
    unfolding wrap_ok_def by (auto simp: list_all2_Cons1)
  from assms(2) obtain n cs where n: "n < length pk_list" "wrapped evs2 = take (Suc n) pk_list"
    "list_all2 pubkey_enc_for (take n pk_list) (built evs2)"
    and k: "wrap_codes evs2 = cs @ [rc]" "list_all (\<lambda>c. c = 0) cs"
    unfolding wrap_failed_def by blast
  have 1: "Suc n < length (pk # pk_list)" using n by simp
  have 2: "wrapped (evs1 @ evs2) = take (Suc (Suc n)) (pk # pk_list)" using p n by simp
  have 3: "list_all2 pubkey_enc_for (take (Suc n) (pk # pk_list)) (built (evs1 @ evs2))"
    using p n by simp
  have 4: "wrap_codes (evs1 @ evs2) = (wrap_codes evs1 @ cs) @ [rc] \<and>
           list_all (\<lambda>c. c = 0) (wrap_codes evs1 @ cs)" using p k by simp
  from 4 have 5: "\<exists>cs. wrap_codes (evs1 @ evs2) = cs @ [rc] \<and> list_all (\<lambda>c. c = 0) cs" by (rule exI)
  from 1 2 3 have "\<exists>m<length (pk # pk_list). wrapped (evs1 @ evs2) = take (Suc m) (pk # pk_list) \<and>
         list_all2 pubkey_enc_for (take m (pk # pk_list)) (built (evs1 @ evs2))"
    by (intro exI [of _ "Suc n"] conjI)
  with 5 show ?thesis unfolding wrap_failed_def by blast
qed

lemma wrap_failed_first:
  "wrap_failed [pk] rc evs \<Longrightarrow> wrap_failed (pk # pk_list) rc evs"
  unfolding wrap_failed_def by auto

lemma wpe_list_events:
  "write_pubkey_enc_from_list E pk_list dek w = (rc, w') \<Longrightarrow>
   \<exists>evs. trace w' = trace w @ evs \<and> w_opt w' = w_opt w \<and> list_all is_wrap_event evs \<and>
     (if rc = 0 then wrap_ok pk_list evs else wrap_failed pk_list rc evs)"
proof (induction pk_list arbitrary: w)
  case Nil
  then show ?case by (simp add: wrap_ok_def)
next
  case (Cons pk pk_list)
  obtain rc1 w1 where one: "write_pubkey_enc E pk dek w = (rc1, w1)"
    by (cases "write_pubkey_enc E pk dek w")
  from write_pubkey_enc_events [OF one] obtain evs1 where
    e1: "trace w1 = trace w @ evs1" "w_opt w1 = w_opt w" "list_all is_wrap_event evs1"
    and r1: "if rc1 = 0 then wrap_ok [pk] evs1 else wrap_failed [pk] rc1 evs1"
    by blast
  show ?case
  proof (cases "rc1 = 0")
    case False
    with Cons.prems one have eq: "rc = rc1" "w' = w1" by simp_all
    from r1 False have "wrap_failed (pk # pk_list) rc1 evs1" by (simp add: wrap_failed_first)
    with e1 eq False show ?thesis by (intro exI [of _ evs1]) simp
  next
    case True
    with Cons.prems one have rest: "write_pubkey_enc_from_list E pk_list dek w1 = (rc, w')" by simp
    from Cons.IH [OF rest] obtain evs2 where
      e2: "trace w' = trace w1 @ evs2" "w_opt w' = w_opt w1" "list_all is_wrap_event evs2"
      and r2: "if rc = 0 then wrap_ok pk_list evs2 else wrap_failed pk_list rc evs2"
      by blast
    from r1 True have ok1: "wrap_ok [pk] evs1" by simp
    have "if rc = 0 then wrap_ok (pk # pk_list) (evs1 @ evs2) else wrap_failed (pk # pk_list) rc (evs1 @ evs2)"
      using r2 ok1 by (simp add: wrap_ok_Cons wrap_failed_Cons)
    with e1 e2 show ?thesis by (intro exI [of _ "evs1 @ evs2"]) simp
  qed
qed


lemma events_of_eq: "trace w' = trace w @ evs \<Longrightarrow> events_of w w' = evs"
  by (simp add: events_of_def)

lemma stream_ops_simps [simp]:
  "stream_ops s [] = []" "stream_ops s (e # es) = (if stream_op s e then e # stream_ops s es else stream_ops s es)"
  "stream_ops s (xs @ ys) = stream_ops s xs @ stream_ops s ys"
  by (simp_all add: stream_ops_def)

lemma concat_map_none:
  "list_all P evs \<Longrightarrow> (\<And>e. P e \<Longrightarrow> f e = []) \<Longrightarrow> concat (map f evs) = []"
  by (induction evs) simp_all

lemma filter_none:
  "list_all P evs \<Longrightarrow> (\<And>e. P e \<Longrightarrow> \<not> Q e) \<Longrightarrow> filter Q evs = []"
  by (induction evs) simp_all

lemma wrap_event_cases:
  "is_wrap_event e \<Longrightarrow>
     (\<exists>pk rc. e = EvPubkeyEncrypt pk rc) \<or> (\<exists>enc rc. e = EvBuildPacket (PKT_PUBKEY_ENC enc) rc) \<or>
     e = EvFree R_frame \<or> e = EvFree R_pubkey_enc"
  by (cases e rule: is_wrap_event.cases) simp_all

lemma write_event_cases: "is_write_event e \<Longrightarrow> \<exists>buf r. e = EvWrite buf r"
  by (cases e) simp_all

lemma compress_push_cases: "is_compress_push e \<Longrightarrow> \<exists>a. e = EvPushFilter Out (compress_filter a)"
  by (cases e rule: is_compress_push.cases) simp_all

lemma wrap_events_ops [simp]: "list_all is_wrap_event evs \<Longrightarrow> stream_ops s evs = []"
  unfolding stream_ops_def by (erule filter_none) (auto dest: wrap_event_cases)

lemma write_events_ops [simp]: "list_all is_write_event evs \<Longrightarrow> stream_ops s evs = []"
  unfolding stream_ops_def by (erule filter_none) (auto dest: write_event_cases)

lemma compress_push_ops [simp]: "list_all is_compress_push evs \<Longrightarrow> stream_ops s evs = []"
  unfolding stream_ops_def by (erule filter_none) (auto dest: compress_push_cases)

lemma write_events_wrap [simp]: "list_all is_write_event evs \<Longrightarrow> wrap_codes evs = []"
  unfolding wrap_codes_def by (erule concat_map_none) (auto dest: write_event_cases)

lemma compress_push_wrap [simp]: "list_all is_compress_push evs \<Longrightarrow> wrap_codes evs = []"
  unfolding wrap_codes_def by (erule concat_map_none) (auto dest: compress_push_cases)

lemma armor_events_ops [simp]: "stream_ops s (armor_events B opt) = []"
  and armor_events_wrap [simp]: "wrap_codes (armor_events B opt) = []"
  by (simp_all add: armor_events_def split: option.splits)

lemma open_events_ops [simp]: "stream_ops Out (open_events opt) = []"
  "stream_ops Inp (open_events opt) = [EvOpen Inp]"
  and open_events_wrap [simp]: "wrap_codes (open_events opt) = []"
  by (simp_all add: open_events_def)

lemma leave_events_ops [simp]:
  "stream_ops Out (leave_events rc inp out pkt dek) =
     (if out then [if rc \<noteq> 0 then EvCancel Out else EvClose Out] else [])"
  "stream_ops Inp (leave_events rc inp out pkt dek) = (if inp then [EvClose Inp] else [])"
  and leave_events_wrap [simp]: "wrap_codes (leave_events rc inp out pkt dek) = []"
  by (simp_all add: leave_events_def)

lemma write_codes_simps [simp]:
  "write_codes [] = []" "write_codes (e # es) = write_code e @ write_codes es"
  "write_codes (xs @ ys) = write_codes xs @ write_codes ys"
  by (simp_all add: write_codes_def)

lemma push_armor_trace: "trace (push_armor B w) = trace w @ armor_events B (w_opt w)"
  and push_armor_opt [simp]: "w_opt (push_armor B w) = w_opt w"
  by (simp_all add: push_armor_def armor_events_def Let_def split: option.splits)

lemma create_session_key_trace:
  "trace (snd (create_session_key B E pk_list w)) =
     trace w @ [EvMakeSessionKey (fst (create_session_key B E pk_list w))]"
  by (simp add: create_session_key_def Let_def)

lemma create_session_key_opt:
  "w_opt (snd (create_session_key B E pk_list w)) =
     (w_opt w)\<lparr>opt_pgp2 := opt_pgp2 (w_opt (snd (create_session_key B E pk_list w)))\<rparr>"
  by (simp add: create_session_key_def Let_def)

lemma get_filesize_trace [simp]: "trace (snd (get_filesize B E filename w)) = trace w"
  and get_filesize_opt [simp]: "w_opt (snd (get_filesize B E filename w)) = w_opt w"
  by (simp_all add: get_filesize_def Let_def)

lemma get_filesize_pgp2:
  "w_opt v = (w_opt w)\<lparr>opt_pgp2 := b\<rparr> \<Longrightarrow>
   fst (get_filesize B E filename v) = fst (get_filesize B E filename w)"
  by (simp add: get_filesize_def Let_def)

lemma setup_plaintext_pgp2 [simp]:
  "setup_plaintext E (opt\<lparr>opt_pgp2 := b\<rparr>) filename filesize dc pkt =
   setup_plaintext E opt filename filesize dc pkt"
  by (simp add: setup_plaintext_def plaintext_name_def Let_def)

lemma push_compress_events:
  "\<exists>cz. trace (push_compress pk_list dc w) = trace w @ cz \<and> list_all is_compress_push cz"
  and push_compress_opt [simp]: "w_opt (push_compress pk_list dc w) = w_opt w"
  by (simp_all add: push_compress_def Let_def)

lemma encode_crypt_leave_fst [simp]: "fst (encode_crypt_leave rc inp out pkt dek w) = rc"
  by (simp add: encode_crypt_leave_def Let_def)

lemma encode_crypt_leave_trace:
  "trace (snd (encode_crypt_leave rc inp out pkt dek w)) = trace w @ leave_events rc inp out pkt dek"
  and encode_crypt_leave_opt [simp]: "w_opt (snd (encode_crypt_leave rc inp out pkt dek w)) = w_opt w"
  by (simp_all add: encode_crypt_leave_def leave_events_def Let_def iobuf_close_def iobuf_cancel_def m_free_def)

lemma copy_loop_events:
  "copy_loop B E chunks rc w = (rc', w') \<Longrightarrow>
   \<exists>evs. trace w' = trace w @ evs \<and> w_opt w' = w_opt w \<and> list_all is_write_event evs \<and>
     (if - 1 \<in> set (write_codes evs) then rc' = G10ERR_WRITE_FILE B else rc' = rc)"
proof (induction chunks arbitrary: w)
  case Nil
  then show ?case by simp
next
  case (Cons buf chunks)
  let ?r = "iobuf_write E (trace w) buf"
  show ?case
  proof (cases "?r = - 1")
    case True
    with Cons.prems have "rc' = G10ERR_WRITE_FILE B" "trace w' = trace w @ [EvWrite buf (- 1)]"
      "w_opt w' = w_opt w"
      by (auto simp: Let_def)
    then show ?thesis by simp
  next
    case False
    with Cons.prems have "copy_loop B E chunks rc (emit (EvWrite buf ?r) w) = (rc', w')"
      by (simp add: Let_def)
    from Cons.IH [OF this] obtain evs where
      e: "trace w' = trace w @ EvWrite buf ?r # evs" "w_opt w' = w_opt w" "list_all is_write_event evs"
      "if - 1 \<in> set (write_codes evs) then rc' = G10ERR_WRITE_FILE B else rc' = rc"
      by auto
    with False show ?thesis
      by (intro exI [of _ "EvWrite buf ?r # evs"]) auto
  qed
qed

lemma do_the_work_events:
  assumes "do_the_work B E filename pkt rc w = (rc', w')"
  shows "w_opt w' = w_opt w \<and>
    (\<exists>evs. trace w' = trace w @ evs \<and> is_work B (opt_no_literal (w_opt w)) pkt rc rc' evs)"
proof (cases "opt_no_literal (w_opt w)")
  case True
  with assms have "copy_loop B E (inp_chunks E filename) rc w = (rc', w')"
    by (simp add: do_the_work_def)
  from copy_loop_events [OF this] obtain evs where "trace w' = trace w @ evs" "w_opt w' = w_opt w"
    "list_all is_write_event evs"
    "if - 1 \<in> set (write_codes evs) then rc' = G10ERR_WRITE_FILE B else rc' = rc"
    by blast
  with True have "w_opt w' = w_opt w"
    and "trace w' = trace w @ evs \<and> is_work B (opt_no_literal (w_opt w)) pkt rc rc' evs"
    by (simp_all add: is_work_def)
  then show ?thesis by blast
next
  case False
  with assms have "rc' = build_packet E (trace w) pkt" "trace w' = trace w @ [EvBuildPacket pkt rc']"
    "w_opt w' = w_opt w"
    by (auto simp: do_the_work_def Let_def)
  with False show ?thesis by (simp add: is_work_def)
qed


lemma log_ext_refl [simp]: "log_ext w w"
  and log_ext_emit [simp]: "log_ext w (emit ev v) = log_ext w v"
  and log_ext_log_msg: "log_ext w v \<Longrightarrow> log_ext w (log_msg m v)"
  and log_ext_log_all: "log_ext w v \<Longrightarrow> log_ext w (log_all ms v)"
  and log_ext_log_when: "log_ext w v \<Longrightarrow> log_ext w (log_when b m v)"
  by (auto simp: log_ext_def emit_def log_msg_def log_all_def log_when_def)

lemma log_ext_trans: "log_ext w v \<Longrightarrow> log_ext v u \<Longrightarrow> log_ext w u"
  by (auto simp: log_ext_def)

lemma log_ext_opt [simp]: "log_ext w (v\<lparr>w_opt := opt\<rparr>) = log_ext w v"
  by (simp add: log_ext_def)

lemmas log_ext_intros = log_ext_log_msg log_ext_log_all log_ext_log_when

lemma write_pubkey_enc_log: "log_ext w (snd (write_pubkey_enc E pk dek w))"
  by (simp add: write_pubkey_enc_def Let_def log_ext_intros)

lemma wpe_list_log: "log_ext w (snd (write_pubkey_enc_from_list E pk_list dek w))"
proof (induction pk_list arbitrary: w)
  case Nil
  show ?case by simp
next
  case (Cons pk pk_list)
  obtain rc1 w1 where one: "write_pubkey_enc E pk dek w = (rc1, w1)"
    by (cases "write_pubkey_enc E pk dek w")
  with write_pubkey_enc_log [of w E pk dek] have 1: "log_ext w w1" by simp
  show ?case using one 1 log_ext_trans [OF 1 Cons.IH [of w1]] by simp
qed

lemma copy_loop_log: "log_ext w (snd (copy_loop B E chunks rc w))"
proof (induction chunks arbitrary: w)
  case Nil
  show ?case by simp
next
  case (Cons buf chunks)
  have 1: "log_ext w (emit (EvWrite buf (iobuf_write E (trace w) buf)) w)" by simp
  show ?case using log_ext_trans [OF 1 Cons.IH [of "emit (EvWrite buf (iobuf_write E (trace w) buf)) w"]]
    by (simp add: Let_def log_ext_intros)
qed

lemma do_the_work_log: "log_ext w (snd (do_the_work B E filename pkt rc w))"
  by (simp add: do_the_work_def Let_def log_ext_intros copy_loop_log)

lemma push_armor_log: "log_ext w (push_armor B w)"
  by (simp add: push_armor_def Let_def split: option.splits)

lemma create_session_key_log: "log_ext w (snd (create_session_key B E pk_list w))"
  by (simp add: create_session_key_def Let_def log_ext_intros)

lemma get_filesize_log: "log_ext w (snd (get_filesize B E filename w))"
  by (simp add: get_filesize_def Let_def log_ext_intros)

lemma push_compress_log: "log_ext w (push_compress pk_list dc w)"
  by (simp add: push_compress_def Let_def)

lemma encode_crypt_leave_log: "log_ext w (snd (encode_crypt_leave rc inp out pkt dek w))"
  by (simp add: encode_crypt_leave_def Let_def iobuf_close_def iobuf_cancel_def m_free_def)

lemma encode_crypt_out_log: "log_ext w (snd (encode_crypt_out B E filename pk_list dc w))"
  unfolding encode_crypt_out_def Let_def split_beta
  apply (simp only: if_distrib [of snd] if_distrib [of "log_ext w"] split: if_split)
  apply (intro conjI impI)
   apply (rule log_ext_trans [OF push_armor_log], rule log_ext_trans [OF create_session_key_log],
      rule log_ext_trans [OF wpe_list_log], rule encode_crypt_leave_log)
  apply (rule log_ext_trans [OF push_armor_log], rule log_ext_trans [OF create_session_key_log],
      rule log_ext_trans [OF wpe_list_log], rule log_ext_trans [OF get_filesize_log])
  apply (rule log_ext_trans [OF _ encode_crypt_leave_log])
  apply (rule log_ext_trans [OF _ do_the_work_log])
  apply (rule log_ext_trans [OF _ push_compress_log])
  apply (simp only: log_ext_emit)
  apply (rule log_ext_refl)
  done

lemma create_session_key_dek:
  "is_crypt_dek B (w_opt w) pk_list (fst (create_session_key B E pk_list w))"
  by (simp add: create_session_key_def is_crypt_dek_def crypt_algo_def make_session_key_def Let_def)

lemma encode_crypt_out_run:
  assumes run: "encode_crypt_out B E filename pk_list dc w = (rc, w')"
  shows "\<exists>dek wr. list_all is_wrap_event wr \<and>
    dek = fst (create_session_key B E pk_list (push_armor B w)) \<and>
    w_opt w' = (w_opt w)\<lparr>opt_pgp2 := opt_pgp2 (w_opt w')\<rparr> \<and>
    ((rc \<noteq> 0 \<and> wrap_failed pk_list rc wr \<and>
      trace w' = trace w @ armor_events B (w_opt w) @ EvMakeSessionKey dek # wr @
                 leave_events rc True True PKT_NONE True) \<or>
     (wrap_ok pk_list wr \<and>
      (\<exists>cz wk. list_all is_compress_push cz \<and>
         is_work B (opt_no_literal (w_opt w))
           (fst (setup_plaintext E (w_opt w) filename (fst (get_filesize B E filename w)) dc PKT_NONE)) 0 rc wk \<and>
         trace w' = trace w @ armor_events B (w_opt w) @ EvMakeSessionKey dek # wr @
           EvPushFilter Out (cipher_filter \<lparr>cfx_dek = Some dek,
              cfx_datalen = snd (setup_plaintext E (w_opt w) filename (fst (get_filesize B E filename w)) dc PKT_NONE)\<rparr>) #
           cz @ wk @
           leave_events rc True True
             (fst (setup_plaintext E (w_opt w) filename (fst (get_filesize B E filename w)) dc PKT_NONE)) True)))"
proof -
  define w1 where "w1 = push_armor B w"
  define dek where "dek = fst (create_session_key B E pk_list w1)"
  define w2 where "w2 = snd (create_session_key B E pk_list w1)"
  obtain rc1 w3 where wpe: "write_pubkey_enc_from_list E pk_list dek w2 = (rc1, w3)"
    by (cases "write_pubkey_enc_from_list E pk_list dek w2")
  have csk: "create_session_key B E pk_list w1 = (dek, w2)" by (simp add: dek_def w2_def)
  have t2: "trace w2 = trace w @ armor_events B (w_opt w) @ [EvMakeSessionKey dek]"
    by (simp add: w2_def dek_def w1_def create_session_key_trace push_armor_trace)
  have o2: "w_opt w2 = (w_opt w)\<lparr>opt_pgp2 := opt_pgp2 (w_opt w2)\<rparr>"
    using create_session_key_opt [of B E pk_list w1] by (simp add: w2_def w1_def)
  from wpe_list_events [OF wpe] obtain wr where
    t3: "trace w3 = trace w2 @ wr" and o3: "w_opt w3 = w_opt w2" and cl: "list_all is_wrap_event wr"
    and r: "if rc1 = 0 then wrap_ok pk_list wr else wrap_failed pk_list rc1 wr"
    by blast
  show ?thesis
  proof (cases "rc1 = 0")
    case False
    with run csk wpe have res: "encode_crypt_leave rc1 True True PKT_NONE True w3 = (rc, w')"
      by (simp add: encode_crypt_out_def w1_def)
    then have "rc = rc1" using encode_crypt_leave_fst [of rc1 True True PKT_NONE True w3] by simp
    moreover from res have "trace w' = trace w3 @ leave_events rc1 True True PKT_NONE True"
      and "w_opt w' = w_opt w3"
      using encode_crypt_leave_trace [of rc1 True True PKT_NONE True w3]
        encode_crypt_leave_opt [of rc1 True True PKT_NONE True w3] by simp_all
    ultimately show ?thesis using False r t2 t3 o2 o3 cl
      by (intro exI [of _ dek] exI [of _ wr]) (simp add: dek_def w1_def)
  next
    case True
    define fs where "fs = fst (get_filesize B E filename w3)"
    define w4 where "w4 = snd (get_filesize B E filename w3)"
    define pkt where "pkt = fst (setup_plaintext E (w_opt w4) filename fs dc PKT_NONE)"
    define datalen where "datalen = snd (setup_plaintext E (w_opt w4) filename fs dc PKT_NONE)"
    define w6 where "w6 = push_compress pk_list dc
       (emit (EvPushFilter Out (cipher_filter \<lparr>cfx_dek = Some dek, cfx_datalen = datalen\<rparr>)) w4)"
    obtain rc2 w7 where work: "do_the_work B E filename pkt rc1 w6 = (rc2, w7)"
      by (cases "do_the_work B E filename pkt rc1 w6")
    have o4: "w_opt w4 = (w_opt w)\<lparr>opt_pgp2 := opt_pgp2 (w_opt w2)\<rparr>"
      using o2 o3 by (simp add: w4_def)
    have fs: "fs = fst (get_filesize B E filename w)"
      unfolding fs_def using o2 o3 get_filesize_pgp2 [where v = w3 and w = w and b = "opt_pgp2 (w_opt w2)"]
      by simp
    have pkt: "pkt = fst (setup_plaintext E (w_opt w) filename (fst (get_filesize B E filename w)) dc PKT_NONE)"
      and dl: "datalen = snd (setup_plaintext E (w_opt w) filename (fst (get_filesize B E filename w)) dc PKT_NONE)"
      unfolding pkt_def datalen_def using o4 fs setup_plaintext_pgp2 [where opt = "w_opt w" and b = "opt_pgp2 (w_opt w2)"]
      by simp_all
    from push_compress_events [of pk_list dc
       "emit (EvPushFilter Out (cipher_filter \<lparr>cfx_dek = Some dek, cfx_datalen = datalen\<rparr>)) w4"]
    obtain cz where t6: "trace w6 = trace w3 @
         EvPushFilter Out (cipher_filter \<lparr>cfx_dek = Some dek, cfx_datalen = datalen\<rparr>) # cz"
      and cz: "list_all is_compress_push cz"
      by (auto simp: w6_def w4_def)
    have o6: "w_opt w6 = w_opt w4" by (simp add: w6_def)
    from do_the_work_events [OF work] obtain wk where
      t7: "trace w7 = trace w6 @ wk" and o7: "w_opt w7 = w_opt w6"
      and wk: "is_work B (opt_no_literal (w_opt w6)) pkt rc1 rc2 wk"
      by blast
    from run csk wpe True work
    have res: "encode_crypt_leave rc2 True True pkt True w7 = (rc, w')"
      by (simp add: encode_crypt_out_def w1_def Let_def split_beta fs_def w4_def pkt_def datalen_def w6_def)
    then have rc: "rc = rc2" using encode_crypt_leave_fst [of rc2 True True pkt True w7] by simp
    from res have t': "trace w' = trace w7 @ leave_events rc2 True True pkt True"
      and o': "w_opt w' = w_opt w7"
      using encode_crypt_leave_trace [of rc2 True True pkt True w7]
        encode_crypt_leave_opt [of rc2 True True pkt True w7] by simp_all
    have nl: "opt_no_literal (w_opt w6) = opt_no_literal (w_opt w)" using o6 o4 by simp
    have ok: "wrap_ok pk_list wr" using r True by simp
    have tr: "trace w' = trace w @ armor_events B (w_opt w) @ EvMakeSessionKey dek # wr @
           EvPushFilter Out (cipher_filter \<lparr>cfx_dek = Some dek, cfx_datalen = datalen\<rparr>) #
           cz @ wk @ leave_events rc True True pkt True"
      using t' t7 t6 t3 t2 rc by simp
    have op: "w_opt w' = (w_opt w)\<lparr>opt_pgp2 := opt_pgp2 (w_opt w')\<rparr>"
      using o' o7 o6 o4 by simp
    have wk': "is_work B (opt_no_literal (w_opt w)) pkt 0 rc wk" using wk nl True rc by simp
    show ?thesis
      apply (rule exI [of _ dek], rule exI [of _ wr])
      apply (intro conjI cl op disjI2 ok)
       apply (simp add: dek_def w1_def)
      apply (rule exI [of _ cz], rule exI [of _ wk])
      using cz wk' tr pkt dl apply simp
      done
  qed
qed


lemma create_session_key_pgp2:
  "opt_pgp2 (w_opt (snd (create_session_key B E pk_list w))) \<Longrightarrow> opt_pgp2 (w_opt w)"
  by (simp add: create_session_key_def Let_def split: if_splits)

lemma wpe_list_opt [simp]:
  "w_opt (snd (write_pubkey_enc_from_list E pk_list dek w)) = w_opt w"
  using wpe_list_events [of E pk_list dek w "fst (write_pubkey_enc_from_list E pk_list dek w)"
          "snd (write_pubkey_enc_from_list E pk_list dek w)"]
  by auto

lemma do_the_work_opt [simp]:
  "w_opt (snd (do_the_work B E filename pkt rc w)) = w_opt w"
  using do_the_work_events [of B E filename pkt rc w "fst (do_the_work B E filename pkt rc w)"
          "snd (do_the_work B E filename pkt rc w)"]
  by simp

lemma encode_crypt_out_pgp2:
  "opt_pgp2 (w_opt (snd (encode_crypt_out B E filename pk_list dc w))) \<Longrightarrow> opt_pgp2 (w_opt w)"
  using create_session_key_pgp2 [of B E pk_list "push_armor B w"]
  by (simp add: encode_crypt_out_def Let_def split_beta split: if_splits)

lemma encode_crypt_out_body:
  assumes run: "encode_crypt_out B E filename pk_list dc w = (rc, w')"
  shows "\<exists>evs. trace w' = trace w @ evs \<and>
     crypt_body B (w_opt w) pk_list (fst (literal_of B E w filename dc PKT_NONE))
       (snd (literal_of B E w filename dc PKT_NONE)) rc evs"
proof -
  from encode_crypt_out_run [OF run] obtain dek wr where
    cl: "list_all is_wrap_event wr" and dek: "dek = fst (create_session_key B E pk_list (push_armor B w))"
    and c: "(rc \<noteq> 0 \<and> wrap_failed pk_list rc wr \<and>
      trace w' = trace w @ armor_events B (w_opt w) @ EvMakeSessionKey dek # wr @
                 leave_events rc True True PKT_NONE True) \<or>
     (wrap_ok pk_list wr \<and>
      (\<exists>cz wk. list_all is_compress_push cz \<and>
         is_work B (opt_no_literal (w_opt w))
           (fst (setup_plaintext E (w_opt w) filename (fst (get_filesize B E filename w)) dc PKT_NONE)) 0 rc wk \<and>
         trace w' = trace w @ armor_events B (w_opt w) @ EvMakeSessionKey dek # wr @
           EvPushFilter Out (cipher_filter \<lparr>cfx_dek = Some dek,
              cfx_datalen = snd (setup_plaintext E (w_opt w) filename (fst (get_filesize B E filename w)) dc PKT_NONE)\<rparr>) #
           cz @ wk @
           leave_events rc True True
             (fst (setup_plaintext E (w_opt w) filename (fst (get_filesize B E filename w)) dc PKT_NONE)) True))"
    by blast
  have d: "is_crypt_dek B (w_opt w) pk_list dek"
    using create_session_key_dek [of B "push_armor B w" pk_list E] dek by simp
  from c show ?thesis
  proof
    assume a: "rc \<noteq> 0 \<and> wrap_failed pk_list rc wr \<and>
      trace w' = trace w @ armor_events B (w_opt w) @ EvMakeSessionKey dek # wr @
                 leave_events rc True True PKT_NONE True"
    then have "crypt_body B (w_opt w) pk_list (fst (literal_of B E w filename dc PKT_NONE))
       (snd (literal_of B E w filename dc PKT_NONE)) rc
       (armor_events B (w_opt w) @ EvMakeSessionKey dek # wr @ leave_events rc True True PKT_NONE True)"
      unfolding crypt_body_def using cl d by blast
    with a show ?thesis by blast
  next
    assume "wrap_ok pk_list wr \<and>
      (\<exists>cz wk. list_all is_compress_push cz \<and>
         is_work B (opt_no_literal (w_opt w))
           (fst (setup_plaintext E (w_opt w) filename (fst (get_filesize B E filename w)) dc PKT_NONE)) 0 rc wk \<and>
         trace w' = trace w @ armor_events B (w_opt w) @ EvMakeSessionKey dek # wr @
           EvPushFilter Out (cipher_filter \<lparr>cfx_dek = Some dek,
              cfx_datalen = snd (setup_plaintext E (w_opt w) filename (fst (get_filesize B E filename w)) dc PKT_NONE)\<rparr>) #
           cz @ wk @
           leave_events rc True True
             (fst (setup_plaintext E (w_opt w) filename (fst (get_filesize B E filename w)) dc PKT_NONE)) True)"
    then obtain cz wk where ok: "wrap_ok pk_list wr" and cz: "list_all is_compress_push cz"
      and wk: "is_work B (opt_no_literal (w_opt w)) (fst (literal_of B E w filename dc PKT_NONE)) 0 rc wk"
      and tr: "trace w' = trace w @ armor_events B (w_opt w) @ EvMakeSessionKey dek # wr @
           EvPushFilter Out (cipher_filter \<lparr>cfx_dek = Some dek,
              cfx_datalen = snd (literal_of B E w filename dc PKT_NONE)\<rparr>) #
           cz @ wk @ leave_events rc True True (fst (literal_of B E w filename dc PKT_NONE)) True"
      unfolding literal_of_def by blast
    have "crypt_body B (w_opt w) pk_list (fst (literal_of B E w filename dc PKT_NONE))
       (snd (literal_of B E w filename dc PKT_NONE)) rc
       (armor_events B (w_opt w) @ EvMakeSessionKey dek # wr @
           EvPushFilter Out (cipher_filter \<lparr>cfx_dek = Some dek,
              cfx_datalen = snd (literal_of B E w filename dc PKT_NONE)\<rparr>) #
           cz @ wk @ leave_events rc True True (fst (literal_of B E w filename dc PKT_NONE)) True)"
      unfolding crypt_body_def using cl d ok cz wk by blast
    with tr show ?thesis by blast
  qed
qed

lemma pgp2_check_list_facts:
  "trace (pgp2_check_list E pk_list w) = trace w \<and>
   w_opt (pgp2_check_list E pk_list w) = (w_opt w)\<lparr>opt_pgp2 := opt_pgp2 (w_opt (pgp2_check_list E pk_list w))\<rparr> \<and>
   (opt_pgp2 (w_opt (pgp2_check_list E pk_list w)) \<longrightarrow> opt_pgp2 (w_opt w)) \<and>
   log_ext w (pgp2_check_list E pk_list w)"
  by (induction pk_list) (simp_all add: log_ext_intros)

lemma pgp2_check_facts:
  "trace (pgp2_check E pk_list w) = trace w"
  "w_opt (pgp2_check E pk_list w) = (w_opt w)\<lparr>opt_pgp2 := opt_pgp2 (w_opt (pgp2_check E pk_list w))\<rparr>"
  "opt_pgp2 (w_opt (pgp2_check E pk_list w)) \<Longrightarrow> opt_pgp2 (w_opt w)"
  "log_ext w (pgp2_check E pk_list w)"
  using pgp2_check_list_facts [of E pk_list w] by (simp_all add: pgp2_check_def split: if_splits)

lemma armor_events_pgp2 [simp]: "armor_events B (opt\<lparr>opt_pgp2 := b\<rparr>) = armor_events B opt"
  and open_events_pgp2 [simp]: "open_events (opt\<lparr>opt_pgp2 := b\<rparr>) = open_events opt"
  and crypt_algo_pgp2 [simp]: "crypt_algo B (opt\<lparr>opt_pgp2 := b\<rparr>) pk_list = crypt_algo B opt pk_list"
  and do_compress_of_pgp2 [simp]: "do_compress_of E (opt\<lparr>opt_pgp2 := b\<rparr>) filename = do_compress_of E opt filename"
  by (simp_all add: armor_events_def open_events_def crypt_algo_def do_compress_of_def)

lemma crypt_body_pgp2 [simp]:
  "crypt_body B (opt\<lparr>opt_pgp2 := b\<rparr>) pk_list pkt datalen rc evs = crypt_body B opt pk_list pkt datalen rc evs"
  by (simp add: crypt_body_def is_crypt_dek_def)

lemma literal_of_pgp2:
  "w_opt v = (w_opt w)\<lparr>opt_pgp2 := b\<rparr> \<Longrightarrow> literal_of B E v filename dc pkt = literal_of B E w filename dc pkt"
  using get_filesize_pgp2 [where v = v and w = w and b = b and B = B and E = E and filename = filename]
  by (simp add: literal_of_def)


lemma encode_crypt_open_run:
  assumes run: "encode_crypt_open B E filename pk_list w = (rc, w')"
  shows "\<exists>evs. trace w' = trace w @ evs \<and>
    ((snd (is_file_compressed E filename) \<noteq> 0 \<and> rc = snd (is_file_compressed E filename) \<and>
       evs = leave_events rc False False PKT_NONE False) \<or>
    (snd (is_file_compressed E filename) = 0 \<and>
       \<not> iobuf_open E filename \<and> rc = G10ERR_OPEN_FILE B \<and>
       evs = leave_events rc False False PKT_NONE False) \<or>
    (snd (is_file_compressed E filename) = 0 \<and> iobuf_open E filename \<and>
       open_outfile E filename (if opt_armor (w_opt w) then 1 else 0) \<noteq> 0 \<and>
       rc = open_outfile E filename (if opt_armor (w_opt w) then 1 else 0) \<and>
       evs = open_events (w_opt w) @ leave_events rc True False PKT_NONE False) \<or>
    (snd (is_file_compressed E filename) = 0 \<and> iobuf_open E filename \<and>
       open_outfile E filename (if opt_armor (w_opt w) then 1 else 0) = 0 \<and>
       (\<exists>body. evs = open_events (w_opt w) @ EvOpen Out # body \<and>
          crypt_body B (w_opt w) pk_list
            (fst (literal_of B E w filename (do_compress_of E (w_opt w) filename) PKT_NONE))
            (snd (literal_of B E w filename (do_compress_of E (w_opt w) filename) PKT_NONE))
            rc body)))"
proof -
  define w1 where "w1 = log_when (fst (is_file_compressed E filename) \<and> opt_verbose (w_opt w))
     (LogInfo ''already compressed'') w"
  have w1: "trace w1 = trace w" "w_opt w1 = w_opt w" by (simp_all add: w1_def)
  consider (probe) "snd (is_file_compressed E filename) \<noteq> 0"
    | (inp) "snd (is_file_compressed E filename) = 0" "\<not> iobuf_open E filename"
    | (out) "snd (is_file_compressed E filename) = 0" "iobuf_open E filename"
        "open_outfile E filename (if opt_armor (w_opt w) then 1 else 0) \<noteq> 0"
    | (body) "snd (is_file_compressed E filename) = 0" "iobuf_open E filename"
        "open_outfile E filename (if opt_armor (w_opt w) then 1 else 0) = 0"
    by blast
  then show ?thesis
  proof cases
    case probe
    with run have r: "encode_crypt_leave (snd (is_file_compressed E filename)) False False PKT_NONE False w1 = (rc, w')"
      by (simp add: encode_crypt_open_def Let_def w1_def)
    from r have "rc = snd (is_file_compressed E filename)"
      using encode_crypt_leave_fst [of "snd (is_file_compressed E filename)" False False PKT_NONE False w1]
      by simp
    moreover from r have "trace w' = trace w @ leave_events (snd (is_file_compressed E filename)) False False PKT_NONE False"
      using encode_crypt_leave_trace [of "snd (is_file_compressed E filename)" False False PKT_NONE False w1] w1
      by simp
    ultimately show ?thesis using probe by simp
  next
    case inp
    with run have r: "encode_crypt_leave (G10ERR_OPEN_FILE B) False False PKT_NONE False
        (log_msg (LogError ''can't open'') w1) = (rc, w')"
      by (simp add: encode_crypt_open_def Let_def w1_def)
    from r have "rc = G10ERR_OPEN_FILE B"
      using encode_crypt_leave_fst [of "G10ERR_OPEN_FILE B" False False PKT_NONE False "log_msg (LogError ''can't open'') w1"]
      by simp
    moreover from r have "trace w' = trace w @ leave_events (G10ERR_OPEN_FILE B) False False PKT_NONE False"
      using encode_crypt_leave_trace [of "G10ERR_OPEN_FILE B" False False PKT_NONE False "log_msg (LogError ''can't open'') w1"] w1
      by simp
    ultimately show ?thesis using inp by simp
  next
    case out
    define w3 where "w3 = (if opt_textmode (w_opt w) then emit (EvPushFilter Inp text_filter)
        (log_when (opt_verbose (w_opt w)) (LogInfo ''reading from'') (emit (EvOpen Inp) w1))
      else log_when (opt_verbose (w_opt w)) (LogInfo ''reading from'') (emit (EvOpen Inp) w1))"
    have w3: "trace w3 = trace w @ open_events (w_opt w)"
      by (simp add: w3_def open_events_def w1)
    let ?rc = "open_outfile E filename (if opt_armor (w_opt w) then 1 else 0)"
    from out run have r: "encode_crypt_leave ?rc True False PKT_NONE False w3 = (rc, w')"
      by (auto simp: encode_crypt_open_def Let_def w1_def w3_def split: if_splits)
    from r have "rc = ?rc"
      using encode_crypt_leave_fst [of ?rc True False PKT_NONE False w3] by simp
    moreover from r have "trace w' = trace w @ open_events (w_opt w) @ leave_events ?rc True False PKT_NONE False"
      using encode_crypt_leave_trace [of ?rc True False PKT_NONE False w3] w3 by simp
    ultimately show ?thesis using out by simp
  next
    case body
    define w3 where "w3 = (if opt_textmode (w_opt w) then emit (EvPushFilter Inp text_filter)
        (log_when (opt_verbose (w_opt w)) (LogInfo ''reading from'') (emit (EvOpen Inp) w1))
      else log_when (opt_verbose (w_opt w)) (LogInfo ''reading from'') (emit (EvOpen Inp) w1))"
    have w3: "trace w3 = trace w @ open_events (w_opt w)" "w_opt w3 = w_opt w"
      by (simp_all add: w3_def open_events_def w1)
    from body run have r: "encode_crypt_out B E filename pk_list (do_compress_of E (w_opt w) filename)
        (emit (EvOpen Out) w3) = (rc, w')"
      by (auto simp: encode_crypt_open_def Let_def w1_def w3_def do_compress_of_def split: if_splits)
    have lit: "literal_of B E (emit (EvOpen Out) w3) filename (do_compress_of E (w_opt w) filename) PKT_NONE
        = literal_of B E w filename (do_compress_of E (w_opt w) filename) PKT_NONE"
      using w3 by (simp add: literal_of_def get_filesize_def Let_def)
    from encode_crypt_out_body [OF r] obtain evs where
      "trace w' = trace w @ open_events (w_opt w) @ EvOpen Out # evs"
      "crypt_body B (w_opt w) pk_list
            (fst (literal_of B E w filename (do_compress_of E (w_opt w) filename) PKT_NONE))
            (snd (literal_of B E w filename (do_compress_of E (w_opt w) filename) PKT_NONE))
            rc evs"
      using w3 lit by auto
    with body show ?thesis by simp
  qed
qed

lemma encode_crypt_run:
  assumes run: "encode_crypt B E filename remusr w = (rc, w')"
  shows "\<exists>evs. trace w' = trace w @ evs \<and> crypt_events B E filename remusr w rc evs"
proof (cases "fst (build_pk_list E remusr) = 0")
  case False
  with run have "rc = fst (build_pk_list E remusr)" "w' = w"
    by (simp_all add: encode_crypt_def Let_def)
  with False show ?thesis by (simp add: crypt_events_def)
next
  case True
  define pk_list where "pk_list = snd (build_pk_list E remusr)"
  define w0 where "w0 = pgp2_check E pk_list w"
  from True run have r: "encode_crypt_open B E filename pk_list w0 = (rc, w')"
    by (simp add: encode_crypt_def Let_def pk_list_def w0_def)
  have t0: "trace w0 = trace w" and o0: "w_opt w0 = (w_opt w)\<lparr>opt_pgp2 := opt_pgp2 (w_opt w0)\<rparr>"
    using pgp2_check_facts [where E = E and pk_list = pk_list and w = w] by (simp_all add: w0_def)
  have lit: "literal_of B E w0 filename (do_compress_of E (w_opt w0) filename) PKT_NONE =
      literal_of B E w filename (do_compress_of E (w_opt w) filename) PKT_NONE"
    using literal_of_pgp2 [OF o0] o0 do_compress_of_pgp2 [where E = E and opt = "w_opt w" and b = "opt_pgp2 (w_opt w0)"]
    by simp
  have arm: "opt_armor (w_opt w0) = opt_armor (w_opt w)"
    using o0 by (metis options.select_convs(10) options.surjective options.update_convs(15))
  have oe: "open_events (w_opt w0) = open_events (w_opt w)"
    using o0 open_events_pgp2 [where opt = "w_opt w" and b = "opt_pgp2 (w_opt w0)"] by simp
  have cb: "\<And>pkt dl body. crypt_body B (w_opt w0) pk_list pkt dl rc body = crypt_body B (w_opt w) pk_list pkt dl rc body"
    using o0 crypt_body_pgp2 [where B = B and opt = "w_opt w" and b = "opt_pgp2 (w_opt w0)"] by simp
  from encode_crypt_open_run [OF r] obtain evs where
    "trace w' = trace w @ evs" and "crypt_events B E filename remusr w rc evs"
    unfolding crypt_events_def using True t0 lit arm oe cb pk_list_def by auto
  then show ?thesis by blast
qed


lemma work_wrap_codes:
  assumes "is_work B (opt_no_literal opt) (fst (literal_of B E w filename dc PKT_NONE)) rc0 rc wk"
    and "w_opt w = opt"
  shows "wrap_codes wk = []" and "stream_ops s wk = []"
proof -
  show "wrap_codes wk = []"
  proof (cases "opt_no_literal opt")
    case True
    with assms show ?thesis by (simp add: is_work_def)
  next
    case False
    with assms show ?thesis
      by (simp add: is_work_def literal_of_def setup_plaintext_def Let_def)
  qed
  show "stream_ops s wk = []"
    using assms by (cases "opt_no_literal opt") (simp_all add: is_work_def)
qed

lemma wrap_failed_codes: "wrap_failed pk_list rc wr \<Longrightarrow> c \<in> set (wrap_codes wr) \<Longrightarrow> c \<noteq> 0 \<Longrightarrow> c = rc"
  by (auto simp: wrap_failed_def list_all_iff)

lemma wrap_ok_codes: "wrap_ok pk_list wr \<Longrightarrow> c \<in> set (wrap_codes wr) \<Longrightarrow> c = 0"
  by (auto simp: wrap_ok_def list_all_iff)

lemma crypt_body_cases:
  assumes "crypt_body B opt pk_list pkt dl rc body"
  obtains (failed) dek wr where "list_all is_wrap_event wr" "is_crypt_dek B opt pk_list dek"
      "rc \<noteq> 0" "wrap_failed pk_list rc wr"
      "body = armor_events B opt @ EvMakeSessionKey dek # wr @ leave_events rc True True PKT_NONE True"
    | (ok) dek wr cz wk where "list_all is_wrap_event wr" "is_crypt_dek B opt pk_list dek"
      "wrap_ok pk_list wr" "list_all is_compress_push cz" "is_work B (opt_no_literal opt) pkt 0 rc wk"
      "body = armor_events B opt @ EvMakeSessionKey dek # wr @
              EvPushFilter Out (cipher_filter \<lparr>cfx_dek = Some dek, cfx_datalen = dl\<rparr>) #
              cz @ wk @ leave_events rc True True pkt True"
  using assms unfolding crypt_body_def by blast

lemma crypt_body_wrap_failure:
  assumes cb: "crypt_body B (w_opt w) pk_list (fst (literal_of B E w filename dc PKT_NONE)) dl rc body"
    and c: "c \<in> set (wrap_codes body)" "c \<noteq> 0"
  shows "rc = c \<and> stream_ops Out body = [EvCancel Out]"
  using cb
proof (cases rule: crypt_body_cases)
  case (failed dek wr)
  with c have "c \<in> set (wrap_codes wr)" by simp
  with failed c have "c = rc" by (blast dest: wrap_failed_codes)
  with failed show ?thesis by simp
next
  case (ok dek wr cz wk)
  have "wrap_codes wk = []" using work_wrap_codes(1) [OF ok(5)] by simp
  with c ok have "c \<in> set (wrap_codes wr)" by simp
  with ok(3) have "c = 0" by (rule wrap_ok_codes)
  with c show ?thesis by simp
qed

lemma write_symkey_enc_facts:
  "fst (snd (write_symkey_enc E dek s2k w)) = symkey_packet (w_opt w) dek s2k"
  "w_opt (snd (snd (write_symkey_enc E dek s2k w))) = w_opt w"
  "symkey_packet (w_opt w) dek s2k = PKT_NONE \<Longrightarrow> fst (write_symkey_enc E dek s2k w) = 0"
  "trace (snd (snd (write_symkey_enc E dek s2k w))) = trace w @
     (if symkey_packet (w_opt w) dek s2k = PKT_NONE then []
      else [EvBuildPacket (symkey_packet (w_opt w) dek s2k) (fst (write_symkey_enc E dek s2k w)),
            EvFree R_symkey_enc])"
  by (auto simp: write_symkey_enc_def symkey_packet_def Let_def split: option.splits if_splits)

lemma encode_simple_finish_facts:
  "fst (encode_simple_finish rc mode pkt dek s2k w) = rc"
  "trace (snd (encode_simple_finish rc mode pkt dek s2k w)) =
     trace w @ finish_events rc mode pkt (dek \<noteq> None) (s2k \<noteq> None)"
  "w_opt (snd (encode_simple_finish rc mode pkt dek s2k w)) = w_opt w"
  by (simp_all add: encode_simple_finish_def finish_events_def Let_def iobuf_close_def
        iobuf_cancel_def m_free_def)

lemma encode_simple_out_body:
  assumes run: "encode_simple_out B E filename mode dc dek s2k w = (rc, w')"
  shows "w_opt w' = w_opt w \<and> (\<exists>evs. trace w' = trace w @ evs \<and>
     simple_body B (w_opt w) mode dc dek s2k
       (fst (literal_of B E w filename dc (symkey_packet (w_opt w) dek s2k)))
       (snd (literal_of B E w filename dc (symkey_packet (w_opt w) dek s2k))) rc evs)"
proof -
  define w1 where "w1 = push_armor B w"
  define rc1 where "rc1 = fst (write_symkey_enc E dek s2k w1)"
  define pkt1 where "pkt1 = symkey_packet (w_opt w) dek s2k"
  define w2 where "w2 = snd (snd (write_symkey_enc E dek s2k w1))"
  define fs where "fs = fst (get_filesize B E filename w2)"
  define w3 where "w3 = snd (get_filesize B E filename w2)"
  define pkt where "pkt = fst (setup_plaintext E (w_opt w3) filename fs dc pkt1)"
  define datalen where "datalen = snd (setup_plaintext E (w_opt w3) filename fs dc pkt1)"
  define w4 where "w4 = (if mode \<noteq> 0
      then emit (EvPushFilter Out (cipher_filter \<lparr>cfx_dek = dek, cfx_datalen = datalen\<rparr>)) w3 else w3)"
  define w5 where "w5 = (if dc then emit (EvPushFilter Out (compress_filter 0)) w4 else w4)"
  obtain rc2 w6 where work: "do_the_work B E filename pkt rc1 w5 = (rc2, w6)"
    by (cases "do_the_work B E filename pkt rc1 w5")
  have sk: "write_symkey_enc E dek s2k w1 = (rc1, pkt1, w2)"
    using write_symkey_enc_facts(1) [of E dek s2k w1]
    by (simp add: rc1_def pkt1_def w2_def w1_def prod_eq_iff)
  have o2: "w_opt w2 = w_opt w" using write_symkey_enc_facts(2) [of E dek s2k w1] by (simp add: w2_def w1_def)
  have t2: "trace w2 = trace w @ armor_events B (w_opt w) @
     (if pkt1 = PKT_NONE then [] else [EvBuildPacket pkt1 rc1, EvFree R_symkey_enc])"
    using write_symkey_enc_facts(4) [of E dek s2k w1]
    by (simp add: w2_def w1_def pkt1_def rc1_def push_armor_trace)
  have r1: "pkt1 = PKT_NONE \<longrightarrow> rc1 = 0"
    using write_symkey_enc_facts(3) [of w1 dek s2k E] by (simp add: pkt1_def rc1_def w1_def)
  have o3: "w_opt w3 = w_opt w" and t3: "trace w3 = trace w2" by (simp_all add: w3_def o2)
  have fs': "fs = fst (get_filesize B E filename w)"
    using o2 by (simp add: fs_def get_filesize_def Let_def)
  have lit: "literal_of B E w filename dc pkt1 = (pkt, datalen)"
    by (simp add: literal_of_def pkt_def datalen_def o3 fs')
  have o5: "w_opt w5 = w_opt w" by (simp add: w5_def w4_def o3)
  have t5: "trace w5 = trace w3 @
         (if mode \<noteq> 0 then [EvPushFilter Out (cipher_filter \<lparr>cfx_dek = dek, cfx_datalen = datalen\<rparr>)]
          else []) @
         (if dc then [EvPushFilter Out (compress_filter 0)] else [])"
    by (simp add: w5_def w4_def)
  from do_the_work_events [OF work] obtain wk where
    t6: "trace w6 = trace w5 @ wk" and o6: "w_opt w6 = w_opt w5"
    and wk: "is_work B (opt_no_literal (w_opt w5)) pkt rc1 rc2 wk"
    by blast
  have "encode_simple_out B E filename mode dc dek s2k w =
      encode_simple_finish (fst (do_the_work B E filename pkt rc1 w5)) mode pkt dek s2k
        (snd (do_the_work B E filename pkt rc1 w5))"
    by (simp add: encode_simple_out_def Let_def split_beta w1_def rc1_def pkt1_def w2_def fs_def
          w3_def pkt_def datalen_def w4_def w5_def write_symkey_enc_facts(1))
  with run work have res: "encode_simple_finish rc2 mode pkt dek s2k w6 = (rc, w')"
    by simp
  then have rc: "rc = rc2" and t': "trace w' = trace w6 @ finish_events rc2 mode pkt (dek \<noteq> None) (s2k \<noteq> None)"
    and o': "w_opt w' = w_opt w6"
    using encode_simple_finish_facts [of rc2 mode pkt dek s2k w6] by simp_all
  have body: "simple_body B (w_opt w) mode dc dek s2k pkt datalen rc
     (armor_events B (w_opt w) @
         (if pkt1 = PKT_NONE then [] else [EvBuildPacket pkt1 rc1, EvFree R_symkey_enc]) @
         (if mode \<noteq> 0 then [EvPushFilter Out (cipher_filter \<lparr>cfx_dek = dek, cfx_datalen = datalen\<rparr>)]
          else []) @
         (if dc then [EvPushFilter Out (compress_filter 0)] else []) @
         wk @ finish_events rc mode pkt (dek \<noteq> None) (s2k \<noteq> None))"
    unfolding simple_body_def
    apply (rule exI [of _ rc1], rule exI [of _ wk])
    using r1 wk o5 rc by (simp add: pkt1_def)
  have "trace w' = trace w @ armor_events B (w_opt w) @
         (if pkt1 = PKT_NONE then [] else [EvBuildPacket pkt1 rc1, EvFree R_symkey_enc]) @
         (if mode \<noteq> 0 then [EvPushFilter Out (cipher_filter \<lparr>cfx_dek = dek, cfx_datalen = datalen\<rparr>)]
          else []) @
         (if dc then [EvPushFilter Out (compress_filter 0)] else []) @
         wk @ finish_events rc mode pkt (dek \<noteq> None) (s2k \<noteq> None)"
    using t' t6 t5 t3 t2 rc by simp
  with body lit o' o6 o5 show ?thesis by (auto simp: pkt1_def)
qed


lemma encode_simple_key_run:
  assumes run: "encode_simple_key B E filename mode dc w = (rc, w')"
  defines "dek \<equiv> (if mode \<noteq> 0 then fst (get_passphrase_dek E (w_opt w)) else None)"
    and "s2k \<equiv> (if mode \<noteq> 0 then Some (snd (get_passphrase_dek E (w_opt w))) else None)"
  shows "w_opt w' = w_opt w \<and> (\<exists>evs. trace w' = trace w @ evs \<and>
    ((mode \<noteq> 0 \<and> no_key dek \<and> rc = G10ERR_PASSPHRASE B \<and>
       evs = (if dek \<noteq> None then [EvFree R_dek] else []) @ [EvFree R_s2k, EvClose Inp]) \<or>
     (\<not> (mode \<noteq> 0 \<and> no_key dek) \<and>
       open_outfile E filename (if opt_armor (w_opt w) then 1 else 0) \<noteq> 0 \<and>
       rc = open_outfile E filename (if opt_armor (w_opt w) then 1 else 0) \<and>
       evs = EvCancel Inp # (if dek \<noteq> None then [EvFree R_dek] else []) @
                 (if s2k \<noteq> None then [EvFree R_s2k] else [])) \<or>
     (\<not> (mode \<noteq> 0 \<and> no_key dek) \<and>
       open_outfile E filename (if opt_armor (w_opt w) then 1 else 0) = 0 \<and>
       (\<exists>body. evs = EvOpen Out # body \<and>
          simple_body B (w_opt w) mode dc dek s2k
            (fst (literal_of B E w filename dc (symkey_packet (w_opt w) dek s2k)))
            (snd (literal_of B E w filename dc (symkey_packet (w_opt w) dek s2k))) rc body))))"
proof -
  consider (nokey) "mode \<noteq> 0 \<and> no_key dek"
    | (noout) "\<not> (mode \<noteq> 0 \<and> no_key dek)" "open_outfile E filename (if opt_armor (w_opt w) then 1 else 0) \<noteq> 0"
    | (body) "\<not> (mode \<noteq> 0 \<and> no_key dek)" "open_outfile E filename (if opt_armor (w_opt w) then 1 else 0) = 0"
    by blast
  then show ?thesis
  proof cases
    case nokey
    with run have "rc = G10ERR_PASSPHRASE B"
      and "trace w' = trace w @ (if dek \<noteq> None then [EvFree R_dek] else []) @ [EvFree R_s2k, EvClose Inp]"
      and "w_opt w' = w_opt w"
      by (auto simp: encode_simple_key_def Let_def dek_def iobuf_close_def m_free_def)
    with nokey show ?thesis by simp
  next
    case noout
    with run have "rc = open_outfile E filename (if opt_armor (w_opt w) then 1 else 0)"
      and "trace w' = trace w @ EvCancel Inp # (if dek \<noteq> None then [EvFree R_dek] else []) @
                 (if s2k \<noteq> None then [EvFree R_s2k] else [])"
      and "w_opt w' = w_opt w"
      by (auto simp: encode_simple_key_def Let_def dek_def s2k_def iobuf_cancel_def m_free_def
            split: if_splits)
    with noout show ?thesis by simp
  next
    case body
    with run have r: "encode_simple_out B E filename mode dc dek s2k (emit (EvOpen Out) w) = (rc, w')"
      by (auto simp: encode_simple_key_def Let_def dek_def s2k_def split: if_splits)
    have lit: "literal_of B E (emit (EvOpen Out) w) filename dc (symkey_packet (w_opt w) dek s2k) =
      literal_of B E w filename dc (symkey_packet (w_opt w) dek s2k)"
      by (simp add: literal_of_def get_filesize_def Let_def)
    from encode_simple_out_body [OF r] lit obtain evs where
      "w_opt w' = w_opt w" "trace w' = trace w @ EvOpen Out # evs"
      "simple_body B (w_opt w) mode dc dek s2k
            (fst (literal_of B E w filename dc (symkey_packet (w_opt w) dek s2k)))
            (snd (literal_of B E w filename dc (symkey_packet (w_opt w) dek s2k))) rc evs"
      by auto
    with body show ?thesis by simp
  qed
qed

lemma encode_simple_run:
  assumes run: "encode_simple B E filename mode w = (rc, w')"
  shows "w_opt w' = w_opt w \<and>
    (\<exists>evs. trace w' = trace w @ evs \<and> simple_events B E filename mode w rc evs)"
proof -
  define w1 where "w1 = log_when (fst (is_file_compressed E filename) \<and> opt_verbose (w_opt w))
     (LogInfo ''already compressed'') w"
  have w1: "trace w1 = trace w" "w_opt w1 = w_opt w" by (simp_all add: w1_def)
  consider (probe) "snd (is_file_compressed E filename) \<noteq> 0"
    | (inp) "snd (is_file_compressed E filename) = 0" "\<not> iobuf_open E filename"
    | (key) "snd (is_file_compressed E filename) = 0" "iobuf_open E filename"
    by blast
  then show ?thesis
  proof cases
    case probe
    with run have "rc = snd (is_file_compressed E filename)" "w' = w1"
      by (simp_all add: encode_simple_def Let_def w1_def)
    with probe w1 show ?thesis by (simp add: simple_events_def Let_def)
  next
    case inp
    with run have "rc = G10ERR_OPEN_FILE B" "w' = log_msg (LogError ''can't open'') w1"
      by (simp_all add: encode_simple_def Let_def w1_def)
    with inp w1 show ?thesis by (simp add: simple_events_def Let_def)
  next
    case key
    define w3 where "w3 = (if opt_textmode (w_opt w) then emit (EvPushFilter Inp text_filter) (emit (EvOpen Inp) w1)
        else emit (EvOpen Inp) w1)"
    have w3: "trace w3 = trace w @ open_events (w_opt w)" "w_opt w3 = w_opt w"
      by (simp_all add: w3_def w1 open_events_def)
    from key run have r: "encode_simple_key B E filename mode (do_compress_of E (w_opt w) filename) w3 = (rc, w')"
      by (auto simp: encode_simple_def Let_def w1_def w3_def do_compress_of_def split: if_splits)
    have lit: "\<And>dc p. literal_of B E w3 filename dc p = literal_of B E w filename dc p"
      using w3 by (simp add: literal_of_def get_filesize_def Let_def)
    from encode_simple_key_run [OF r] w3 lit key show ?thesis
      by (auto simp: simple_events_def Let_def)
  qed
qed

lemma literal_builds_simps [simp]:
  "literal_builds [] = []" "literal_builds (e # es) = literal_built_by e @ literal_builds es"
  "literal_builds (xs @ ys) = literal_builds xs @ literal_builds ys"
  by (simp_all add: literal_builds_def)

lemma literal_codes_simps [simp]:
  "literal_codes [] = []" "literal_codes (e # es) = literal_code e @ literal_codes es"
  "literal_codes (xs @ ys) = literal_codes xs @ literal_codes ys"
  by (simp_all add: literal_codes_def)

lemma symkey_builds_simps [simp]:
  "symkey_builds [] = []" "symkey_builds (e # es) = symkey_built_by e @ symkey_builds es"
  "symkey_builds (xs @ ys) = symkey_builds xs @ symkey_builds ys"
  by (simp_all add: symkey_builds_def)

lemma statuses_simps [simp]:
  "statuses [] = []" "statuses (e # es) = status_of e @ statuses es"
  "statuses (xs @ ys) = statuses xs @ statuses ys"
  by (simp_all add: statuses_def)

lemma frees_simps [simp]:
  "frees [] = []" "frees (e # es) = freed_by e @ frees es"
  "frees (xs @ ys) = frees xs @ frees ys"
  by (simp_all add: frees_def)

lemma session_keys_simps [simp]:
  "session_keys [] = []" "session_keys (e # es) = session_key_of e @ session_keys es"
  "session_keys (xs @ ys) = session_keys xs @ session_keys ys"
  by (simp_all add: session_keys_def)

lemma cipher_pushes_simps [simp]:
  "cipher_pushes [] = []" "cipher_pushes (e # es) = cipher_pushed_by e @ cipher_pushes es"
  "cipher_pushes (xs @ ys) = cipher_pushes xs @ cipher_pushes ys"
  by (simp_all add: cipher_pushes_def)

lemma written_simps [simp]:
  "written [] = []" "written (e # es) = written_by e @ written es"
  "written (xs @ ys) = written xs @ written ys"
  by (simp_all add: written_def)

lemma out_data_simps [simp]:
  "out_data [] = []" "out_data (e # es) = (if is_out_data e then e # out_data es else out_data es)"
  "out_data (xs @ ys) = out_data xs @ out_data ys"
  by (simp_all add: out_data_def)

lemma wrap_events_write_codes [simp]: "list_all is_wrap_event evs \<Longrightarrow> write_codes evs = []"
  unfolding write_codes_def by (erule concat_map_none) (auto dest: wrap_event_cases)

lemma wrap_events_literal_builds [simp]: "list_all is_wrap_event evs \<Longrightarrow> literal_builds evs = []"
  unfolding literal_builds_def by (erule concat_map_none) (auto dest: wrap_event_cases)

lemma wrap_events_literal_codes [simp]: "list_all is_wrap_event evs \<Longrightarrow> literal_codes evs = []"
  unfolding literal_codes_def by (erule concat_map_none) (auto dest: wrap_event_cases)

lemma wrap_events_symkey_builds [simp]: "list_all is_wrap_event evs \<Longrightarrow> symkey_builds evs = []"
  unfolding symkey_builds_def by (erule concat_map_none) (auto dest: wrap_event_cases)

lemma wrap_events_statuses [simp]: "list_all is_wrap_event evs \<Longrightarrow> statuses evs = []"
  unfolding statuses_def by (erule concat_map_none) (auto dest: wrap_event_cases)

lemma wrap_events_session_keys [simp]: "list_all is_wrap_event evs \<Longrightarrow> session_keys evs = []"
  unfolding session_keys_def by (erule concat_map_none) (auto dest: wrap_event_cases)

lemma wrap_events_cipher_pushes [simp]: "list_all is_wrap_event evs \<Longrightarrow> cipher_pushes evs = []"
  unfolding cipher_pushes_def by (erule concat_map_none) (auto dest: wrap_event_cases)

lemma wrap_events_written [simp]: "list_all is_wrap_event evs \<Longrightarrow> written evs = []"
  unfolding written_def by (erule concat_map_none) (auto dest: wrap_event_cases)

lemma write_events_wrapped [simp]: "list_all is_write_event evs \<Longrightarrow> wrapped evs = []"
  unfolding wrapped_def by (erule concat_map_none) (auto dest: write_event_cases)

lemma write_events_built [simp]: "list_all is_write_event evs \<Longrightarrow> built evs = []"
  unfolding built_def by (erule concat_map_none) (auto dest: write_event_cases)

lemma write_events_literal_builds [simp]: "list_all is_write_event evs \<Longrightarrow> literal_builds evs = []"
  unfolding literal_builds_def by (erule concat_map_none) (auto dest: write_event_cases)

lemma write_events_literal_codes [simp]: "list_all is_write_event evs \<Longrightarrow> literal_codes evs = []"
  unfolding literal_codes_def by (erule concat_map_none) (auto dest: write_event_cases)

lemma write_events_symkey_builds [simp]: "list_all is_write_event evs \<Longrightarrow> symkey_builds evs = []"
  unfolding symkey_builds_def by (erule concat_map_none) (auto dest: write_event_cases)

lemma write_events_statuses [simp]: "list_all is_write_event evs \<Longrightarrow> statuses evs = []"
  unfolding statuses_def by (erule concat_map_none) (auto dest: write_event_cases)

lemma write_events_frees [simp]: "list_all is_write_event evs \<Longrightarrow> frees evs = []"
  unfolding frees_def by (erule concat_map_none) (auto dest: write_event_cases)

lemma write_events_session_keys [simp]: "list_all is_write_event evs \<Longrightarrow> session_keys evs = []"
  unfolding session_keys_def by (erule concat_map_none) (auto dest: write_event_cases)

lemma write_events_cipher_pushes [simp]: "list_all is_write_event evs \<Longrightarrow> cipher_pushes evs = []"
  unfolding cipher_pushes_def by (erule concat_map_none) (auto dest: write_event_cases)

lemma compress_push_wrapped [simp]: "list_all is_compress_push evs \<Longrightarrow> wrapped evs = []"
  unfolding wrapped_def by (erule concat_map_none) (auto dest: compress_push_cases)

lemma compress_push_built [simp]: "list_all is_compress_push evs \<Longrightarrow> built evs = []"
  unfolding built_def by (erule concat_map_none) (auto dest: compress_push_cases)

lemma compress_push_write_codes [simp]: "list_all is_compress_push evs \<Longrightarrow> write_codes evs = []"
  unfolding write_codes_def by (erule concat_map_none) (auto dest: compress_push_cases)

lemma compress_push_literal_builds [simp]: "list_all is_compress_push evs \<Longrightarrow> literal_builds evs = []"
  unfolding literal_builds_def by (erule concat_map_none) (auto dest: compress_push_cases)

lemma compress_push_literal_codes [simp]: "list_all is_compress_push evs \<Longrightarrow> literal_codes evs = []"
  unfolding literal_codes_def by (erule concat_map_none) (auto dest: compress_push_cases)

lemma compress_push_symkey_builds [simp]: "list_all is_compress_push evs \<Longrightarrow> symkey_builds evs = []"
  unfolding symkey_builds_def by (erule concat_map_none) (auto dest: compress_push_cases)

lemma compress_push_statuses [simp]: "list_all is_compress_push evs \<Longrightarrow> statuses evs = []"
  unfolding statuses_def by (erule concat_map_none) (auto dest: compress_push_cases)

lemma compress_push_frees [simp]: "list_all is_compress_push evs \<Longrightarrow> frees evs = []"
  unfolding frees_def by (erule concat_map_none) (auto dest: compress_push_cases)

lemma compress_push_session_keys [simp]: "list_all is_compress_push evs \<Longrightarrow> session_keys evs = []"
  unfolding session_keys_def by (erule concat_map_none) (auto dest: compress_push_cases)

lemma compress_push_cipher_pushes [simp]: "list_all is_compress_push evs \<Longrightarrow> cipher_pushes evs = []"
  unfolding cipher_pushes_def by (erule concat_map_none) (auto dest: compress_push_cases)

lemma compress_push_written [simp]: "list_all is_compress_push evs \<Longrightarrow> written evs = []"
  unfolding written_def by (erule concat_map_none) (auto dest: compress_push_cases)

lemma compress_push_out_data [simp]: "list_all is_compress_push evs \<Longrightarrow> out_data evs = []"
  unfolding out_data_def by (erule filter_none) (auto dest: compress_push_cases)

lemma armor_events_obs [simp]:
  "out_data (armor_events B opt) = []" "symkey_builds (armor_events B opt) = []"
  "literal_builds (armor_events B opt) = []" "literal_codes (armor_events B opt) = []"
  "write_codes (armor_events B opt) = []" "statuses (armor_events B opt) = []"
  "frees (armor_events B opt) = []" "session_keys (armor_events B opt) = []"
  "cipher_pushes (armor_events B opt) = []" "written (armor_events B opt) = []"
  "built (armor_events B opt) = []" "wrapped (armor_events B opt) = []"
  by (simp_all add: armor_events_def split: option.splits)

lemma open_events_obs [simp]:
  "out_data (open_events opt) = []" "symkey_builds (open_events opt) = []"
  "literal_builds (open_events opt) = []" "literal_codes (open_events opt) = []"
  "write_codes (open_events opt) = []" "statuses (open_events opt) = []"
  "frees (open_events opt) = []" "session_keys (open_events opt) = []"
  "cipher_pushes (open_events opt) = []" "written (open_events opt) = []"
  "built (open_events opt) = []" "wrapped (open_events opt) = []"
  by (simp_all add: open_events_def)

lemma finish_events_obs [simp]:
  "out_data (finish_events rc mode pkt dek s2k) = []" "symkey_builds (finish_events rc mode pkt dek s2k) = []"
  "literal_builds (finish_events rc mode pkt dek s2k) = []" "literal_codes (finish_events rc mode pkt dek s2k) = []"
  "write_codes (finish_events rc mode pkt dek s2k) = []"
  "session_keys (finish_events rc mode pkt dek s2k) = []"
  "cipher_pushes (finish_events rc mode pkt dek s2k) = []" "written (finish_events rc mode pkt dek s2k) = []"
  "built (finish_events rc mode pkt dek s2k) = []" "wrapped (finish_events rc mode pkt dek s2k) = []"
  "wrap_codes (finish_events rc mode pkt dek s2k) = []"
  "statuses (finish_events rc mode pkt dek s2k) = (if rc = 0 \<and> mode \<noteq> 0 then [STATUS_END_ENCRYPTION] else [])"
  "frees (finish_events rc mode pkt dek s2k) =
     R_packet pkt # (if dek then [R_dek] else []) @ (if s2k then [R_s2k] else [])"
  "stream_ops Inp (finish_events rc mode pkt dek s2k) = [EvClose Inp]"
  "stream_ops Out (finish_events rc mode pkt dek s2k) = [if rc \<noteq> 0 then EvCancel Out else EvClose Out]"
  by (simp_all add: finish_events_def)

lemma leave_events_obs [simp]:
  "out_data (leave_events rc inp out pkt dek) = []" "symkey_builds (leave_events rc inp out pkt dek) = []"
  "literal_builds (leave_events rc inp out pkt dek) = []" "literal_codes (leave_events rc inp out pkt dek) = []"
  "write_codes (leave_events rc inp out pkt dek) = []"
  "session_keys (leave_events rc inp out pkt dek) = []"
  "cipher_pushes (leave_events rc inp out pkt dek) = []" "written (leave_events rc inp out pkt dek) = []"
  "built (leave_events rc inp out pkt dek) = []" "wrapped (leave_events rc inp out pkt dek) = []"
  "statuses (leave_events rc inp out pkt dek) = (if rc = 0 then [STATUS_END_ENCRYPTION] else [])"
  "frees (leave_events rc inp out pkt dek) = R_packet pkt # (if dek then [R_dek] else []) @ [R_pk_list]"
  by (simp_all add: leave_events_def)

lemma simple_events_cases:
  assumes "simple_events B E filename mode w rc evs"
  obtains (probe) "snd (is_file_compressed E filename) \<noteq> 0" "rc = snd (is_file_compressed E filename)" "evs = []"
  | (inp) "snd (is_file_compressed E filename) = 0" "\<not> iobuf_open E filename" "rc = G10ERR_OPEN_FILE B" "evs = []"
  | (key) "snd (is_file_compressed E filename) = 0" "iobuf_open E filename" "mode \<noteq> 0"
      "no_key (fst (get_passphrase_dek E (w_opt w)))" "rc = G10ERR_PASSPHRASE B"
      "evs = open_events (w_opt w) @ (if fst (get_passphrase_dek E (w_opt w)) \<noteq> None then [EvFree R_dek] else []) @
                 [EvFree R_s2k, EvClose Inp]"
  | (out) dek s2k where "snd (is_file_compressed E filename) = 0" "iobuf_open E filename"
      "dek = (if mode \<noteq> 0 then fst (get_passphrase_dek E (w_opt w)) else None)"
      "s2k = (if mode \<noteq> 0 then Some (snd (get_passphrase_dek E (w_opt w))) else None)"
      "\<not> (mode \<noteq> 0 \<and> no_key dek)"
      "open_outfile E filename (if opt_armor (w_opt w) then 1 else 0) \<noteq> 0"
      "rc = open_outfile E filename (if opt_armor (w_opt w) then 1 else 0)"
      "evs = open_events (w_opt w) @ EvCancel Inp #
                 (if dek \<noteq> None then [EvFree R_dek] else []) @
                 (if s2k \<noteq> None then [EvFree R_s2k] else [])"
  | (body) dek s2k body where "snd (is_file_compressed E filename) = 0" "iobuf_open E filename"
      "dek = (if mode \<noteq> 0 then fst (get_passphrase_dek E (w_opt w)) else None)"
      "s2k = (if mode \<noteq> 0 then Some (snd (get_passphrase_dek E (w_opt w))) else None)"
      "\<not> (mode \<noteq> 0 \<and> no_key dek)"
      "open_outfile E filename (if opt_armor (w_opt w) then 1 else 0) = 0"
      "evs = open_events (w_opt w) @ EvOpen Out # body"
      "simple_body B (w_opt w) mode (do_compress_of E (w_opt w) filename) dek s2k
         (fst (literal_of B E w filename (do_compress_of E (w_opt w) filename) (symkey_packet (w_opt w) dek s2k)))
         (snd (literal_of B E w filename (do_compress_of E (w_opt w) filename) (symkey_packet (w_opt w) dek s2k)))
         rc body"
proof -
  note se = assms [unfolded simple_events_def Let_def]
  from se show ?thesis
  proof (elim disjE conjE exE, goal_cases)
    case 1
    then show ?case by (rule probe)
  next
    case 2
    then show ?case by (rule inp)
  next
    case 3
    then show ?case by (intro key) simp_all
  next
    case 4
    show ?case by (rule out [OF 4(1) 4(2) refl refl 4(3) 4(4) 4(5) 4(6)])
  next
    case (5 b)
    show ?case by (rule body [OF 5(1) 5(2) refl refl 5(3) 5(4) 5(5) 5(6)])
  qed
qed

lemma simple_body_cases:
  assumes "simple_body B opt mode dc dek s2k pkt datalen rc evs"
  obtains rc1 wk where "symkey_packet opt dek s2k = PKT_NONE \<Longrightarrow> rc1 = 0"
    "is_work B (opt_no_literal opt) pkt rc1 rc wk"
    "evs = armor_events B opt @
         (if symkey_packet opt dek s2k = PKT_NONE then []
          else [EvBuildPacket (symkey_packet opt dek s2k) rc1, EvFree R_symkey_enc]) @
         (if mode \<noteq> 0 then [EvPushFilter Out (cipher_filter \<lparr>cfx_dek = dek, cfx_datalen = datalen\<rparr>)]
          else []) @
         (if dc then [EvPushFilter Out (compress_filter 0)] else []) @
         wk @ finish_events rc mode pkt (dek \<noteq> None) (s2k \<noteq> None)"
  using assms unfolding simple_body_def by blast

lemma crypt_events_cases:
  assumes "crypt_events B E filename remusr w rc evs"
  obtains (pk) "fst (build_pk_list E remusr) \<noteq> 0" "rc = fst (build_pk_list E remusr)" "evs = []"
  | (probe) "fst (build_pk_list E remusr) = 0" "snd (is_file_compressed E filename) \<noteq> 0"
      "rc = snd (is_file_compressed E filename)" "evs = leave_events rc False False PKT_NONE False"
  | (inp) "fst (build_pk_list E remusr) = 0" "snd (is_file_compressed E filename) = 0"
      "\<not> iobuf_open E filename" "rc = G10ERR_OPEN_FILE B"
      "evs = leave_events rc False False PKT_NONE False"
  | (out) "fst (build_pk_list E remusr) = 0" "snd (is_file_compressed E filename) = 0"
      "iobuf_open E filename"
      "open_outfile E filename (if opt_armor (w_opt w) then 1 else 0) \<noteq> 0"
      "rc = open_outfile E filename (if opt_armor (w_opt w) then 1 else 0)"
      "evs = open_events (w_opt w) @ leave_events rc True False PKT_NONE False"
  | (body) body where "fst (build_pk_list E remusr) = 0" "snd (is_file_compressed E filename) = 0"
      "iobuf_open E filename"
      "open_outfile E filename (if opt_armor (w_opt w) then 1 else 0) = 0"
      "evs = open_events (w_opt w) @ EvOpen Out # body"
      "crypt_body B (w_opt w) (snd (build_pk_list E remusr))
            (fst (literal_of B E w filename (do_compress_of E (w_opt w) filename) PKT_NONE))
            (snd (literal_of B E w filename (do_compress_of E (w_opt w) filename) PKT_NONE))
            rc body"
proof -
  note ce = assms [unfolded crypt_events_def]
  from ce show ?thesis
  proof (elim disjE conjE exE, goal_cases)
    case 1
    then show ?case by (rule pk)
  next
    case 2
    then show ?case by (rule probe)
  next
    case 3
    then show ?case by (rule inp)
  next
    case 4
    then show ?case by (rule out)
  next
    case (5 b)
    then show ?case by (rule body)
  qed
qed

lemma get_filesize_value:
  "fst (get_filesize B E filename w) =
    (if filename \<noteq> None \<and> \<not> opt_textmode (w_opt w)
     then (if IOBUF_FILELENGTH_LIMIT B \<le> unat (iobuf_get_filelength E filename) then 0
           else iobuf_get_filelength E filename)
     else (if opt_set_filesize (w_opt w) \<noteq> 0 then opt_set_filesize (w_opt w) else 0))"
  by (simp add: get_filesize_def Let_def)

lemma literal_of_packet:
  "fst (literal_of B E w filename dc p) =
     (if opt_no_literal (w_opt w) then p else PKT_PLAINTEXT (literal_pt B E w filename))"
  by (simp add: literal_of_def setup_plaintext_def literal_pt_def Let_def)

lemma write_events_out_data: "list_all is_write_event evs \<Longrightarrow> out_data evs = evs"
  unfolding out_data_def by (induction evs) (auto dest: write_event_cases)

lemma work_shape:
  assumes "is_work B (opt_no_literal (w_opt w)) (fst (literal_of B E w filename dc p)) rc0 rc wk"
  shows "(\<not> opt_no_literal (w_opt w) \<and> wk = [EvBuildPacket (PKT_PLAINTEXT (literal_pt B E w filename)) rc]) \<or>
    (opt_no_literal (w_opt w) \<and> list_all is_write_event wk \<and>
     (if - 1 \<in> set (write_codes wk) then rc = G10ERR_WRITE_FILE B else rc = rc0))"
  using assms by (simp add: is_work_def literal_of_packet split: if_splits)

lemma work_obs:
  assumes "is_work B (opt_no_literal (w_opt w)) (fst (literal_of B E w filename dc p)) rc0 rc wk"
  shows "symkey_builds wk = []" "wrap_codes wk = []" "stream_ops s wk = []" "statuses wk = []"
    "frees wk = []" "session_keys wk = []" "cipher_pushes wk = []" "wrapped wk = []"
    "literal_builds wk = (if opt_no_literal (w_opt w) then [] else [literal_pt B E w filename])"
    "literal_codes wk = (if opt_no_literal (w_opt w) then [] else [rc])"
    "\<not> opt_no_literal (w_opt w) \<Longrightarrow> write_codes wk = []"
    "opt_no_literal (w_opt w) \<Longrightarrow>
       (if - 1 \<in> set (write_codes wk) then rc = G10ERR_WRITE_FILE B else rc = rc0)"
    "out_data wk = wk"
proof -
  note s = work_shape [OF assms]
  from s show "symkey_builds wk = []" by (elim disjE conjE) simp_all
  from s show "wrap_codes wk = []" by (elim disjE conjE) simp_all
  from s show "stream_ops s wk = []" by (elim disjE conjE) simp_all
  from s show "statuses wk = []" by (elim disjE conjE) simp_all
  from s show "frees wk = []" by (elim disjE conjE) simp_all
  from s show "session_keys wk = []" by (elim disjE conjE) simp_all
  from s show "cipher_pushes wk = []" by (elim disjE conjE) simp_all
  from s show "wrapped wk = []" by (elim disjE conjE) simp_all
  from s show "literal_builds wk = (if opt_no_literal (w_opt w) then [] else [literal_pt B E w filename])"
    by (elim disjE conjE) simp_all
  from s show "literal_codes wk = (if opt_no_literal (w_opt w) then [] else [rc])"
    by (elim disjE conjE) simp_all
  from s show "\<not> opt_no_literal (w_opt w) \<Longrightarrow> write_codes wk = []"
    by (elim disjE conjE) simp_all
  from s show "opt_no_literal (w_opt w) \<Longrightarrow>
       (if - 1 \<in> set (write_codes wk) then rc = G10ERR_WRITE_FILE B else rc = rc0)"
    by (elim disjE conjE) simp_all
  from s show "out_data wk = wk"
    by (elim disjE conjE) (simp_all add: write_events_out_data)
qed

lemma symkey_packet_cases:
  "symkey_packet opt dek s2k \<noteq> PKT_NONE \<Longrightarrow> \<not> opt_rfc1991 opt \<and> dek \<noteq> None \<and> s2k \<noteq> None"
  "symkey_packet opt dek s2k \<noteq> PKT_NONE \<Longrightarrow>
     \<exists>enc. symkey_packet opt dek s2k = PKT_SYMKEY_ENC enc"
  by (auto simp: symkey_packet_def split: option.splits if_splits)

lemma crypt_body_literal_builds:
  assumes "crypt_body B (w_opt w) pk_list (fst (literal_of B E w filename dc PKT_NONE)) dl rc body"
  shows "literal_builds body = [] \<or> literal_builds body = [literal_pt B E w filename]"
  using assms
proof (cases rule: crypt_body_cases)
  case (failed dek wr)
  then show ?thesis by simp
next
  case (ok dek wr cz wk)
  note wo = work_obs [OF ok(5)]
  from ok wo(9) show ?thesis by simp
qed

lemma crypt_literal_builds:
  assumes "crypt_events B E filename remusr w rc evs"
  shows "literal_builds evs = [] \<or> literal_builds evs = [literal_pt B E w filename]"
  using assms
proof (cases rule: crypt_events_cases)
  case (body b)
  from crypt_body_literal_builds [OF body(6)] body(5) show ?thesis by simp
qed simp_all

lemma simple_literal_builds:
  assumes "simple_events B E filename mode w rc evs"
  shows "literal_builds evs = [] \<or> literal_builds evs = [literal_pt B E w filename]"
  using assms
proof (cases rule: simple_events_cases)
  case (body dek s2k b)
  from body(8) obtain rc1 wk where
    wk: "is_work B (opt_no_literal (w_opt w))
         (fst (literal_of B E w filename (do_compress_of E (w_opt w) filename) (symkey_packet (w_opt w) dek s2k)))
         rc1 rc wk"
    and b: "b = armor_events B (w_opt w) @
         (if symkey_packet (w_opt w) dek s2k = PKT_NONE then []
          else [EvBuildPacket (symkey_packet (w_opt w) dek s2k) rc1, EvFree R_symkey_enc]) @
         (if mode \<noteq> 0 then [EvPushFilter Out (cipher_filter \<lparr>cfx_dek = dek,
             cfx_datalen = snd (literal_of B E w filename (do_compress_of E (w_opt w) filename) (symkey_packet (w_opt w) dek s2k))\<rparr>)]
          else []) @
         (if do_compress_of E (w_opt w) filename then [EvPushFilter Out (compress_filter 0)] else []) @
         wk @ finish_events rc mode
           (fst (literal_of B E w filename (do_compress_of E (w_opt w) filename) (symkey_packet (w_opt w) dek s2k)))
           (dek \<noteq> None) (s2k \<noteq> None)"
    by (rule simple_body_cases)
  note wo = work_obs [OF wk]
  have "literal_builds [EvBuildPacket (symkey_packet (w_opt w) dek s2k) rc1] = []"
    using symkey_packet_cases(2) [of "w_opt w" dek s2k]
    by (cases "symkey_packet (w_opt w) dek s2k = PKT_NONE") auto
  with body(7) b wo(9) show ?thesis by simp
qed (simp_all add: open_events_def)

lemma run_literal_builds:
  assumes "encode_simple B E filename mode w = (rc, w') \<or> encode_crypt B E filename remusr w = (rc, w')"
    and "pt \<in> set (literal_builds (events_of w w'))"
  shows "pt = literal_pt B E w filename"
proof -
  from assms(1) have "literal_builds (events_of w w') = [] \<or>
      literal_builds (events_of w w') = [literal_pt B E w filename]"
  proof
    assume "encode_simple B E filename mode w = (rc, w')"
    from encode_simple_run [OF this] obtain evs where
      "trace w' = trace w @ evs" "simple_events B E filename mode w rc evs" by blast
    with simple_literal_builds [of B E filename mode w rc evs] events_of_eq [of w' w evs]
    show ?thesis by simp
  next
    assume "encode_crypt B E filename remusr w = (rc, w')"
    from encode_crypt_run [OF this] obtain evs where
      "trace w' = trace w @ evs" "crypt_events B E filename remusr w rc evs" by blast
    with crypt_literal_builds [of B E filename remusr w rc evs] events_of_eq [of w' w evs]
    show ?thesis by simp
  qed
  with assms(2) show ?thesis by auto
qed

lemmas ex_defs = build_ex_def env_ex_def opt_ex_def world_ex_def pk_rsa_def pk_elg_def dek_ex_def

lemmas run_defs = init_s2k_def get_passphrase_dek_def no_key_def encode_crypt_def encode_crypt_open_def encode_crypt_out_def encode_crypt_leave_def
  pgp2_check_def create_session_key_def make_session_key_def select_algo_from_prefs_def
  select_mdc_from_pklist_def pk_prefs_def push_armor_def get_filesize_def setup_plaintext_def
  plaintext_name_def push_compress_def do_the_work_def write_pubkey_enc_def
  iobuf_close_def iobuf_cancel_def m_free_def log_when_def log_msg_def log_all_def emit_def
  encode_simple_def encode_simple_key_def encode_simple_out_def encode_simple_finish_def
  write_symkey_enc_def

lemma no_open_out [simp]:
  "EvOpen Out \<notin> set (leave_events rc inp out pkt dek)" "EvOpen Out \<notin> set (open_events opt)"
  by (simp_all add: leave_events_def open_events_def)

lemma crypt_body_cleanup:
  assumes cb: "crypt_body B (w_opt w) pk_list (fst (literal_of B E w filename dc PKT_NONE)) dl rc body"
  shows "stream_ops Out body = [if rc \<noteq> 0 then EvCancel Out else EvClose Out]"
    and "stream_ops Inp body = [EvClose Inp]"
    and "statuses body = (if rc = 0 then [STATUS_END_ENCRYPTION] else [])"
    and "R_dek \<in> set (frees body)" and "R_pk_list \<in> set (frees body)"
    and "\<exists>pkt. R_packet pkt \<in> set (frees body)"
    and "c \<in> set (wrap_codes body @ literal_codes body) \<Longrightarrow> c \<noteq> 0 \<Longrightarrow> rc = c"
    and "- 1 \<in> set (write_codes body) \<Longrightarrow> rc = G10ERR_WRITE_FILE B"
proof -
  show "stream_ops Out body = [if rc \<noteq> 0 then EvCancel Out else EvClose Out]"
    using cb
  proof (cases rule: crypt_body_cases)
    case (failed dek wr)
    then show ?thesis by simp
  next
    case (ok dek wr cz wk)
    note wo = work_obs [OF ok(5)]
    from ok wo(3) show ?thesis by simp
  qed
  show "stream_ops Inp body = [EvClose Inp]"
    using cb
  proof (cases rule: crypt_body_cases)
    case (failed dek wr)
    then show ?thesis by simp
  next
    case (ok dek wr cz wk)
    note wo = work_obs [OF ok(5)]
    from ok wo(3) show ?thesis by simp
  qed
  show "statuses body = (if rc = 0 then [STATUS_END_ENCRYPTION] else [])"
    using cb
  proof (cases rule: crypt_body_cases)
    case (failed dek wr)
    then show ?thesis by simp
  next
    case (ok dek wr cz wk)
    note wo = work_obs [OF ok(5)]
    from ok wo(4) show ?thesis by simp
  qed
  show "R_dek \<in> set (frees body)"
    using cb by (cases rule: crypt_body_cases) simp_all
  show "R_pk_list \<in> set (frees body)"
    using cb by (cases rule: crypt_body_cases) simp_all
  show "\<exists>pkt. R_packet pkt \<in> set (frees body)"
    using cb by (cases rule: crypt_body_cases) auto
  show "rc = c" if c: "c \<in> set (wrap_codes body @ literal_codes body)" "c \<noteq> 0"
    using cb
  proof (cases rule: crypt_body_cases)
    case (failed dek wr)
    with c have "c \<in> set (wrap_codes wr)" by simp
    with failed c show ?thesis by (blast dest: wrap_failed_codes)
  next
    case (ok dek wr cz wk)
    note wo = work_obs [OF ok(5)]
    from c ok wo(2) wo(10) have "c \<in> set (wrap_codes wr) \<or> (\<not> opt_no_literal (w_opt w) \<and> c = rc)"
      by (auto split: if_splits)
    with wrap_ok_codes [OF ok(3)] c(2) show ?thesis by auto
  qed
  show "rc = G10ERR_WRITE_FILE B" if m: "- 1 \<in> set (write_codes body)"
    using cb
  proof (cases rule: crypt_body_cases)
    case (failed dek wr)
    with m show ?thesis by simp
  next
    case (ok dek wr cz wk)
    note wo = work_obs [OF ok(5)]
    from m ok have "- 1 \<in> set (write_codes wk)" by simp
    with wo(11) wo(12) show ?thesis by (cases "opt_no_literal (w_opt w)") auto
  qed
qed

lemma simple_body_cleanup:
  assumes sb: "simple_body B (w_opt w) mode dc dek s2k
       (fst (literal_of B E w filename dc (symkey_packet (w_opt w) dek s2k))) dl rc body"
  shows "stream_ops Out body = [if rc \<noteq> 0 then EvCancel Out else EvClose Out]"
    and "stream_ops Inp body = [EvClose Inp]"
    and "statuses body = (if rc = 0 \<and> mode \<noteq> 0 then [STATUS_END_ENCRYPTION] else [])"
    and "dek \<noteq> None \<Longrightarrow> R_dek \<in> set (frees body)"
    and "s2k \<noteq> None \<Longrightarrow> R_s2k \<in> set (frees body)"
    and "\<exists>pkt. R_packet pkt \<in> set (frees body)"
    and "c \<in> set (literal_codes body) \<Longrightarrow> rc = c"
    and "- 1 \<in> set (write_codes body) \<Longrightarrow> rc = G10ERR_WRITE_FILE B"
proof -
  from sb obtain rc1 wk where
    wk: "is_work B (opt_no_literal (w_opt w))
         (fst (literal_of B E w filename dc (symkey_packet (w_opt w) dek s2k))) rc1 rc wk"
    and b: "body = armor_events B (w_opt w) @
         (if symkey_packet (w_opt w) dek s2k = PKT_NONE then []
          else [EvBuildPacket (symkey_packet (w_opt w) dek s2k) rc1, EvFree R_symkey_enc]) @
         (if mode \<noteq> 0 then [EvPushFilter Out (cipher_filter \<lparr>cfx_dek = dek, cfx_datalen = dl\<rparr>)]
          else []) @
         (if dc then [EvPushFilter Out (compress_filter 0)] else []) @
         wk @ finish_events rc mode
           (fst (literal_of B E w filename dc (symkey_packet (w_opt w) dek s2k)))
           (dek \<noteq> None) (s2k \<noteq> None)"
    by (rule simple_body_cases)
  note wo = work_obs [OF wk]
  have sym: "literal_codes [EvBuildPacket (symkey_packet (w_opt w) dek s2k) rc1] = []"
    using symkey_packet_cases(2) [of "w_opt w" dek s2k]
    by (cases "symkey_packet (w_opt w) dek s2k = PKT_NONE") auto
  show "stream_ops Out body = [if rc \<noteq> 0 then EvCancel Out else EvClose Out]"
    using b wo(3) by simp
  show "stream_ops Inp body = [EvClose Inp]"
    using b wo(3) by simp
  show "statuses body = (if rc = 0 \<and> mode \<noteq> 0 then [STATUS_END_ENCRYPTION] else [])"
    using b wo(4) by simp
  show "dek \<noteq> None \<Longrightarrow> R_dek \<in> set (frees body)"
    using b by simp
  show "s2k \<noteq> None \<Longrightarrow> R_s2k \<in> set (frees body)"
    using b by simp
  show "\<exists>pkt. R_packet pkt \<in> set (frees body)"
    using b by auto
  show "c \<in> set (literal_codes body) \<Longrightarrow> rc = c"
    using b wo(10) sym by (auto split: if_splits)
  show "rc = G10ERR_WRITE_FILE B" if m: "- 1 \<in> set (write_codes body)"
  proof -
    from m b have "- 1 \<in> set (write_codes wk)" by (auto split: if_splits)
    with wo(11) wo(12) show ?thesis by (cases "opt_no_literal (w_opt w)") auto
  qed
qed

lemma crypt_body_deks:
  assumes cb: "crypt_body B (w_opt w) pk_list (fst (literal_of B E w filename dc PKT_NONE)) dl rc body"
  shows "\<exists>dek. session_keys body = [dek] \<and> is_crypt_dek B (w_opt w) pk_list dek \<and>
     (cipher_pushes body = [] \<or> cipher_pushes body = [\<lparr>cfx_dek = Some dek, cfx_datalen = dl\<rparr>])"
  using cb
proof (cases rule: crypt_body_cases)
  case (failed dek wr)
  then show ?thesis by simp
next
  case (ok dek wr cz wk)
  note wo = work_obs [OF ok(5)]
  from ok wo(6) wo(7) show ?thesis by simp
qed

lemma crypt_run_deks:
  assumes run: "encode_crypt B E filename remusr w = (rc, w')"
  shows "(session_keys (events_of w w') = [] \<and> cipher_pushes (events_of w w') = []) \<or>
    (\<exists>dek. session_keys (events_of w w') = [dek] \<and>
       is_crypt_dek B (w_opt w) (snd (build_pk_list E remusr)) dek \<and>
       (cipher_pushes (events_of w w') = [] \<or>
        (\<exists>dl. cipher_pushes (events_of w w') = [\<lparr>cfx_dek = Some dek, cfx_datalen = dl\<rparr>])))"
proof -
  from encode_crypt_run [OF run] obtain evs where
    t: "trace w' = trace w @ evs" and ce: "crypt_events B E filename remusr w rc evs"
    by blast
  from t have ev: "events_of w w' = evs" by (rule events_of_eq)
  from ce have "(session_keys evs = [] \<and> cipher_pushes evs = []) \<or>
    (\<exists>dek. session_keys evs = [dek] \<and>
       is_crypt_dek B (w_opt w) (snd (build_pk_list E remusr)) dek \<and>
       (cipher_pushes evs = [] \<or>
        (\<exists>dl. cipher_pushes evs = [\<lparr>cfx_dek = Some dek, cfx_datalen = dl\<rparr>])))"
  proof (cases rule: crypt_events_cases)
    case (body b)
    from crypt_body_deks [OF body(6)] obtain dek where
      "session_keys b = [dek]" "is_crypt_dek B (w_opt w) (snd (build_pk_list E remusr)) dek"
      "cipher_pushes b = [] \<or> cipher_pushes b = [\<lparr>cfx_dek = Some dek,
          cfx_datalen = snd (literal_of B E w filename (do_compress_of E (w_opt w) filename) PKT_NONE)\<rparr>]"
      by blast
    with body(5) show ?thesis by auto
  qed simp_all
  with ev show ?thesis by simp
qed

lemma filter_session_key_dek:
  "dek_use_mdc (fst (filter_session_key B E pk_list w)) = select_mdc_from_pklist pk_list"
  "dek_algo (fst (filter_session_key B E pk_list w)) = filter_algo B (w_opt w) pk_list"
  by (simp_all add: filter_session_key_def filter_algo_def make_session_key_def Let_def)

lemma encrypt_filter_flush_dek:
  "\<not> efx_header_okay efx \<Longrightarrow>
   cfx_dek (efx_cfx (r_efx (encrypt_filter_flush B E efx buf w))) =
     Some (fst (filter_session_key B E (efx_pk_list efx) w))"
  by (simp add: encrypt_filter_flush_def Let_def split_beta)

lemma select_algo_common:
  assumes "select_algo_from_prefs pk_list t \<noteq> - 1"
  shows "common_pref t pk_list (select_algo_from_prefs pk_list t) \<and>
    (\<exists>pre post. pk_prefs t (hd pk_list) = pre @ select_algo_from_prefs pk_list t # post \<and>
       (\<forall>a \<in> set pre. \<not> common_pref t pk_list a))"
proof (cases pk_list)
  case Nil
  with assms show ?thesis by (simp add: select_algo_from_prefs_def)
next
  case (Cons pk rest)
  let ?P = "\<lambda>a. list_all (\<lambda>q. a \<in> set (pk_prefs t q)) rest"
  show ?thesis
  proof (cases "filter ?P (pk_prefs t pk)")
    case Nil
    with assms Cons show ?thesis by (simp add: select_algo_from_prefs_def)
  next
    case (Cons a ys)
    then obtain us vs where s: "pk_prefs t pk = us @ a # vs" and u: "\<forall>u \<in> set us. \<not> ?P u"
      and a: "?P a"
      by (auto simp: filter_eq_Cons_iff)
    have sel: "select_algo_from_prefs pk_list t = a"
      using Cons \<open>pk_list = pk # rest\<close> by (simp add: select_algo_from_prefs_def)
    have "common_pref t pk_list a"
      using s a \<open>pk_list = pk # rest\<close> by (simp add: common_pref_def)
    moreover have "\<forall>b \<in> set us. \<not> common_pref t pk_list b"
      using u \<open>pk_list = pk # rest\<close> by (simp add: common_pref_def)
    ultimately show ?thesis using s sel \<open>pk_list = pk # rest\<close> by auto
  qed
qed

lemma select_algo_none:
  assumes "\<forall>a. \<not> common_pref t pk_list a"
  shows "select_algo_from_prefs pk_list t = - 1"
proof (cases pk_list)
  case Nil
  then show ?thesis by (simp add: select_algo_from_prefs_def)
next
  case (Cons pk rest)
  have "filter (\<lambda>a. list_all (\<lambda>q. a \<in> set (pk_prefs t q)) rest) (pk_prefs t pk) = []"
    using assms Cons by (auto simp: common_pref_def filter_empty_conv)
  with Cons show ?thesis by (simp add: select_algo_from_prefs_def)
qed

lemma pgp2_check_list_fires:
  "pk \<in> set pk_list \<Longrightarrow> \<not> (is_RSA E (pk_pubkey_algo pk) \<and> pk_nbits pk \<le> 2048) \<Longrightarrow>
   \<not> opt_pgp2 (w_opt (pgp2_check_list E pk_list w)) \<and>
   logs (pgp2_check_list E pk_list w) = logs w @
     [LogInfo ''you can only encrypt to RSA keys of 2048 bits or less in --pgp2 mode'',
      LogInfo ''this message may not be usable by PGP 2.x'']"
  by (induction pk_list) (auto simp: log_msg_def)

lemma encode_crypt_open_log: "log_ext w (snd (encode_crypt_open B E filename pk_list w))"
proof -
  have 1: "\<And>rc inp out pkt dek v. log_ext w v \<Longrightarrow> log_ext w (snd (encode_crypt_leave rc inp out pkt dek v))"
    by (erule log_ext_trans) (rule encode_crypt_leave_log)
  have 2: "\<And>dc v. log_ext w v \<Longrightarrow> log_ext w (snd (encode_crypt_out B E filename pk_list dc v))"
    by (erule log_ext_trans) (rule encode_crypt_out_log)
  show ?thesis
    unfolding encode_crypt_open_def Let_def
    by (simp add: 1 2 log_ext_intros)
qed

lemma encode_crypt_open_pgp2:
  "opt_pgp2 (w_opt (snd (encode_crypt_open B E filename pk_list w))) \<Longrightarrow> opt_pgp2 (w_opt w)"
  unfolding encode_crypt_open_def Let_def
  by (auto split: if_splits dest: encode_crypt_out_pgp2)

lemma wrap_failed_member: "wrap_failed pk_list rc wr \<Longrightarrow> rc \<in> set (wrap_codes wr)"
  by (auto simp: wrap_failed_def)

lemma crypt_body_blame:
  assumes cb: "crypt_body B (w_opt w) pk_list (fst (literal_of B E w filename dc PKT_NONE)) dl rc body"
  shows "rc \<noteq> 0 \<Longrightarrow> rc \<in> set (wrap_codes body) \<or> rc \<in> set (literal_codes body) \<or>
           (- 1 \<in> set (write_codes body) \<and> rc = G10ERR_WRITE_FILE B)"
    and "rc = 0 \<Longrightarrow> wrapped body = pk_list"
proof -
  show "rc \<in> set (wrap_codes body) \<or> rc \<in> set (literal_codes body) \<or>
           (- 1 \<in> set (write_codes body) \<and> rc = G10ERR_WRITE_FILE B)" if nz: "rc \<noteq> 0"
    using cb
  proof (cases rule: crypt_body_cases)
    case (failed dek wr)
    from wrap_failed_member [OF failed(4)] failed(5) show ?thesis by simp
  next
    case (ok dek wr cz wk)
    note wo = work_obs [OF ok(5)]
    show ?thesis
    proof (cases "opt_no_literal (w_opt w)")
      case True
      with wo(12) nz have "- 1 \<in> set (write_codes wk) \<and> rc = G10ERR_WRITE_FILE B"
        by (auto split: if_splits)
      with ok(6) show ?thesis by simp
    next
      case False
      with wo(10) have "rc \<in> set (literal_codes wk)" by simp
      with ok(6) show ?thesis by simp
    qed
  qed
  show "wrapped body = pk_list" if z: "rc = 0"
    using cb
  proof (cases rule: crypt_body_cases)
    case (failed dek wr)
    with z show ?thesis by simp
  next
    case (ok dek wr cz wk)
    note wo = work_obs [OF ok(5)]
    from ok wo(8) show ?thesis by (simp add: wrap_ok_def)
  qed
qed

lemma failed_wraps_simps [simp]:
  "failed_wraps [] = 0" "failed_wraps (xs @ ys) = failed_wraps xs + failed_wraps ys"
  by (simp_all add: failed_wraps_def)

lemma failed_wraps_Cons:
  "failed_wraps (e # es) = failed_wraps [e] + failed_wraps es"
  by (simp add: failed_wraps_def)

lemma failed_wraps_session_key [simp]: "failed_wraps [EvMakeSessionKey dek] = 0"
  and failed_wraps_push [simp]: "failed_wraps [EvPushFilter s f] = 0"
  by (simp_all add: failed_wraps_def)

lemma failed_wraps_writes [simp]: "list_all is_write_event evs \<Longrightarrow> failed_wraps evs = 0"
  by (simp add: failed_wraps_def)

lemma failed_wraps_ok [simp]: "wrap_ok pk_list wr \<Longrightarrow> failed_wraps wr = 0"
  by (simp add: failed_wraps_def wrap_ok_def list_all_iff)

lemma failed_wraps_failed: "wrap_failed pk_list rc wr \<Longrightarrow> rc \<noteq> 0 \<Longrightarrow> failed_wraps wr = 1"
  by (auto simp: failed_wraps_def wrap_failed_def list_all_iff)

lemma filter_session_key_trace:
  "trace (snd (filter_session_key B E pk_list w)) =
     trace w @ [EvMakeSessionKey (fst (filter_session_key B E pk_list w))]"
  "w_opt (snd (filter_session_key B E pk_list w)) = w_opt w"
  by (simp_all add: filter_session_key_def Let_def)

lemma encrypt_filter_flush_ready:
  "efx_header_okay efx \<Longrightarrow>
   r_efx (encrypt_filter_flush B E efx buf w) = efx \<and>
   trace (r_world (encrypt_filter_flush B E efx buf w)) =
     trace w @ [EvWrite buf (r_rc (encrypt_filter_flush B E efx buf w))]"
  by (simp add: encrypt_filter_flush_def Let_def)

lemma encrypt_filter_flush_run:
  assumes h: "\<not> efx_header_okay efx" and r: "r = encrypt_filter_flush B E efx buf w"
  obtains (failed) dek wr where "r_rc r \<noteq> 0"
      "trace (r_world r) = trace w @ EvMakeSessionKey dek # wr"
      "list_all is_wrap_event wr" "wrap_failed (efx_pk_list efx) (r_rc r) wr"
      "\<not> efx_header_okay (r_efx r)" "efx_pk_list (r_efx r) = efx_pk_list efx"
  | (ok) dek wr cfx where
      "trace (r_world r) =
         trace w @ EvMakeSessionKey dek # wr @ [EvPushFilter Out (cipher_filter cfx), EvWrite buf (r_rc r)]"
      "list_all is_wrap_event wr" "wrap_ok (efx_pk_list efx) wr" "cfx_dek cfx = Some dek"
      "efx_header_okay (r_efx r)" "efx_pk_list (r_efx r) = efx_pk_list efx"
proof -
  define dek where "dek = fst (filter_session_key B E (efx_pk_list efx) w)"
  define w1 where "w1 = snd (filter_session_key B E (efx_pk_list efx) w)"
  define rc where "rc = fst (write_pubkey_enc_from_list E (efx_pk_list efx) dek w1)"
  define w2 where "w2 = snd (write_pubkey_enc_from_list E (efx_pk_list efx) dek w1)"
  define cfx where "cfx = (efx_cfx efx)\<lparr>cfx_dek := Some dek\<rparr>"
  have t1: "trace w1 = trace w @ [EvMakeSessionKey dek]"
    unfolding w1_def dek_def by (rule filter_session_key_trace)
  have "write_pubkey_enc_from_list E (efx_pk_list efx) dek w1 = (rc, w2)"
    by (simp add: rc_def w2_def)
  from wpe_list_events [OF this] obtain wr where
    t2: "trace w2 = trace w1 @ wr" and we: "list_all is_wrap_event wr"
    and c: "if rc = 0 then wrap_ok (efx_pk_list efx) wr else wrap_failed (efx_pk_list efx) rc wr"
    by blast
  show ?thesis
  proof (cases "rc = 0")
    case False
    with h have eq: "r = \<lparr>r_rc = rc, r_desc = None, r_efx = efx\<lparr>efx_cfx := cfx\<rparr>, r_world = w2\<rparr>"
      unfolding r encrypt_filter_flush_def
      by (simp add: Let_def split_beta rc_def w2_def dek_def w1_def cfx_def)
    show ?thesis
    proof (rule failed [of dek wr])
      show "r_rc r \<noteq> 0" using False eq by simp
      show "trace (r_world r) = trace w @ EvMakeSessionKey dek # wr" using eq t1 t2 by simp
      show "list_all is_wrap_event wr" by (rule we)
      show "wrap_failed (efx_pk_list efx) (r_rc r) wr" using c False eq by simp
      show "\<not> efx_header_okay (r_efx r)" using h eq by simp
      show "efx_pk_list (r_efx r) = efx_pk_list efx" using eq by simp
    qed
  next
    case True
    define w3 where "w3 = emit (EvPushFilter Out (cipher_filter cfx)) w2"
    define rc' where "rc' = iobuf_write E (trace w3) buf"
    from True h have eq: "r = \<lparr>r_rc = rc', r_desc = None,
        r_efx = efx\<lparr>efx_cfx := cfx, efx_header_okay := True\<rparr>, r_world = emit (EvWrite buf rc') w3\<rparr>"
      unfolding r encrypt_filter_flush_def
      by (simp add: Let_def split_beta rc_def w2_def dek_def w1_def cfx_def w3_def rc'_def)
    show ?thesis
    proof (rule ok [of dek wr cfx])
      show "trace (r_world r) =
         trace w @ EvMakeSessionKey dek # wr @ [EvPushFilter Out (cipher_filter cfx), EvWrite buf (r_rc r)]"
        using eq t1 t2 by (simp add: w3_def)
      show "list_all is_wrap_event wr" by (rule we)
      show "wrap_ok (efx_pk_list efx) wr" using c True by simp
      show "cfx_dek cfx = Some dek" by (simp add: cfx_def)
      show "efx_header_okay (r_efx r)" using eq by simp
      show "efx_pk_list (r_efx r) = efx_pk_list efx" using eq by simp
    qed
  qed
qed

lemma flush_all_Cons:
  assumes "flush_all B E (buf # bufs) efx w = (rcs, efx', w')"
    and "r = encrypt_filter_flush B E efx buf w"
  obtains rcs2 where "rcs = r_rc r # rcs2" "flush_all B E bufs (r_efx r) (r_world r) = (rcs2, efx', w')"
proof -
  obtain rcs2 efx2 w2 where f: "flush_all B E bufs (r_efx r) (r_world r) = (rcs2, efx2, w2)"
    by (cases "flush_all B E bufs (r_efx r) (r_world r)")
  with assms have "rcs = r_rc r # rcs2" "efx' = efx2" "w' = w2"
    by (simp_all add: encrypt_filter_def)
  with f that show ?thesis by simp
qed

lemma flush_all_ready:
  "efx_header_okay efx \<Longrightarrow> flush_all B E bufs efx w = (rcs, efx', w') \<Longrightarrow>
   length rcs = length bufs \<and> efx' = efx \<and>
   (\<exists>post. trace w' = trace w @ post \<and> list_all is_write_event post \<and> written post = bufs)"
proof (induction bufs arbitrary: w rcs)
  case Nil
  then show ?case by simp
next
  case (Cons buf bufs)
  define r where "r = encrypt_filter_flush B E efx buf w"
  from encrypt_filter_flush_ready [OF Cons.prems(1), of B E buf w]
  have re: "r_efx r = efx" and rt: "trace (r_world r) = trace w @ [EvWrite buf (r_rc r)]"
    by (simp_all add: r_def)
  from Cons.prems(2) r_def obtain rcs2 where
    eq: "rcs = r_rc r # rcs2" and f: "flush_all B E bufs (r_efx r) (r_world r) = (rcs2, efx', w')"
    by (rule flush_all_Cons)
  from f re have "flush_all B E bufs efx (r_world r) = (rcs2, efx', w')" by simp
  from Cons.IH [OF Cons.prems(1) this] obtain post where
    l: "length rcs2 = length bufs" and e: "efx' = efx"
    and p: "trace w' = trace (r_world r) @ post" "list_all is_write_event post" "written post = bufs"
    by blast
  from p rt have "trace w' = trace w @ (EvWrite buf (r_rc r) # post) \<and>
      list_all is_write_event (EvWrite buf (r_rc r) # post) \<and>
      written (EvWrite buf (r_rc r) # post) = buf # bufs"
    by simp
  then have "\<exists>post. trace w' = trace w @ post \<and> list_all is_write_event post \<and>
      written post = buf # bufs" by (rule exI)
  with l e eq show ?case by simp
qed

lemma flush_all_run:
  "\<not> efx_header_okay efx \<Longrightarrow> flush_all B E bufs efx w = (rcs, efx', w') \<Longrightarrow>
   length rcs = length bufs \<and>
   (\<exists>fails rest. trace w' = trace w @ fails @ rest \<and>
      failed_wraps fails \<le> length bufs \<and>
      length (session_keys fails) = failed_wraps fails \<and>
      cipher_pushes fails = [] \<and> written fails = [] \<and>
      (if failed_wraps fails = length bufs then rest = []
       else \<exists>dek wr cfx post.
          rest = EvMakeSessionKey dek # wr @ EvPushFilter Out (cipher_filter cfx) # post \<and>
          list_all is_wrap_event wr \<and> wrap_ok (efx_pk_list efx) wr \<and> cfx_dek cfx = Some dek \<and>
          list_all is_write_event post \<and> written post = drop (failed_wraps fails) bufs))"
proof (induction bufs arbitrary: efx w rcs)
  case Nil
  then have "trace w' = trace w @ [] @ []" by simp
  with Nil show ?case by (intro conjI exI [of _ "[]"]) simp_all
next
  case (Cons buf bufs)
  define r where "r = encrypt_filter_flush B E efx buf w"
  from Cons.prems(2) r_def obtain rcs2 where
    eq: "rcs = r_rc r # rcs2" and f: "flush_all B E bufs (r_efx r) (r_world r) = (rcs2, efx', w')"
    by (rule flush_all_Cons)
  from Cons.prems(1) r_def show ?case
  proof (cases rule: encrypt_filter_flush_run)
    case (failed dek wr)
    from Cons.IH [OF failed(5) f, unfolded failed(6)] obtain fails rest where
      l: "length rcs2 = length bufs"
      and t: "trace w' = trace (r_world r) @ fails @ rest"
      and n: "failed_wraps fails \<le> length bufs"
      and k: "length (session_keys fails) = failed_wraps fails"
      and c: "cipher_pushes fails = []" and wn: "written fails = []"
      and s: "if failed_wraps fails = length bufs then rest = []
       else \<exists>dek wr cfx post.
          rest = EvMakeSessionKey dek # wr @ EvPushFilter Out (cipher_filter cfx) # post \<and>
          list_all is_wrap_event wr \<and> wrap_ok (efx_pk_list efx) wr \<and> cfx_dek cfx = Some dek \<and>
          list_all is_write_event post \<and> written post = drop (failed_wraps fails) bufs"
      by blast
    let ?fails = "(EvMakeSessionKey dek # wr) @ fails"
    have fw: "failed_wraps ?fails = Suc (failed_wraps fails)"
      using failed_wraps_failed [OF failed(4) failed(1)]
      by (simp add: failed_wraps_Cons [of "EvMakeSessionKey dek"])
    have 1: "trace w' = trace w @ ?fails @ rest" using t failed(2) by simp
    have 2: "failed_wraps ?fails \<le> length (buf # bufs)" using fw n by simp
    have 3: "length (session_keys ?fails) = failed_wraps ?fails"
      using fw k failed(3) by simp
    have 4: "cipher_pushes ?fails = []" using c failed(3) by simp
    have 5: "written ?fails = []" using wn failed(3) by simp
    have 6: "if failed_wraps ?fails = length (buf # bufs) then rest = []
       else \<exists>dek wr cfx post.
          rest = EvMakeSessionKey dek # wr @ EvPushFilter Out (cipher_filter cfx) # post \<and>
          list_all is_wrap_event wr \<and> wrap_ok (efx_pk_list efx) wr \<and> cfx_dek cfx = Some dek \<and>
          list_all is_write_event post \<and> written post = drop (failed_wraps ?fails) (buf # bufs)"
      using s unfolding fw by simp
    from 1 2 3 4 5 6 have "\<exists>fails rest. trace w' = trace w @ fails @ rest \<and>
      failed_wraps fails \<le> length (buf # bufs) \<and>
      length (session_keys fails) = failed_wraps fails \<and>
      cipher_pushes fails = [] \<and> written fails = [] \<and>
      (if failed_wraps fails = length (buf # bufs) then rest = []
       else \<exists>dek wr cfx post.
          rest = EvMakeSessionKey dek # wr @ EvPushFilter Out (cipher_filter cfx) # post \<and>
          list_all is_wrap_event wr \<and> wrap_ok (efx_pk_list efx) wr \<and> cfx_dek cfx = Some dek \<and>
          list_all is_write_event post \<and> written post = drop (failed_wraps fails) (buf # bufs))"
      by blast
    with l eq show ?thesis by simp
  next
    case (ok dek wr cfx)
    from flush_all_ready [OF ok(5) f] obtain post where
      l: "length rcs2 = length bufs"
      and p: "trace w' = trace (r_world r) @ post" "list_all is_write_event post" "written post = bufs"
      by blast
    let ?post = "EvWrite buf (r_rc r) # post"
    let ?rest = "EvMakeSessionKey dek # wr @ EvPushFilter Out (cipher_filter cfx) # ?post"
    have 1: "trace w' = trace w @ [] @ ?rest" using p(1) ok(1) by simp
    have 6: "\<exists>dek' wr' cfx' post'.
          ?rest = EvMakeSessionKey dek' # wr' @ EvPushFilter Out (cipher_filter cfx') # post' \<and>
          list_all is_wrap_event wr' \<and> wrap_ok (efx_pk_list efx) wr' \<and> cfx_dek cfx' = Some dek' \<and>
          list_all is_write_event post' \<and> written post' = drop (failed_wraps []) (buf # bufs)"
      using ok(2,3,4) p(2,3)
      by (intro exI [of _ dek] exI [of _ wr] exI [of _ cfx] exI [of _ ?post]) simp
    have "trace w' = trace w @ [] @ ?rest \<and>
      failed_wraps [] \<le> length (buf # bufs) \<and>
      length (session_keys []) = failed_wraps [] \<and>
      cipher_pushes [] = [] \<and> written [] = [] \<and>
      (if failed_wraps [] = length (buf # bufs) then ?rest = []
       else \<exists>dek' wr' cfx' post'.
          ?rest = EvMakeSessionKey dek' # wr' @ EvPushFilter Out (cipher_filter cfx') # post' \<and>
          list_all is_wrap_event wr' \<and> wrap_ok (efx_pk_list efx) wr' \<and> cfx_dek cfx' = Some dek' \<and>
          list_all is_write_event post' \<and> written post' = drop (failed_wraps []) (buf # bufs))"
      using 1 6 by simp
    then have "\<exists>fails rest. trace w' = trace w @ fails @ rest \<and>
      failed_wraps fails \<le> length (buf # bufs) \<and>
      length (session_keys fails) = failed_wraps fails \<and>
      cipher_pushes fails = [] \<and> written fails = [] \<and>
      (if failed_wraps fails = length (buf # bufs) then rest = []
       else \<exists>dek wr cfx post.
          rest = EvMakeSessionKey dek # wr @ EvPushFilter Out (cipher_filter cfx) # post \<and>
          list_all is_wrap_event wr \<and> wrap_ok (efx_pk_list efx) wr \<and> cfx_dek cfx = Some dek \<and>
          list_all is_write_event post \<and> written post = drop (failed_wraps fails) (buf # bufs))"
      by (intro exI [of _ "[]"] exI [of _ ?rest])
    with l eq show ?thesis by simp
  qed
qed

lemma failed_wraps_rest:
  "wrap_ok pk_list wr \<Longrightarrow> list_all is_write_event post \<Longrightarrow>
   failed_wraps (EvMakeSessionKey dek # wr @ EvPushFilter s f # post) = 0"
  by (simp add: failed_wraps_def wrap_ok_def list_all_iff)

lemmas filter_defs = efx_ex_def encrypt_filter_def encrypt_filter_flush_def filter_session_key_def
  make_session_key_def select_algo_from_prefs_def select_mdc_from_pklist_def pk_prefs_def
  write_pubkey_enc_def Let_def log_when_def log_msg_def log_all_def emit_def

section \<open>The claims\<close>

text \<open>
  C1. write_pubkey_enc_from_list goes through the recipients in list order. When it returns
  0 the key was wrapped for every recipient, in order, and one public-key session-key
  packet was written for each. When it returns a code other than 0, that code is the one
  of the first call (pubkey_encrypt or build_packet) that failed: every call before it
  returned 0, the packets of the recipients before the failing one were written, and no
  later recipient was touched. In encode_crypt a failed key wrap or packet build makes the
  function return that code with the output stream opened and then cancelled, never
  closed.
\<close>

theorem wrap_order_and_abort:
  "(write_pubkey_enc_from_list E pk_list dek w = (rc, w') \<longrightarrow>
      (\<exists>evs. trace w' = trace w @ evs \<and> list_all is_wrap_event evs \<and>
         (if rc = 0 then wrap_ok pk_list evs else wrap_failed pk_list rc evs))) \<and>
   (encode_crypt B E filename remusr v = (rc', v') \<and>
    c \<in> set (wrap_codes (events_of v v')) \<and> c \<noteq> 0 \<longrightarrow>
      rc' = c \<and> stream_ops Out (events_of v v') = [EvOpen Out, EvCancel Out])"
proof -
  have loop: "write_pubkey_enc_from_list E pk_list dek w = (rc, w') \<longrightarrow>
      (\<exists>evs. trace w' = trace w @ evs \<and> list_all is_wrap_event evs \<and>
         (if rc = 0 then wrap_ok pk_list evs else wrap_failed pk_list rc evs))"
  proof
    assume "write_pubkey_enc_from_list E pk_list dek w = (rc, w')"
    from wpe_list_events [OF this]
    show "\<exists>evs. trace w' = trace w @ evs \<and> list_all is_wrap_event evs \<and>
         (if rc = 0 then wrap_ok pk_list evs else wrap_failed pk_list rc evs)"
      by blast
  qed
  have abort: "encode_crypt B E filename remusr v = (rc', v') \<and>
    c \<in> set (wrap_codes (events_of v v')) \<and> c \<noteq> 0 \<longrightarrow>
      rc' = c \<and> stream_ops Out (events_of v v') = [EvOpen Out, EvCancel Out]"
  proof
    assume a: "encode_crypt B E filename remusr v = (rc', v') \<and>
      c \<in> set (wrap_codes (events_of v v')) \<and> c \<noteq> 0"
    then have run: "encode_crypt B E filename remusr v = (rc', v')" by simp
    from encode_crypt_run [OF run] obtain evs where
      t: "trace v' = trace v @ evs" and ce: "crypt_events B E filename remusr v rc' evs"
      by blast
    from t have ev: "events_of v v' = evs" by (rule events_of_eq)
    with a have c: "c \<in> set (wrap_codes evs)" "c \<noteq> 0" by simp_all
    from ce c obtain body where b: "evs = open_events (w_opt v) @ EvOpen Out # body"
      and cb: "crypt_body B (w_opt v) (snd (build_pk_list E remusr))
            (fst (literal_of B E v filename (do_compress_of E (w_opt v) filename) PKT_NONE))
            (snd (literal_of B E v filename (do_compress_of E (w_opt v) filename) PKT_NONE))
            rc' body"
      unfolding crypt_events_def by auto
    from c b have "c \<in> set (wrap_codes body)" by simp
    from crypt_body_wrap_failure [OF cb this c(2)] b ev
    show "rc' = c \<and> stream_ops Out (events_of v v') = [EvOpen Out, EvCancel Out]"
      by simp
  qed
  from loop abort show ?thesis by (rule conjI)
qed


theorem wrap_order_and_abort_witness:
  "fst (write_pubkey_enc_from_list (env_ex (\<lambda>a. if a = 16 then 7 else 0) (\<lambda>p. 0) (\<lambda>b. 0) (\<lambda>a. None) 10 [pk_rsa, pk_elg, pk_rsa])
          [pk_rsa, pk_elg, pk_rsa] dek_ex (world_ex opt_ex)) = 7 \<and>
   wrap_failed [pk_rsa, pk_elg, pk_rsa] 7
     (trace (snd (write_pubkey_enc_from_list (env_ex (\<lambda>a. if a = 16 then 7 else 0) (\<lambda>p. 0) (\<lambda>b. 0) (\<lambda>a. None) 10 [pk_rsa, pk_elg, pk_rsa])
          [pk_rsa, pk_elg, pk_rsa] dek_ex (world_ex opt_ex)))) \<and>
   wrapped (trace (snd (write_pubkey_enc_from_list (env_ex (\<lambda>a. if a = 16 then 7 else 0) (\<lambda>p. 0) (\<lambda>b. 0) (\<lambda>a. None) 10 [pk_rsa, pk_elg, pk_rsa])
          [pk_rsa, pk_elg, pk_rsa] dek_ex (world_ex opt_ex)))) = [pk_rsa, pk_elg] \<and>
   fst (encode_crypt build_ex (env_ex (\<lambda>a. if a = 16 then 7 else 0) (\<lambda>p. 0) (\<lambda>b. 0) (\<lambda>a. None) 10 [pk_rsa, pk_elg, pk_rsa])
          (Some ''f'') [''alice''] (world_ex opt_ex)) = 7 \<and>
   stream_ops Out (trace (snd (encode_crypt build_ex
          (env_ex (\<lambda>a. if a = 16 then 7 else 0) (\<lambda>p. 0) (\<lambda>b. 0) (\<lambda>a. None) 10 [pk_rsa, pk_elg, pk_rsa])
          (Some ''f'') [''alice''] (world_ex opt_ex)))) = [EvOpen Out, EvCancel Out]"
proof -
  let ?E = "env_ex (\<lambda>a. if a = 16 then 7 else 0) (\<lambda>p. 0) (\<lambda>b. 0) (\<lambda>a. None) 10 [pk_rsa, pk_elg, pk_rsa]"
  let ?r = "write_pubkey_enc_from_list ?E [pk_rsa, pk_elg, pk_rsa] dek_ex (world_ex opt_ex)"
  let ?c = "encode_crypt build_ex ?E (Some ''f'') [''alice''] (world_ex opt_ex)"
  have t0: "trace (world_ex opt_ex) = []" by (simp add: world_ex_def)
  have r: "fst ?r = 7"
    by (simp add: run_defs ex_defs Let_def)
  have w: "wrapped (trace (snd ?r)) = [pk_rsa, pk_elg]"
    by (simp add: run_defs ex_defs Let_def)
  have c: "fst ?c = 7"
    by (simp add: run_defs ex_defs Let_def)
  have m: "7 \<in> set (wrap_codes (events_of (world_ex opt_ex) (snd ?c)))"
    by (simp add: events_of_def run_defs ex_defs Let_def)
  have e1: "?r = (7, snd ?r)" using r by (metis prod.collapse)
  have e2: "?c = (7, snd ?c)" using c by (metis prod.collapse)
  from wrap_order_and_abort [where E = ?E and pk_list = "[pk_rsa, pk_elg, pk_rsa]" and dek = dek_ex
       and w = "world_ex opt_ex" and rc = 7 and w' = "snd ?r" and B = build_ex
       and filename = "Some ''f''" and remusr = "[''alice'']" and v = "world_ex opt_ex"
       and rc' = 7 and v' = "snd ?c" and c = 7] e1 e2 m
  have "\<exists>evs. trace (snd ?r) = trace (world_ex opt_ex) @ evs \<and> list_all is_wrap_event evs \<and>
          wrap_failed [pk_rsa, pk_elg, pk_rsa] 7 evs"
    and "stream_ops Out (events_of (world_ex opt_ex) (snd ?c)) = [EvOpen Out, EvCancel Out]"
    by simp_all
  then have "wrap_failed [pk_rsa, pk_elg, pk_rsa] 7 (trace (snd ?r))"
    and "stream_ops Out (trace (snd ?c)) = [EvOpen Out, EvCancel Out]"
    using t0 by (auto simp: events_of_def)
  with r w c show ?thesis by simp
qed

text \<open>
  C8. In symmetric mode (\<open>mode \<noteq> 0\<close>), once the input is open, if passphrase_to_dek
  returns no DEK or a DEK of key length 0, encode_simple returns G10ERR_PASSPHRASE. What
  it did is exactly: open the input (with the text filter in text mode), free the DEK if
  there is one, free the S2K block, close the input. The output is never opened and
  nothing is written.
\<close>

theorem no_key_from_passphrase:
  "mode \<noteq> 0 \<and> snd (is_file_compressed E filename) = 0 \<and> iobuf_open E filename \<and>
   no_key (fst (get_passphrase_dek E (w_opt w))) \<and>
   encode_simple B E filename mode w = (rc, w') \<longrightarrow>
     rc = G10ERR_PASSPHRASE B \<and>
     events_of w w' = open_events (w_opt w) @
        (if fst (get_passphrase_dek E (w_opt w)) \<noteq> None then [EvFree R_dek] else []) @
        [EvFree R_s2k, EvClose Inp] \<and>
     stream_ops Inp (events_of w w') = [EvOpen Inp, EvClose Inp] \<and>
     stream_ops Out (events_of w w') = [] \<and> out_data (events_of w w') = []"
proof
  assume a: "mode \<noteq> 0 \<and> snd (is_file_compressed E filename) = 0 \<and> iobuf_open E filename \<and>
   no_key (fst (get_passphrase_dek E (w_opt w))) \<and>
   encode_simple B E filename mode w = (rc, w')"
  then have run: "encode_simple B E filename mode w = (rc, w')" by simp
  from encode_simple_run [OF run] obtain evs where
    t: "trace w' = trace w @ evs" and se: "simple_events B E filename mode w rc evs"
    by blast
  from t have ev: "events_of w w' = evs" by (rule events_of_eq)
  from se have "rc = G10ERR_PASSPHRASE B \<and>
     evs = open_events (w_opt w) @
        (if fst (get_passphrase_dek E (w_opt w)) \<noteq> None then [EvFree R_dek] else []) @
        [EvFree R_s2k, EvClose Inp]"
    using a by (cases rule: simple_events_cases) simp_all
  with ev show "rc = G10ERR_PASSPHRASE B \<and>
     events_of w w' = open_events (w_opt w) @
        (if fst (get_passphrase_dek E (w_opt w)) \<noteq> None then [EvFree R_dek] else []) @
        [EvFree R_s2k, EvClose Inp] \<and>
     stream_ops Inp (events_of w w') = [EvOpen Inp, EvClose Inp] \<and>
     stream_ops Out (events_of w w') = [] \<and> out_data (events_of w w') = []"
    by simp
qed

theorem no_key_from_passphrase_witness:
  "no_key (fst (get_passphrase_dek (env_ex (\<lambda>a. 0) (\<lambda>p. 0) (\<lambda>b. 0) (\<lambda>a. Some (dek_ex\<lparr>dek_keylen := 0\<rparr>)) 10 [])
      (w_opt (world_ex opt_ex)))) \<and>
   fst (encode_simple build_ex (env_ex (\<lambda>a. 0) (\<lambda>p. 0) (\<lambda>b. 0) (\<lambda>a. Some (dek_ex\<lparr>dek_keylen := 0\<rparr>)) 10 [])
      (Some ''f'') 1 (world_ex opt_ex)) = 26 \<and>
   trace (snd (encode_simple build_ex (env_ex (\<lambda>a. 0) (\<lambda>p. 0) (\<lambda>b. 0) (\<lambda>a. Some (dek_ex\<lparr>dek_keylen := 0\<rparr>)) 10 [])
      (Some ''f'') 1 (world_ex opt_ex))) = [EvOpen Inp, EvFree R_dek, EvFree R_s2k, EvClose Inp]"
proof -
  let ?E = "env_ex (\<lambda>a. 0) (\<lambda>p. 0) (\<lambda>b. 0) (\<lambda>a. Some (dek_ex\<lparr>dek_keylen := 0\<rparr>)) 10 []"
  let ?r = "encode_simple build_ex ?E (Some ''f'') 1 (world_ex opt_ex)"
  have h: "(1::int) \<noteq> 0 \<and> snd (is_file_compressed ?E (Some ''f'')) = 0 \<and> iobuf_open ?E (Some ''f'') \<and>
    no_key (fst (get_passphrase_dek ?E (w_opt (world_ex opt_ex))))"
    by (simp add: ex_defs run_defs)
  have e: "?r = (fst ?r, snd ?r)" by simp
  from no_key_from_passphrase [where mode = 1 and E = ?E and filename = "Some ''f''"
      and w = "world_ex opt_ex" and B = build_ex and rc = "fst ?r" and w' = "snd ?r"] h e
  have "fst ?r = G10ERR_PASSPHRASE build_ex"
    and "events_of (world_ex opt_ex) (snd ?r) = open_events (w_opt (world_ex opt_ex)) @
        (if fst (get_passphrase_dek ?E (w_opt (world_ex opt_ex))) \<noteq> None then [EvFree R_dek] else []) @
        [EvFree R_s2k, EvClose Inp]"
    by simp_all
  then have "fst ?r = 26" and "trace (snd ?r) = [EvOpen Inp, EvFree R_dek, EvFree R_s2k, EvClose Inp]"
    by (simp_all add: events_of_def ex_defs run_defs open_events_def)
  with h show ?thesis by simp
qed

text \<open>
  C9. In a run of encode_simple no symmetric session-key packet is given to build_packet
  when \<open>opt.rfc1991\<close> is set; one is given only in symmetric mode with \<open>opt.rfc1991\<close>
  clear. In symmetric mode with \<open>opt.rfc1991\<close> set, once the output is open the run is:
  the armor filter (or, in a build with ENABLE_COMMENT_PACKETS and without armor, the
  comment packets), then at once the cipher filter; no packet and no data is written
  before the cipher filter is pushed, so all of them pass through it.
\<close>

theorem no_symkey_packet_in_rfc1991:
  "encode_simple B E filename mode w = (rc, w') \<longrightarrow>
     (opt_rfc1991 (w_opt w) \<longrightarrow> symkey_builds (events_of w w') = []) \<and>
     (symkey_builds (events_of w w') \<noteq> [] \<longrightarrow> mode \<noteq> 0 \<and> \<not> opt_rfc1991 (w_opt w)) \<and>
     (mode \<noteq> 0 \<and> opt_rfc1991 (w_opt w) \<and> EvOpen Out \<in> set (events_of w w') \<longrightarrow>
        (\<exists>cfx post. events_of w w' =
            open_events (w_opt w) @ EvOpen Out # armor_events B (w_opt w) @
            EvPushFilter Out (cipher_filter cfx) # post) \<and>
        out_data (open_events (w_opt w) @ EvOpen Out # armor_events B (w_opt w)) = [])"
proof
  assume run: "encode_simple B E filename mode w = (rc, w')"
  from encode_simple_run [OF run] obtain evs where
    t: "trace w' = trace w @ evs" and se: "simple_events B E filename mode w rc evs"
    by blast
  from t have ev: "events_of w w' = evs" by (rule events_of_eq)
  from se have "(opt_rfc1991 (w_opt w) \<longrightarrow> symkey_builds evs = []) \<and>
     (symkey_builds evs \<noteq> [] \<longrightarrow> mode \<noteq> 0 \<and> \<not> opt_rfc1991 (w_opt w)) \<and>
     (mode \<noteq> 0 \<and> opt_rfc1991 (w_opt w) \<and> EvOpen Out \<in> set evs \<longrightarrow>
        (\<exists>cfx post. evs =
            open_events (w_opt w) @ EvOpen Out # armor_events B (w_opt w) @
            EvPushFilter Out (cipher_filter cfx) # post) \<and>
        out_data (open_events (w_opt w) @ EvOpen Out # armor_events B (w_opt w)) = [])"
  proof (cases rule: simple_events_cases)
    case probe
    then show ?thesis by simp
  next
    case inp
    then show ?thesis by simp
  next
    case key
    then show ?thesis by (simp add: open_events_def)
  next
    case (out dek s2k)
    then show ?thesis by (simp add: open_events_def)
  next
    case (body dek s2k b)
    from body(8) obtain rc1 wk where
      wk: "is_work B (opt_no_literal (w_opt w))
         (fst (literal_of B E w filename (do_compress_of E (w_opt w) filename) (symkey_packet (w_opt w) dek s2k)))
         rc1 rc wk"
      and b: "b = armor_events B (w_opt w) @
         (if symkey_packet (w_opt w) dek s2k = PKT_NONE then []
          else [EvBuildPacket (symkey_packet (w_opt w) dek s2k) rc1, EvFree R_symkey_enc]) @
         (if mode \<noteq> 0 then [EvPushFilter Out (cipher_filter \<lparr>cfx_dek = dek,
             cfx_datalen = snd (literal_of B E w filename (do_compress_of E (w_opt w) filename) (symkey_packet (w_opt w) dek s2k))\<rparr>)]
          else []) @
         (if do_compress_of E (w_opt w) filename then [EvPushFilter Out (compress_filter 0)] else []) @
         wk @ finish_events rc mode
           (fst (literal_of B E w filename (do_compress_of E (w_opt w) filename) (symkey_packet (w_opt w) dek s2k)))
           (dek \<noteq> None) (s2k \<noteq> None)"
      by (rule simple_body_cases)
    note wo = work_obs [OF wk]
    have sk: "symkey_builds evs =
       (if symkey_packet (w_opt w) dek s2k = PKT_NONE then [] else symkey_builds [EvBuildPacket (symkey_packet (w_opt w) dek s2k) rc1])"
      using body(7) b wo(1) by simp
    have m: "symkey_packet (w_opt w) dek s2k \<noteq> PKT_NONE \<Longrightarrow> mode \<noteq> 0 \<and> \<not> opt_rfc1991 (w_opt w)"
      using symkey_packet_cases(1) [of "w_opt w" dek s2k] body(3) by (auto split: if_splits)
    have 1: "opt_rfc1991 (w_opt w) \<longrightarrow> symkey_builds evs = []"
      using sk m by auto
    have 2: "symkey_builds evs \<noteq> [] \<longrightarrow> mode \<noteq> 0 \<and> \<not> opt_rfc1991 (w_opt w)"
      using sk m by (auto split: if_splits)
    have 3: "mode \<noteq> 0 \<and> opt_rfc1991 (w_opt w) \<longrightarrow>
        (\<exists>cfx post. evs =
            open_events (w_opt w) @ EvOpen Out # armor_events B (w_opt w) @
            EvPushFilter Out (cipher_filter cfx) # post)"
    proof
      assume a: "mode \<noteq> 0 \<and> opt_rfc1991 (w_opt w)"
      then have "symkey_packet (w_opt w) dek s2k = PKT_NONE" using m by blast
      with a body(7) b show "\<exists>cfx post. evs =
            open_events (w_opt w) @ EvOpen Out # armor_events B (w_opt w) @
            EvPushFilter Out (cipher_filter cfx) # post"
        by simp
    qed
    from 1 2 3 show ?thesis by simp
  qed
  with ev show "(opt_rfc1991 (w_opt w) \<longrightarrow> symkey_builds (events_of w w') = []) \<and>
     (symkey_builds (events_of w w') \<noteq> [] \<longrightarrow> mode \<noteq> 0 \<and> \<not> opt_rfc1991 (w_opt w)) \<and>
     (mode \<noteq> 0 \<and> opt_rfc1991 (w_opt w) \<and> EvOpen Out \<in> set (events_of w w') \<longrightarrow>
        (\<exists>cfx post. events_of w w' =
            open_events (w_opt w) @ EvOpen Out # armor_events B (w_opt w) @
            EvPushFilter Out (cipher_filter cfx) # post) \<and>
        out_data (open_events (w_opt w) @ EvOpen Out # armor_events B (w_opt w)) = [])"
    by simp
qed


theorem no_symkey_packet_in_rfc1991_witness:
  "opt_rfc1991 (w_opt (world_ex (opt_ex\<lparr>opt_rfc1991 := True\<rparr>))) \<and>
   EvOpen Out \<in> set (trace (snd (encode_simple build_ex
      (env_ex (\<lambda>a. 0) (\<lambda>p. 0) (\<lambda>b. 0) (\<lambda>a. Some dek_ex) 10 []) (Some ''f'') 1
      (world_ex (opt_ex\<lparr>opt_rfc1991 := True\<rparr>))))) \<and>
   symkey_builds (trace (snd (encode_simple build_ex
      (env_ex (\<lambda>a. 0) (\<lambda>p. 0) (\<lambda>b. 0) (\<lambda>a. Some dek_ex) 10 []) (Some ''f'') 1
      (world_ex (opt_ex\<lparr>opt_rfc1991 := True\<rparr>))))) = [] \<and>
   (\<exists>cfx post. trace (snd (encode_simple build_ex
      (env_ex (\<lambda>a. 0) (\<lambda>p. 0) (\<lambda>b. 0) (\<lambda>a. Some dek_ex) 10 []) (Some ''f'') 1
      (world_ex (opt_ex\<lparr>opt_rfc1991 := True\<rparr>)))) =
        [EvOpen Inp, EvOpen Out, EvPushFilter Out (cipher_filter cfx)] @ post) \<and>
   symkey_builds (trace (snd (encode_simple build_ex
      (env_ex (\<lambda>a. 0) (\<lambda>p. 0) (\<lambda>b. 0) (\<lambda>a. Some dek_ex) 10 []) (Some ''f'') 1
      (world_ex opt_ex)))) \<noteq> [] \<and>
   \<not> opt_rfc1991 (w_opt (world_ex opt_ex))"
proof -
  let ?E = "env_ex (\<lambda>a. 0) (\<lambda>p. 0) (\<lambda>b. 0) (\<lambda>a. Some dek_ex) 10 []"
  let ?W = "world_ex (opt_ex\<lparr>opt_rfc1991 := True\<rparr>)"
  let ?r = "encode_simple build_ex ?E (Some ''f'') 1 ?W"
  let ?q = "encode_simple build_ex ?E (Some ''f'') 1 (world_ex opt_ex)"
  have t0: "trace ?W = []" "trace (world_ex opt_ex) = []" by (simp_all add: world_ex_def)
  have ev: "events_of ?W (snd ?r) = trace (snd ?r)" "events_of (world_ex opt_ex) (snd ?q) = trace (snd ?q)"
    using t0 by (simp_all add: events_of_def)
  have h1: "opt_rfc1991 (w_opt ?W)" by (simp add: ex_defs)
  have h2: "EvOpen Out \<in> set (trace (snd ?r))"
    by (simp add: ex_defs run_defs Let_def)
  have h3: "symkey_builds (trace (snd ?q)) \<noteq> []"
    by (simp add: ex_defs run_defs Let_def)
  have e1: "?r = (fst ?r, snd ?r)" and e2: "?q = (fst ?q, snd ?q)" by simp_all
  have oe: "open_events (w_opt ?W) @ EvOpen Out # armor_events build_ex (w_opt ?W) = [EvOpen Inp, EvOpen Out]"
    by (simp add: ex_defs open_events_def armor_events_def)
  from no_symkey_packet_in_rfc1991 [where B = build_ex and E = ?E and filename = "Some ''f''"
      and mode = 1 and w = ?W and rc = "fst ?r" and w' = "snd ?r"] e1 h1 h2 ev(1)
  have a: "symkey_builds (trace (snd ?r)) = []"
    and b: "\<exists>cfx post. trace (snd ?r) =
            open_events (w_opt ?W) @ EvOpen Out # armor_events build_ex (w_opt ?W) @
            EvPushFilter Out (cipher_filter cfx) # post"
    by simp_all
  from b oe have b': "\<exists>cfx post. trace (snd ?r) = [EvOpen Inp, EvOpen Out, EvPushFilter Out (cipher_filter cfx)] @ post"
    by (metis append_Cons append_Nil append_assoc)
  from no_symkey_packet_in_rfc1991 [where B = build_ex and E = ?E and filename = "Some ''f''"
      and mode = 1 and w = "world_ex opt_ex" and rc = "fst ?q" and w' = "snd ?q"] e2 h3 ev(2)
  have c: "\<not> opt_rfc1991 (w_opt (world_ex opt_ex))" by simp
  from h1 h2 a b' h3 c show ?thesis by blast
qed

text \<open>
  C10. In a run of encode_simple or encode_crypt whose input is standard input
  (\<open>filename\<close> is NULL) or that runs in text mode, every literal packet given to
  build_packet declares \<open>opt.set_filesize\<close> when that is set and 0 otherwise, whatever
  the length of the input file is. The length of the file decides the declared length
  only for a named file in binary mode.
\<close>

theorem stdin_or_textmode_length:
  "((filename = None \<or> opt_textmode (w_opt w)) \<and>
    (encode_simple B E filename mode w = (rc, w') \<or> encode_crypt B E filename remusr w = (rc, w')) \<and>
    pt \<in> set (literal_builds (events_of w w')) \<longrightarrow>
      pt_len pt = (if opt_set_filesize (w_opt w) \<noteq> 0 then opt_set_filesize (w_opt w) else 0)) \<and>
   ((encode_simple B E filename mode w = (rc, w') \<or> encode_crypt B E filename remusr w = (rc, w')) \<and>
    pt \<in> set (literal_builds (events_of w w')) \<and>
    pt_len pt \<noteq> (if opt_set_filesize (w_opt w) \<noteq> 0 then opt_set_filesize (w_opt w) else 0) \<longrightarrow>
      filename \<noteq> None \<and> \<not> opt_textmode (w_opt w) \<and>
      pt_len pt = (if IOBUF_FILELENGTH_LIMIT B \<le> unat (iobuf_get_filelength E filename) then 0
                   else iobuf_get_filelength E filename))"
proof -
  have main: "(encode_simple B E filename mode w = (rc, w') \<or> encode_crypt B E filename remusr w = (rc, w')) \<and>
    pt \<in> set (literal_builds (events_of w w')) \<Longrightarrow> pt_len pt = fst (get_filesize B E filename w)"
    using run_literal_builds [of B E filename mode w rc w' remusr pt]
    by (auto simp: literal_pt_def)
  have 1: "(filename = None \<or> opt_textmode (w_opt w)) \<and>
    (encode_simple B E filename mode w = (rc, w') \<or> encode_crypt B E filename remusr w = (rc, w')) \<and>
    pt \<in> set (literal_builds (events_of w w')) \<longrightarrow>
      pt_len pt = (if opt_set_filesize (w_opt w) \<noteq> 0 then opt_set_filesize (w_opt w) else 0)"
    using main by (auto simp: get_filesize_value)
  have 2: "(encode_simple B E filename mode w = (rc, w') \<or> encode_crypt B E filename remusr w = (rc, w')) \<and>
    pt \<in> set (literal_builds (events_of w w')) \<and>
    pt_len pt \<noteq> (if opt_set_filesize (w_opt w) \<noteq> 0 then opt_set_filesize (w_opt w) else 0) \<longrightarrow>
      filename \<noteq> None \<and> \<not> opt_textmode (w_opt w) \<and>
      pt_len pt = (if IOBUF_FILELENGTH_LIMIT B \<le> unat (iobuf_get_filelength E filename) then 0
                   else iobuf_get_filelength E filename)"
  proof
    assume a: "(encode_simple B E filename mode w = (rc, w') \<or> encode_crypt B E filename remusr w = (rc, w')) \<and>
      pt \<in> set (literal_builds (events_of w w')) \<and>
      pt_len pt \<noteq> (if opt_set_filesize (w_opt w) \<noteq> 0 then opt_set_filesize (w_opt w) else 0)"
    then have l: "pt_len pt = fst (get_filesize B E filename w)" using main by blast
    from a l show "filename \<noteq> None \<and> \<not> opt_textmode (w_opt w) \<and>
      pt_len pt = (if IOBUF_FILELENGTH_LIMIT B \<le> unat (iobuf_get_filelength E filename) then 0
                   else iobuf_get_filelength E filename)"
      by (auto simp: get_filesize_value split: if_splits)
  qed
  from 1 2 show ?thesis by (rule conjI)
qed

theorem stdin_or_textmode_length_witness:
  "map pt_len (literal_builds (trace (snd (encode_simple build_ex
      (env_ex (\<lambda>a. 0) (\<lambda>p. 0) (\<lambda>b. 0) (\<lambda>a. Some dek_ex) 10 []) (Some ''f'') 1
      (world_ex (opt_ex\<lparr>opt_textmode := True, opt_set_filesize := 7\<rparr>)))))) = [7] \<and>
   map pt_len (literal_builds (trace (snd (encode_crypt build_ex
      (env_ex (\<lambda>a. 0) (\<lambda>p. 0) (\<lambda>b. 0) (\<lambda>a. None) 10 [pk_rsa]) None [''alice'']
      (world_ex opt_ex))))) = [0] \<and>
   map pt_len (literal_builds (trace (snd (encode_crypt build_ex
      (env_ex (\<lambda>a. 0) (\<lambda>p. 0) (\<lambda>b. 0) (\<lambda>a. None) 10 [pk_rsa]) (Some ''f'') [''alice'']
      (world_ex opt_ex))))) = [10]"
proof -
  let ?E = "env_ex (\<lambda>a. 0) (\<lambda>p. 0) (\<lambda>b. 0) (\<lambda>a. Some dek_ex) 10 []"
  let ?F = "env_ex (\<lambda>a. 0) (\<lambda>p. 0) (\<lambda>b. 0) (\<lambda>a. None) 10 [pk_rsa]"
  let ?V = "world_ex (opt_ex\<lparr>opt_textmode := True, opt_set_filesize := 7\<rparr>)"
  let ?W = "world_ex opt_ex"
  let ?r = "encode_simple build_ex ?E (Some ''f'') 1 ?V"
  let ?q = "encode_crypt build_ex ?F None [''alice''] ?W"
  let ?s = "encode_crypt build_ex ?F (Some ''f'') [''alice''] ?W"
  have ev: "events_of ?V (snd ?r) = trace (snd ?r)" "events_of ?W (snd ?q) = trace (snd ?q)"
    "events_of ?W (snd ?s) = trace (snd ?s)"
    by (simp_all add: events_of_def world_ex_def)
  obtain p where p: "literal_builds (trace (snd ?r)) = [p]"
    by (simp add: ex_defs run_defs Let_def)
  obtain q where q: "literal_builds (trace (snd ?q)) = [q]"
    by (simp add: ex_defs run_defs Let_def)
  obtain s where s: "literal_builds (trace (snd ?s)) = [s]" and s10: "pt_len s = 10"
    by (simp add: ex_defs run_defs Let_def)
  have e1: "?r = (fst ?r, snd ?r)" and e2: "?q = (fst ?q, snd ?q)" and e3: "?s = (fst ?s, snd ?s)"
    by simp_all
  from stdin_or_textmode_length [where filename = "Some ''f''" and w = ?V and B = build_ex and E = ?E
      and mode = 1 and rc = "fst ?r" and w' = "snd ?r" and pt = p] e1 p ev(1)
  have 1: "pt_len p = 7" by (simp add: ex_defs)
  from stdin_or_textmode_length [where filename = None and w = ?W and B = build_ex and E = ?F
      and remusr = "[''alice'']" and rc = "fst ?q" and w' = "snd ?q" and pt = q] e2 q ev(2)
  have 2: "pt_len q = 0" by (simp add: ex_defs)
  from stdin_or_textmode_length [where filename = "Some ''f''" and w = ?W and B = build_ex and E = ?F
      and remusr = "[''alice'']" and rc = "fst ?s" and w' = "snd ?s" and pt = s] e3 s s10 ev(3)
  have 3: "pt_len s = iobuf_get_filelength ?F (Some ''f'')" by (simp add: ex_defs)
  from p q s 1 2 3 show ?thesis by (simp add: ex_defs)
qed

text \<open>
  C3 (as amended). In a run of encode_simple or encode_crypt on a named file in binary
  mode (\<open>opt.textmode\<close> clear), every literal packet given to build_packet declares
  the length 0 when the length of the file is at least IOBUF_FILELENGTH_LIMIT, and the
  length of the file when it is below; the packet asks for the new-style header exactly
  when the declared length is 0 and \<open>opt.rfc1991\<close> is clear.
\<close>

theorem named_binary_file_length:
  "filename \<noteq> None \<and> \<not> opt_textmode (w_opt w) \<and>
   (encode_simple B E filename mode w = (rc, w') \<or> encode_crypt B E filename remusr w = (rc, w')) \<and>
   pt \<in> set (literal_builds (events_of w w')) \<longrightarrow>
     pt_len pt = (if IOBUF_FILELENGTH_LIMIT B \<le> unat (iobuf_get_filelength E filename) then 0
                  else iobuf_get_filelength E filename) \<and>
     pt_new_ctb pt = (pt_len pt = 0 \<and> \<not> opt_rfc1991 (w_opt w))"
proof
  assume a: "filename \<noteq> None \<and> \<not> opt_textmode (w_opt w) \<and>
   (encode_simple B E filename mode w = (rc, w') \<or> encode_crypt B E filename remusr w = (rc, w')) \<and>
   pt \<in> set (literal_builds (events_of w w'))"
  then have "pt = literal_pt B E w filename"
    using run_literal_builds [of B E filename mode w rc w' remusr pt] by blast
  with a show "pt_len pt = (if IOBUF_FILELENGTH_LIMIT B \<le> unat (iobuf_get_filelength E filename) then 0
                  else iobuf_get_filelength E filename) \<and>
     pt_new_ctb pt = (pt_len pt = 0 \<and> \<not> opt_rfc1991 (w_opt w))"
    by (simp add: literal_pt_def get_filesize_value)
qed

theorem named_binary_file_length_witness:
  "map pt_len (literal_builds (trace (snd (encode_simple build_ex
      (env_ex (\<lambda>a. 0) (\<lambda>p. 0) (\<lambda>b. 0) (\<lambda>a. Some dek_ex) 10 []) (Some ''f'') 0 (world_ex opt_ex))))) = [10] \<and>
   map pt_new_ctb (literal_builds (trace (snd (encode_simple build_ex
      (env_ex (\<lambda>a. 0) (\<lambda>p. 0) (\<lambda>b. 0) (\<lambda>a. Some dek_ex) 10 []) (Some ''f'') 0 (world_ex opt_ex))))) = [False] \<and>
   map pt_len (literal_builds (trace (snd (encode_crypt build_ex
      (env_ex (\<lambda>a. 0) (\<lambda>p. 0) (\<lambda>b. 0) (\<lambda>a. None) 4294967295 [pk_rsa]) (Some ''f'') [''alice'']
      (world_ex opt_ex))))) = [0] \<and>
   map pt_new_ctb (literal_builds (trace (snd (encode_crypt build_ex
      (env_ex (\<lambda>a. 0) (\<lambda>p. 0) (\<lambda>b. 0) (\<lambda>a. None) 4294967295 [pk_rsa]) (Some ''f'') [''alice'']
      (world_ex opt_ex))))) = [True]"
proof -
  let ?E = "env_ex (\<lambda>a. 0) (\<lambda>p. 0) (\<lambda>b. 0) (\<lambda>a. Some dek_ex) 10 []"
  let ?F = "env_ex (\<lambda>a. 0) (\<lambda>p. 0) (\<lambda>b. 0) (\<lambda>a. None) 4294967295 [pk_rsa]"
  let ?W = "world_ex opt_ex"
  let ?r = "encode_simple build_ex ?E (Some ''f'') 0 ?W"
  let ?q = "encode_crypt build_ex ?F (Some ''f'') [''alice''] ?W"
  have ev: "events_of ?W (snd ?r) = trace (snd ?r)" "events_of ?W (snd ?q) = trace (snd ?q)"
    by (simp_all add: events_of_def world_ex_def)
  obtain p where p: "literal_builds (trace (snd ?r)) = [p]"
    by (simp add: ex_defs run_defs Let_def)
  obtain q where q: "literal_builds (trace (snd ?q)) = [q]"
    by (simp add: ex_defs run_defs Let_def)
  have h: "Some ''f'' \<noteq> (None :: string option) \<and> \<not> opt_textmode (w_opt ?W)"
    by (simp add: ex_defs)
  have e1: "?r = (fst ?r, snd ?r)" and e2: "?q = (fst ?q, snd ?q)" by simp_all
  from named_binary_file_length [where filename = "Some ''f''" and w = ?W and B = build_ex and E = ?E
      and mode = 0 and rc = "fst ?r" and w' = "snd ?r" and pt = p] h e1 p ev(1)
  have 1: "pt_len p = 10 \<and> pt_new_ctb p = False"
    by (simp add: ex_defs)
  from named_binary_file_length [where filename = "Some ''f''" and w = ?W and B = build_ex and E = ?F
      and remusr = "[''alice'']" and rc = "fst ?q" and w' = "snd ?q" and pt = q] h e2 q ev(2)
  have 2: "pt_len q = 0 \<and> pt_new_ctb q = True"
    by (simp add: ex_defs)
  from p q 1 2 show ?thesis by simp
qed

theorem named_file_length_counterexample:
  "iobuf_get_filelength (env_ex (\<lambda>a. 0) (\<lambda>p. 0) (\<lambda>b. 0) (\<lambda>a. Some dek_ex) 10 []) (Some ''f'') = 10 \<and>
   unat (10 :: u32) < IOBUF_FILELENGTH_LIMIT build_ex \<and>
   map pt_len (literal_builds (trace (snd (encode_simple build_ex
      (env_ex (\<lambda>a. 0) (\<lambda>p. 0) (\<lambda>b. 0) (\<lambda>a. Some dek_ex) 10 []) (Some ''f'') 0
      (world_ex (opt_ex\<lparr>opt_textmode := True\<rparr>)))))) = [0] \<and>
   IOBUF_FILELENGTH_LIMIT build_ex \<le>
     unat (iobuf_get_filelength (env_ex (\<lambda>a. 0) (\<lambda>p. 0) (\<lambda>b. 0) (\<lambda>a. Some dek_ex) 4294967295 []) (Some ''f'')) \<and>
   map pt_len (literal_builds (trace (snd (encode_simple build_ex
      (env_ex (\<lambda>a. 0) (\<lambda>p. 0) (\<lambda>b. 0) (\<lambda>a. Some dek_ex) 4294967295 []) (Some ''f'') 1
      (world_ex (opt_ex\<lparr>opt_rfc1991 := True\<rparr>)))))) = [0] \<and>
   map pt_new_ctb (literal_builds (trace (snd (encode_simple build_ex
      (env_ex (\<lambda>a. 0) (\<lambda>p. 0) (\<lambda>b. 0) (\<lambda>a. Some dek_ex) 4294967295 []) (Some ''f'') 1
      (world_ex (opt_ex\<lparr>opt_rfc1991 := True\<rparr>)))))) = [False]"
  by (simp add: ex_defs run_defs Let_def)

text \<open>
  C7 (as amended). In a run of encode_crypt or encode_simple that opened the output
  stream: the output is cancelled, and never closed, when the function returns a code other
  than 0, and closed when it returns 0; the end-of-encryption status is written exactly
  when it returns 0, by encode_crypt always and by encode_simple in symmetric mode only
  (\<open>mode \<noteq> 0\<close>), not for a stored message; the input stream is closed, the packet, the
  DEK (when there is one) and the S2K block or the recipient list are freed. The code
  returned is the code of the failed key wrap or session-key packet (encode_crypt), of
  the failed build of the literal packet, or G10ERR_WRITE_FILE when a write of the copy
  loop returned -1. A failed build of the symmetric session-key packet in encode_simple is
  not covered.
\<close>

theorem cleanup_after_output_opened:
  "(encode_crypt B E filename remusr w = (rc, w') \<and> EvOpen Out \<in> set (events_of w w') \<longrightarrow>
      stream_ops Out (events_of w w') = [EvOpen Out, if rc \<noteq> 0 then EvCancel Out else EvClose Out] \<and>
      statuses (events_of w w') = (if rc = 0 then [STATUS_END_ENCRYPTION] else []) \<and>
      stream_ops Inp (events_of w w') = [EvOpen Inp, EvClose Inp] \<and>
      R_dek \<in> set (frees (events_of w w')) \<and> R_pk_list \<in> set (frees (events_of w w')) \<and>
      (\<exists>pkt. R_packet pkt \<in> set (frees (events_of w w'))) \<and>
      (c \<in> set (wrap_codes (events_of w w') @ literal_codes (events_of w w')) \<and> c \<noteq> 0 \<longrightarrow> rc = c) \<and>
      (- 1 \<in> set (write_codes (events_of w w')) \<longrightarrow> rc = G10ERR_WRITE_FILE B)) \<and>
   (encode_simple B E filename mode v = (rc', v') \<and> EvOpen Out \<in> set (events_of v v') \<longrightarrow>
      stream_ops Out (events_of v v') = [EvOpen Out, if rc' \<noteq> 0 then EvCancel Out else EvClose Out] \<and>
      statuses (events_of v v') = (if rc' = 0 \<and> mode \<noteq> 0 then [STATUS_END_ENCRYPTION] else []) \<and>
      stream_ops Inp (events_of v v') = [EvOpen Inp, EvClose Inp] \<and>
      (mode \<noteq> 0 \<longrightarrow> R_dek \<in> set (frees (events_of v v')) \<and> R_s2k \<in> set (frees (events_of v v'))) \<and>
      (\<exists>pkt. R_packet pkt \<in> set (frees (events_of v v'))) \<and>
      (c \<in> set (literal_codes (events_of v v')) \<longrightarrow> rc' = c) \<and>
      (- 1 \<in> set (write_codes (events_of v v')) \<longrightarrow> rc' = G10ERR_WRITE_FILE B))"
proof -
  have crypt: "encode_crypt B E filename remusr w = (rc, w') \<and> EvOpen Out \<in> set (events_of w w') \<longrightarrow>
      stream_ops Out (events_of w w') = [EvOpen Out, if rc \<noteq> 0 then EvCancel Out else EvClose Out] \<and>
      statuses (events_of w w') = (if rc = 0 then [STATUS_END_ENCRYPTION] else []) \<and>
      stream_ops Inp (events_of w w') = [EvOpen Inp, EvClose Inp] \<and>
      R_dek \<in> set (frees (events_of w w')) \<and> R_pk_list \<in> set (frees (events_of w w')) \<and>
      (\<exists>pkt. R_packet pkt \<in> set (frees (events_of w w'))) \<and>
      (c \<in> set (wrap_codes (events_of w w') @ literal_codes (events_of w w')) \<and> c \<noteq> 0 \<longrightarrow> rc = c) \<and>
      (- 1 \<in> set (write_codes (events_of w w')) \<longrightarrow> rc = G10ERR_WRITE_FILE B)"
  proof
    assume a: "encode_crypt B E filename remusr w = (rc, w') \<and> EvOpen Out \<in> set (events_of w w')"
    then have run: "encode_crypt B E filename remusr w = (rc, w')" by simp
    from encode_crypt_run [OF run] obtain evs where
      t: "trace w' = trace w @ evs" and ce: "crypt_events B E filename remusr w rc evs"
      by blast
    from t have ev: "events_of w w' = evs" by (rule events_of_eq)
    with a have o: "EvOpen Out \<in> set evs" by simp
    from ce o obtain body where b: "evs = open_events (w_opt w) @ EvOpen Out # body"
      and cb: "crypt_body B (w_opt w) (snd (build_pk_list E remusr))
            (fst (literal_of B E w filename (do_compress_of E (w_opt w) filename) PKT_NONE))
            (snd (literal_of B E w filename (do_compress_of E (w_opt w) filename) PKT_NONE))
            rc body"
      by (cases rule: crypt_events_cases) simp_all
    note cl = crypt_body_cleanup [OF cb]
    from cl(6) obtain pkt where pkt: "R_packet pkt \<in> set (frees body)" by blast
    have "stream_ops Out evs = [EvOpen Out, if rc \<noteq> 0 then EvCancel Out else EvClose Out]"
      using b cl(1) by simp
    moreover have "statuses evs = (if rc = 0 then [STATUS_END_ENCRYPTION] else [])"
      using b cl(3) by simp
    moreover have "stream_ops Inp evs = [EvOpen Inp, EvClose Inp]"
      using b cl(2) by simp
    moreover have "R_dek \<in> set (frees evs)" "R_pk_list \<in> set (frees evs)"
      using b cl(4) cl(5) by simp_all
    moreover have "\<exists>pkt. R_packet pkt \<in> set (frees evs)"
      using b pkt by auto
    moreover have "c \<in> set (wrap_codes evs @ literal_codes evs) \<and> c \<noteq> 0 \<longrightarrow> rc = c"
      using b cl(7) [of c] by simp
    moreover have "- 1 \<in> set (write_codes evs) \<longrightarrow> rc = G10ERR_WRITE_FILE B"
      using b cl(8) by simp
    ultimately show "stream_ops Out (events_of w w') = [EvOpen Out, if rc \<noteq> 0 then EvCancel Out else EvClose Out] \<and>
      statuses (events_of w w') = (if rc = 0 then [STATUS_END_ENCRYPTION] else []) \<and>
      stream_ops Inp (events_of w w') = [EvOpen Inp, EvClose Inp] \<and>
      R_dek \<in> set (frees (events_of w w')) \<and> R_pk_list \<in> set (frees (events_of w w')) \<and>
      (\<exists>pkt. R_packet pkt \<in> set (frees (events_of w w'))) \<and>
      (c \<in> set (wrap_codes (events_of w w') @ literal_codes (events_of w w')) \<and> c \<noteq> 0 \<longrightarrow> rc = c) \<and>
      (- 1 \<in> set (write_codes (events_of w w')) \<longrightarrow> rc = G10ERR_WRITE_FILE B)"
      unfolding ev by blast
  qed
  have simple: "encode_simple B E filename mode v = (rc', v') \<and> EvOpen Out \<in> set (events_of v v') \<longrightarrow>
      stream_ops Out (events_of v v') = [EvOpen Out, if rc' \<noteq> 0 then EvCancel Out else EvClose Out] \<and>
      statuses (events_of v v') = (if rc' = 0 \<and> mode \<noteq> 0 then [STATUS_END_ENCRYPTION] else []) \<and>
      stream_ops Inp (events_of v v') = [EvOpen Inp, EvClose Inp] \<and>
      (mode \<noteq> 0 \<longrightarrow> R_dek \<in> set (frees (events_of v v')) \<and> R_s2k \<in> set (frees (events_of v v'))) \<and>
      (\<exists>pkt. R_packet pkt \<in> set (frees (events_of v v'))) \<and>
      (c \<in> set (literal_codes (events_of v v')) \<longrightarrow> rc' = c) \<and>
      (- 1 \<in> set (write_codes (events_of v v')) \<longrightarrow> rc' = G10ERR_WRITE_FILE B)"
  proof
    assume a: "encode_simple B E filename mode v = (rc', v') \<and> EvOpen Out \<in> set (events_of v v')"
    then have run: "encode_simple B E filename mode v = (rc', v')" by simp
    from encode_simple_run [OF run] obtain evs where
      t: "trace v' = trace v @ evs" and se: "simple_events B E filename mode v rc' evs"
      by blast
    from t have ev: "events_of v v' = evs" by (rule events_of_eq)
    with a have o: "EvOpen Out \<in> set evs" by simp
    from se o obtain dek s2k body where
      d: "dek = (if mode \<noteq> 0 then fst (get_passphrase_dek E (w_opt v)) else None)"
      and s: "s2k = (if mode \<noteq> 0 then Some (snd (get_passphrase_dek E (w_opt v))) else None)"
      and nk: "\<not> (mode \<noteq> 0 \<and> no_key dek)"
      and b: "evs = open_events (w_opt v) @ EvOpen Out # body"
      and sb: "simple_body B (w_opt v) mode (do_compress_of E (w_opt v) filename) dek s2k
         (fst (literal_of B E v filename (do_compress_of E (w_opt v) filename) (symkey_packet (w_opt v) dek s2k)))
         (snd (literal_of B E v filename (do_compress_of E (w_opt v) filename) (symkey_packet (w_opt v) dek s2k)))
         rc' body"
      by (cases rule: simple_events_cases) (simp_all add: open_events_def split: if_splits)
    note cl = simple_body_cleanup [OF sb]
    from cl(6) obtain pkt where pkt: "R_packet pkt \<in> set (frees body)" by blast
    have dn: "mode \<noteq> 0 \<Longrightarrow> dek \<noteq> None \<and> s2k \<noteq> None"
      using nk s by (cases dek) (auto simp: no_key_def)
    have "stream_ops Out evs = [EvOpen Out, if rc' \<noteq> 0 then EvCancel Out else EvClose Out]"
      using b cl(1) by simp
    moreover have "statuses evs = (if rc' = 0 \<and> mode \<noteq> 0 then [STATUS_END_ENCRYPTION] else [])"
      using b cl(3) by simp
    moreover have "stream_ops Inp evs = [EvOpen Inp, EvClose Inp]"
      using b cl(2) by simp
    moreover have "mode \<noteq> 0 \<longrightarrow> R_dek \<in> set (frees evs) \<and> R_s2k \<in> set (frees evs)"
      using b cl(4) cl(5) dn by simp
    moreover have "\<exists>pkt. R_packet pkt \<in> set (frees evs)"
      using b pkt by auto
    moreover have "c \<in> set (literal_codes evs) \<longrightarrow> rc' = c"
      using b cl(7) [of c] by simp
    moreover have "- 1 \<in> set (write_codes evs) \<longrightarrow> rc' = G10ERR_WRITE_FILE B"
      using b cl(8) by simp
    ultimately show "stream_ops Out (events_of v v') = [EvOpen Out, if rc' \<noteq> 0 then EvCancel Out else EvClose Out] \<and>
      statuses (events_of v v') = (if rc' = 0 \<and> mode \<noteq> 0 then [STATUS_END_ENCRYPTION] else []) \<and>
      stream_ops Inp (events_of v v') = [EvOpen Inp, EvClose Inp] \<and>
      (mode \<noteq> 0 \<longrightarrow> R_dek \<in> set (frees (events_of v v')) \<and> R_s2k \<in> set (frees (events_of v v'))) \<and>
      (\<exists>pkt. R_packet pkt \<in> set (frees (events_of v v'))) \<and>
      (c \<in> set (literal_codes (events_of v v')) \<longrightarrow> rc' = c) \<and>
      (- 1 \<in> set (write_codes (events_of v v')) \<longrightarrow> rc' = G10ERR_WRITE_FILE B)"
      unfolding ev by blast
  qed
  from crypt simple show ?thesis by (rule conjI)
qed


theorem cleanup_after_output_opened_witness:
  "fst (encode_crypt build_ex
      (env_ex (\<lambda>a. 0) (\<lambda>p. case p of PKT_PLAINTEXT pt \<Rightarrow> 9 | _ \<Rightarrow> 0) (\<lambda>b. - 1) (\<lambda>a. Some dek_ex) 10 [pk_rsa])
      (Some ''f'') [''alice''] (world_ex opt_ex)) = 9 \<and>
   stream_ops Out (trace (snd (encode_crypt build_ex
      (env_ex (\<lambda>a. 0) (\<lambda>p. case p of PKT_PLAINTEXT pt \<Rightarrow> 9 | _ \<Rightarrow> 0) (\<lambda>b. - 1) (\<lambda>a. Some dek_ex) 10 [pk_rsa])
      (Some ''f'') [''alice''] (world_ex opt_ex)))) = [EvOpen Out, EvCancel Out] \<and>
   fst (encode_simple build_ex
      (env_ex (\<lambda>a. 0) (\<lambda>p. case p of PKT_PLAINTEXT pt \<Rightarrow> 9 | _ \<Rightarrow> 0) (\<lambda>b. - 1) (\<lambda>a. Some dek_ex) 10 [pk_rsa])
      (Some ''f'') 1 (world_ex (opt_ex\<lparr>opt_no_literal := True\<rparr>))) = 22 \<and>
   stream_ops Out (trace (snd (encode_simple build_ex
      (env_ex (\<lambda>a. 0) (\<lambda>p. case p of PKT_PLAINTEXT pt \<Rightarrow> 9 | _ \<Rightarrow> 0) (\<lambda>b. - 1) (\<lambda>a. Some dek_ex) 10 [pk_rsa])
      (Some ''f'') 1 (world_ex (opt_ex\<lparr>opt_no_literal := True\<rparr>))))) = [EvOpen Out, EvCancel Out] \<and>
   frees (trace (snd (encode_simple build_ex
      (env_ex (\<lambda>a. 0) (\<lambda>p. case p of PKT_PLAINTEXT pt \<Rightarrow> 9 | _ \<Rightarrow> 0) (\<lambda>b. - 1) (\<lambda>a. Some dek_ex) 10 [pk_rsa])
      (Some ''f'') 1 (world_ex (opt_ex\<lparr>opt_no_literal := True\<rparr>))))) \<noteq> []"
proof -
  let ?E = "env_ex (\<lambda>a. 0) (\<lambda>p. case p of PKT_PLAINTEXT pt \<Rightarrow> 9 | _ \<Rightarrow> 0) (\<lambda>b. - 1) (\<lambda>a. Some dek_ex) 10 [pk_rsa]"
  let ?W = "world_ex opt_ex"
  let ?V = "world_ex (opt_ex\<lparr>opt_no_literal := True\<rparr>)"
  let ?r = "encode_crypt build_ex ?E (Some ''f'') [''alice''] ?W"
  let ?q = "encode_simple build_ex ?E (Some ''f'') 1 ?V"
  have ev: "events_of ?W (snd ?r) = trace (snd ?r)" "events_of ?V (snd ?q) = trace (snd ?q)"
    by (simp_all add: events_of_def world_ex_def)
  have h1: "EvOpen Out \<in> set (trace (snd ?r))"
    by (simp add: ex_defs run_defs Let_def)
  have h2: "9 \<in> set (wrap_codes (trace (snd ?r)) @ literal_codes (trace (snd ?r)))"
    by (simp add: ex_defs run_defs Let_def)
  have h3: "EvOpen Out \<in> set (trace (snd ?q))"
    by (simp add: ex_defs run_defs Let_def)
  have h4: "- 1 \<in> set (write_codes (trace (snd ?q)))"
    by (simp add: ex_defs run_defs Let_def)
  have e1: "?r = (fst ?r, snd ?r)" and e2: "?q = (fst ?q, snd ?q)" by simp_all
  note th = cleanup_after_output_opened [where B = build_ex and E = ?E and filename = "Some ''f''"
      and remusr = "[''alice'']" and w = ?W and rc = "fst ?r" and w' = "snd ?r" and c = 9
      and mode = 1 and v = ?V and rc' = "fst ?q" and v' = "snd ?q"]
  have h1': "EvOpen Out \<in> set (events_of ?W (snd ?r))" using h1 ev(1) by simp
  have h2': "9 \<in> set (wrap_codes (events_of ?W (snd ?r)) @ literal_codes (events_of ?W (snd ?r))) \<and> (9::int) \<noteq> 0"
    using h2 ev(1) by simp
  have h3': "EvOpen Out \<in> set (events_of ?V (snd ?q))" using h3 ev(2) by simp
  have h4': "- 1 \<in> set (write_codes (events_of ?V (snd ?q)))" using h4 ev(2) by simp
  note c1 = th [THEN conjunct1, THEN mp, OF conjI [OF e1 h1']]
  note c2 = th [THEN conjunct2, THEN mp, OF conjI [OF e2 h3']]
  from c1 h2' have r9: "fst ?r = 9" by blast
  from c1 have "stream_ops Out (events_of ?W (snd ?r)) =
      [EvOpen Out, if fst ?r \<noteq> 0 then EvCancel Out else EvClose Out]" by blast
  with r9 ev(1) have ro: "stream_ops Out (trace (snd ?r)) = [EvOpen Out, EvCancel Out]" by simp
  from c2 h4' have "fst ?q = G10ERR_WRITE_FILE build_ex" by blast
  then have q22: "fst ?q = 22" by (simp add: build_ex_def)
  from c2 have "stream_ops Out (events_of ?V (snd ?q)) =
      [EvOpen Out, if fst ?q \<noteq> 0 then EvCancel Out else EvClose Out]" by blast
  with q22 ev(2) have qo: "stream_ops Out (trace (snd ?q)) = [EvOpen Out, EvCancel Out]" by simp
  from c2 have "(1::int) \<noteq> 0 \<longrightarrow> R_dek \<in> set (frees (events_of ?V (snd ?q))) \<and>
      R_s2k \<in> set (frees (events_of ?V (snd ?q)))" by blast
  then have "R_dek \<in> set (frees (events_of ?V (snd ?q)))" by simp
  with ev(2) have qf: "frees (trace (snd ?q)) \<noteq> []" by auto
  from r9 ro q22 qo qf show ?thesis by simp
qed

theorem store_writes_no_status_counterexample:
  "fst (encode_simple build_ex (env_ex (\<lambda>a. 0) (\<lambda>p. 0) (\<lambda>b. 0) (\<lambda>a. None) 10 [])
      (Some ''f'') 0 (world_ex opt_ex)) = 0 \<and>
   stream_ops Out (trace (snd (encode_simple build_ex (env_ex (\<lambda>a. 0) (\<lambda>p. 0) (\<lambda>b. 0) (\<lambda>a. None) 10 [])
      (Some ''f'') 0 (world_ex opt_ex)))) = [EvOpen Out, EvClose Out] \<and>
   statuses (trace (snd (encode_simple build_ex (env_ex (\<lambda>a. 0) (\<lambda>p. 0) (\<lambda>b. 0) (\<lambda>a. None) 10 [])
      (Some ''f'') 0 (world_ex opt_ex)))) = []"
  by (simp add: ex_defs run_defs Let_def)

text \<open>
  The return code of the build of the symmetric session-key packet (line 151) is only
  logged: line 217 overwrites \<open>rc\<close> with the code of the build of the literal packet.
  Here the first build fails with 22 and the second succeeds: encode_simple returns 0,
  closes the output and writes the end-of-encryption status.
\<close>

theorem symkey_build_failure_overwritten:
  "EvBuildPacket (PKT_SYMKEY_ENC \<lparr>ske_version = 4, ske_cipher_algo = 3, ske_s2k = init_s2k opt_ex\<rparr>) 22
     \<in> set (trace (snd (encode_simple build_ex
      (env_ex (\<lambda>a. 0) (\<lambda>p. case p of PKT_SYMKEY_ENC enc \<Rightarrow> 22 | _ \<Rightarrow> 0) (\<lambda>b. 0) (\<lambda>a. Some dek_ex) 10 [])
      (Some ''f'') 1 (world_ex opt_ex)))) \<and>
   fst (encode_simple build_ex
      (env_ex (\<lambda>a. 0) (\<lambda>p. case p of PKT_SYMKEY_ENC enc \<Rightarrow> 22 | _ \<Rightarrow> 0) (\<lambda>b. 0) (\<lambda>a. Some dek_ex) 10 [])
      (Some ''f'') 1 (world_ex opt_ex)) = 0 \<and>
   stream_ops Out (trace (snd (encode_simple build_ex
      (env_ex (\<lambda>a. 0) (\<lambda>p. case p of PKT_SYMKEY_ENC enc \<Rightarrow> 22 | _ \<Rightarrow> 0) (\<lambda>b. 0) (\<lambda>a. Some dek_ex) 10 [])
      (Some ''f'') 1 (world_ex opt_ex)))) = [EvOpen Out, EvClose Out] \<and>
   statuses (trace (snd (encode_simple build_ex
      (env_ex (\<lambda>a. 0) (\<lambda>p. case p of PKT_SYMKEY_ENC enc \<Rightarrow> 22 | _ \<Rightarrow> 0) (\<lambda>b. 0) (\<lambda>a. Some dek_ex) 10 [])
      (Some ''f'') 1 (world_ex opt_ex)))) = [STATUS_END_ENCRYPTION]"
  by (simp add: ex_defs run_defs symkey_packet_def Let_def)

text \<open>
  C4. The DEK that encode_crypt makes, and the one in the context with which it pushes the
  cipher filter, has \<open>use_mdc\<close> set if and only if every recipient found by build_pk_list
  supports it; the DEK that the first flush of encrypt_filter makes has it set if and only
  if every recipient of the filter's list supports it. One recipient without support
  clears the flag for the whole message.
\<close>

theorem mdc_all_or_nothing:
  "(encode_crypt B E filename remusr w = (rc, w') \<and> dek \<in> set (session_keys (events_of w w')) \<longrightarrow>
      (dek_use_mdc dek \<longleftrightarrow> (\<forall>pk \<in> set (snd (build_pk_list E remusr)). pk_mdc_feature pk))) \<and>
   (encode_crypt B E filename remusr w = (rc, w') \<and> cfx \<in> set (cipher_pushes (events_of w w')) \<longrightarrow>
      (\<exists>d. cfx_dek cfx = Some d \<and> d \<in> set (session_keys (events_of w w')) \<and>
         (dek_use_mdc d \<longleftrightarrow> (\<forall>pk \<in> set (snd (build_pk_list E remusr)). pk_mdc_feature pk)))) \<and>
   (\<not> efx_header_okay efx \<and> encrypt_filter B E efx IOBUFCTRL_FLUSH buf v = Some r \<longrightarrow>
      (\<exists>d. cfx_dek (efx_cfx (r_efx r)) = Some d \<and>
         (dek_use_mdc d \<longleftrightarrow> (\<forall>pk \<in> set (efx_pk_list efx). pk_mdc_feature pk))))"
proof -
  have 1: "encode_crypt B E filename remusr w = (rc, w') \<and> dek \<in> set (session_keys (events_of w w')) \<longrightarrow>
      (dek_use_mdc dek \<longleftrightarrow> (\<forall>pk \<in> set (snd (build_pk_list E remusr)). pk_mdc_feature pk))"
  proof
    assume a: "encode_crypt B E filename remusr w = (rc, w') \<and> dek \<in> set (session_keys (events_of w w'))"
    with crypt_run_deks [of B E filename remusr w rc w']
    have "is_crypt_dek B (w_opt w) (snd (build_pk_list E remusr)) dek" by auto
    then show "dek_use_mdc dek \<longleftrightarrow> (\<forall>pk \<in> set (snd (build_pk_list E remusr)). pk_mdc_feature pk)"
      by (simp add: is_crypt_dek_def select_mdc_from_pklist_def list_all_iff)
  qed
  have 2: "encode_crypt B E filename remusr w = (rc, w') \<and> cfx \<in> set (cipher_pushes (events_of w w')) \<longrightarrow>
      (\<exists>d. cfx_dek cfx = Some d \<and> d \<in> set (session_keys (events_of w w')) \<and>
         (dek_use_mdc d \<longleftrightarrow> (\<forall>pk \<in> set (snd (build_pk_list E remusr)). pk_mdc_feature pk)))"
  proof
    assume a: "encode_crypt B E filename remusr w = (rc, w') \<and> cfx \<in> set (cipher_pushes (events_of w w'))"
    with crypt_run_deks [of B E filename remusr w rc w'] obtain d dl where
      "session_keys (events_of w w') = [d]" "is_crypt_dek B (w_opt w) (snd (build_pk_list E remusr)) d"
      "cfx = \<lparr>cfx_dek = Some d, cfx_datalen = dl\<rparr>"
      by auto
    then show "\<exists>d. cfx_dek cfx = Some d \<and> d \<in> set (session_keys (events_of w w')) \<and>
         (dek_use_mdc d \<longleftrightarrow> (\<forall>pk \<in> set (snd (build_pk_list E remusr)). pk_mdc_feature pk))"
      by (simp add: is_crypt_dek_def select_mdc_from_pklist_def list_all_iff)
  qed
  have 3: "\<not> efx_header_okay efx \<and> encrypt_filter B E efx IOBUFCTRL_FLUSH buf v = Some r \<longrightarrow>
      (\<exists>d. cfx_dek (efx_cfx (r_efx r)) = Some d \<and>
         (dek_use_mdc d \<longleftrightarrow> (\<forall>pk \<in> set (efx_pk_list efx). pk_mdc_feature pk)))"
  proof
    assume a: "\<not> efx_header_okay efx \<and> encrypt_filter B E efx IOBUFCTRL_FLUSH buf v = Some r"
    then have r: "r = encrypt_filter_flush B E efx buf v" by (simp add: encrypt_filter_def)
    from a have "cfx_dek (efx_cfx (r_efx r)) = Some (fst (filter_session_key B E (efx_pk_list efx) v))"
      unfolding r by (simp add: encrypt_filter_flush_dek)
    then show "\<exists>d. cfx_dek (efx_cfx (r_efx r)) = Some d \<and>
         (dek_use_mdc d \<longleftrightarrow> (\<forall>pk \<in> set (efx_pk_list efx). pk_mdc_feature pk))"
      by (simp add: filter_session_key_dek select_mdc_from_pklist_def list_all_iff)
  qed
  from 1 2 3 show ?thesis by blast
qed


theorem mdc_all_or_nothing_witness:
  "map dek_use_mdc (session_keys (trace (snd (encode_crypt build_ex
      (env_ex (\<lambda>a. 0) (\<lambda>p. 0) (\<lambda>b. 0) (\<lambda>a. None) 10 [pk_rsa, pk_elg]) (Some ''f'') [''alice'']
      (world_ex opt_ex))))) = [False] \<and>
   map (map_option dek_use_mdc \<circ> cfx_dek) (cipher_pushes (trace (snd (encode_crypt build_ex
      (env_ex (\<lambda>a. 0) (\<lambda>p. 0) (\<lambda>b. 0) (\<lambda>a. None) 10 [pk_rsa, pk_elg]) (Some ''f'') [''alice'']
      (world_ex opt_ex))))) = [Some False] \<and>
   map_option (\<lambda>r. map_option dek_use_mdc (cfx_dek (efx_cfx (r_efx r))))
     (encrypt_filter build_ex (env_ex (\<lambda>a. 0) (\<lambda>p. 0) (\<lambda>b. 0) (\<lambda>a. None) 10 [pk_rsa, pk_elg])
        (efx_ex [pk_rsa]) IOBUFCTRL_FLUSH [] (world_ex opt_ex)) = Some (Some True)"
proof -
  let ?E = "env_ex (\<lambda>a. 0) (\<lambda>p. 0) (\<lambda>b. 0) (\<lambda>a. None) 10 [pk_rsa, pk_elg]"
  let ?W = "world_ex opt_ex"
  let ?r = "encode_crypt build_ex ?E (Some ''f'') [''alice''] ?W"
  let ?f = "encrypt_filter build_ex ?E (efx_ex [pk_rsa]) IOBUFCTRL_FLUSH [] ?W"
  have ev: "events_of ?W (snd ?r) = trace (snd ?r)"
    by (simp add: events_of_def world_ex_def)
  obtain k where k: "session_keys (trace (snd ?r)) = [k]"
    by (simp add: ex_defs run_defs Let_def)
  obtain x where x: "cipher_pushes (trace (snd ?r)) = [x]"
    by (simp add: ex_defs run_defs Let_def)
  obtain r where r: "?f = Some r" by (simp add: encrypt_filter_def)
  have h: "\<not> efx_header_okay (efx_ex [pk_rsa])" by (simp add: efx_ex_def)
  have e: "?r = (fst ?r, snd ?r)" by simp
  have pks: "snd (build_pk_list ?E [''alice'']) = [pk_rsa, pk_elg]" by (simp add: env_ex_def)
  note th = mdc_all_or_nothing [where B = build_ex and E = ?E and filename = "Some ''f''"
      and remusr = "[''alice'']" and w = ?W and rc = "fst ?r" and w' = "snd ?r" and dek = k
      and cfx = x and efx = "efx_ex [pk_rsa]" and buf = "[]" and v = ?W and r = r]
  from th e k ev pks have 1: "dek_use_mdc k = False"
    by (simp add: pk_rsa_def pk_elg_def)
  from th e x ev pks obtain d where "cfx_dek x = Some d" "dek_use_mdc d = False"
    by (auto simp: pk_rsa_def pk_elg_def)
  then have 2: "map_option dek_use_mdc (cfx_dek x) = Some False" by simp
  from th h r obtain d' where "cfx_dek (efx_cfx (r_efx r)) = Some d'" "dek_use_mdc d' = True"
    by (auto simp: pk_rsa_def efx_ex_def)
  then have 3: "map_option dek_use_mdc (cfx_dek (efx_cfx (r_efx r))) = Some True" by simp
  from k x r 1 2 3 show ?thesis by simp
qed

text \<open>
  C5 (as amended). The DEK that encode_crypt makes uses \<open>opt.def_cipher_algo\<close> when that
  is set; otherwise the algorithm that select_algo_from_prefs returns for the recipients,
  and CIPHER_ALGO_3DES when it returns -1. The DEK that the first flush of encrypt_filter
  makes is chosen the same way, except that it uses DEFAULT_CIPHER_ALGO when
  select_algo_from_prefs returns -1. Neither fails. As modelled from the spec,
  select_algo_from_prefs returns an algorithm that every recipient advertises, the first
  such in the first recipient's list, and -1 when the recipients have none in common.
\<close>

theorem cipher_algo_choice:
  "(encode_crypt B E filename remusr w = (rc, w') \<and> dek \<in> set (session_keys (events_of w w')) \<longrightarrow>
      dek_algo dek =
        (if opt_def_cipher_algo (w_opt w) \<noteq> 0 then opt_def_cipher_algo (w_opt w)
         else if select_algo_from_prefs (snd (build_pk_list E remusr)) PREFTYPE_SYM = - 1
           then CIPHER_ALGO_3DES B
         else select_algo_from_prefs (snd (build_pk_list E remusr)) PREFTYPE_SYM)) \<and>
   (\<not> efx_header_okay efx \<and> encrypt_filter B E efx IOBUFCTRL_FLUSH buf v = Some r \<longrightarrow>
      (\<exists>d. cfx_dek (efx_cfx (r_efx r)) = Some d \<and>
         dek_algo d =
           (if opt_def_cipher_algo (w_opt v) \<noteq> 0 then opt_def_cipher_algo (w_opt v)
            else if select_algo_from_prefs (efx_pk_list efx) PREFTYPE_SYM = - 1
              then DEFAULT_CIPHER_ALGO B
            else select_algo_from_prefs (efx_pk_list efx) PREFTYPE_SYM))) \<and>
   (select_algo_from_prefs pk_list t \<noteq> - 1 \<longrightarrow>
      common_pref t pk_list (select_algo_from_prefs pk_list t) \<and>
      (\<exists>pre post. pk_prefs t (hd pk_list) = pre @ select_algo_from_prefs pk_list t # post \<and>
         (\<forall>a \<in> set pre. \<not> common_pref t pk_list a))) \<and>
   ((\<forall>a. \<not> common_pref t pk_list a) \<longrightarrow> select_algo_from_prefs pk_list t = - 1)"
proof -
  have 1: "encode_crypt B E filename remusr w = (rc, w') \<and> dek \<in> set (session_keys (events_of w w')) \<longrightarrow>
      dek_algo dek =
        (if opt_def_cipher_algo (w_opt w) \<noteq> 0 then opt_def_cipher_algo (w_opt w)
         else if select_algo_from_prefs (snd (build_pk_list E remusr)) PREFTYPE_SYM = - 1
           then CIPHER_ALGO_3DES B
         else select_algo_from_prefs (snd (build_pk_list E remusr)) PREFTYPE_SYM)"
  proof
    assume a: "encode_crypt B E filename remusr w = (rc, w') \<and> dek \<in> set (session_keys (events_of w w'))"
    with crypt_run_deks [of B E filename remusr w rc w']
    have "is_crypt_dek B (w_opt w) (snd (build_pk_list E remusr)) dek" by auto
    then show "dek_algo dek =
        (if opt_def_cipher_algo (w_opt w) \<noteq> 0 then opt_def_cipher_algo (w_opt w)
         else if select_algo_from_prefs (snd (build_pk_list E remusr)) PREFTYPE_SYM = - 1
           then CIPHER_ALGO_3DES B
         else select_algo_from_prefs (snd (build_pk_list E remusr)) PREFTYPE_SYM)"
      by (simp add: is_crypt_dek_def crypt_algo_def)
  qed
  have 2: "\<not> efx_header_okay efx \<and> encrypt_filter B E efx IOBUFCTRL_FLUSH buf v = Some r \<longrightarrow>
      (\<exists>d. cfx_dek (efx_cfx (r_efx r)) = Some d \<and>
         dek_algo d =
           (if opt_def_cipher_algo (w_opt v) \<noteq> 0 then opt_def_cipher_algo (w_opt v)
            else if select_algo_from_prefs (efx_pk_list efx) PREFTYPE_SYM = - 1
              then DEFAULT_CIPHER_ALGO B
            else select_algo_from_prefs (efx_pk_list efx) PREFTYPE_SYM))"
  proof
    assume a: "\<not> efx_header_okay efx \<and> encrypt_filter B E efx IOBUFCTRL_FLUSH buf v = Some r"
    then have r: "r = encrypt_filter_flush B E efx buf v" by (simp add: encrypt_filter_def)
    from a have "cfx_dek (efx_cfx (r_efx r)) = Some (fst (filter_session_key B E (efx_pk_list efx) v))"
      unfolding r by (simp add: encrypt_filter_flush_dek)
    then show "\<exists>d. cfx_dek (efx_cfx (r_efx r)) = Some d \<and>
         dek_algo d =
           (if opt_def_cipher_algo (w_opt v) \<noteq> 0 then opt_def_cipher_algo (w_opt v)
            else if select_algo_from_prefs (efx_pk_list efx) PREFTYPE_SYM = - 1
              then DEFAULT_CIPHER_ALGO B
            else select_algo_from_prefs (efx_pk_list efx) PREFTYPE_SYM)"
      by (simp add: filter_session_key_dek filter_algo_def)
  qed
  have 3: "select_algo_from_prefs pk_list t \<noteq> - 1 \<longrightarrow>
      common_pref t pk_list (select_algo_from_prefs pk_list t) \<and>
      (\<exists>pre post. pk_prefs t (hd pk_list) = pre @ select_algo_from_prefs pk_list t # post \<and>
         (\<forall>a \<in> set pre. \<not> common_pref t pk_list a))"
    using select_algo_common [of pk_list t] by blast
  have 4: "(\<forall>a. \<not> common_pref t pk_list a) \<longrightarrow> select_algo_from_prefs pk_list t = - 1"
    using select_algo_none [of t pk_list] by blast
  from 1 2 3 4 show ?thesis by blast
qed

theorem cipher_algo_choice_witness:
  "map dek_algo (session_keys (trace (snd (encode_crypt build_ex
      (env_ex (\<lambda>a. 0) (\<lambda>p. 0) (\<lambda>b. 0) (\<lambda>a. None) 10 [pk_rsa, pk_elg]) (Some ''f'') [''alice'']
      (world_ex opt_ex))))) = [3] \<and>
   select_algo_from_prefs [pk_rsa, pk_elg] PREFTYPE_SYM = 3 \<and>
   common_pref PREFTYPE_SYM [pk_rsa, pk_elg] 3 \<and>
   \<not> common_pref PREFTYPE_SYM [pk_rsa, pk_elg] 7 \<and>
   map_option (\<lambda>r. map_option dek_algo (cfx_dek (efx_cfx (r_efx r))))
     (encrypt_filter build_ex (env_ex (\<lambda>a. 0) (\<lambda>p. 0) (\<lambda>b. 0) (\<lambda>a. None) 10 [pk_rsa, pk_elg])
        (efx_ex [pk_rsa]) IOBUFCTRL_FLUSH [] (world_ex (opt_ex\<lparr>opt_def_cipher_algo := 9\<rparr>))) = Some (Some 9) \<and>
   select_algo_from_prefs [pk_rsa, pk_elg\<lparr>pk_prefs_zip := []\<rparr>] PREFTYPE_ZIP = - 1"
proof -
  let ?E = "env_ex (\<lambda>a. 0) (\<lambda>p. 0) (\<lambda>b. 0) (\<lambda>a. None) 10 [pk_rsa, pk_elg]"
  let ?W = "world_ex opt_ex"
  let ?V = "world_ex (opt_ex\<lparr>opt_def_cipher_algo := 9\<rparr>)"
  let ?r = "encode_crypt build_ex ?E (Some ''f'') [''alice''] ?W"
  let ?f = "encrypt_filter build_ex ?E (efx_ex [pk_rsa]) IOBUFCTRL_FLUSH [] ?V"
  have ev: "events_of ?W (snd ?r) = trace (snd ?r)"
    by (simp add: events_of_def world_ex_def)
  obtain k where k: "session_keys (trace (snd ?r)) = [k]"
    by (simp add: ex_defs run_defs Let_def)
  obtain r where r: "?f = Some r" by (simp add: encrypt_filter_def)
  have h: "\<not> efx_header_okay (efx_ex [pk_rsa])" by (simp add: efx_ex_def)
  have e: "?r = (fst ?r, snd ?r)" by simp
  have pks: "snd (build_pk_list ?E [''alice'']) = [pk_rsa, pk_elg]" by (simp add: env_ex_def)
  have sel: "select_algo_from_prefs [pk_rsa, pk_elg] PREFTYPE_SYM = 3"
    by (simp add: select_algo_from_prefs_def pk_prefs_def pk_rsa_def pk_elg_def)
  have none: "\<forall>a. \<not> common_pref PREFTYPE_ZIP [pk_rsa, pk_elg\<lparr>pk_prefs_zip := []\<rparr>] a"
    by (simp add: common_pref_def pk_prefs_def pk_elg_def)
  note th = cipher_algo_choice [where B = build_ex and E = ?E and filename = "Some ''f''"
      and remusr = "[''alice'']" and w = ?W and rc = "fst ?r" and w' = "snd ?r" and dek = k
      and efx = "efx_ex [pk_rsa]" and buf = "[]" and v = ?V and r = r
      and pk_list = "[pk_rsa, pk_elg]" and t = PREFTYPE_SYM]
  note tz = cipher_algo_choice [where pk_list = "[pk_rsa, pk_elg\<lparr>pk_prefs_zip := []\<rparr>]" and t = PREFTYPE_ZIP,
      THEN conjunct2, THEN conjunct2, THEN conjunct2, THEN mp, OF none]
  from th e k ev pks sel have 1: "dek_algo k = 3"
    by (simp add: opt_ex_def world_ex_def)
  from th sel have 2: "common_pref PREFTYPE_SYM [pk_rsa, pk_elg] 3" by simp
  have 3: "\<not> common_pref PREFTYPE_SYM [pk_rsa, pk_elg] 7"
    by (simp add: common_pref_def pk_prefs_def pk_elg_def)
  from th h r obtain d where "cfx_dek (efx_cfx (r_efx r)) = Some d" "dek_algo d = 9"
    by (auto simp: opt_ex_def world_ex_def)
  then have 4: "map_option dek_algo (cfx_dek (efx_cfx (r_efx r))) = Some 9" by simp
  from k r 1 2 3 4 sel tz show ?thesis by simp
qed

theorem filter_fallback_counterexample:
  "opt_def_cipher_algo (w_opt (world_ex opt_ex)) = 0 \<and>
   select_algo_from_prefs [] PREFTYPE_SYM = - 1 \<and>
   map_option (\<lambda>r. map_option dek_algo (cfx_dek (efx_cfx (r_efx r))))
     (encrypt_filter build_ex (env_ex (\<lambda>a. 0) (\<lambda>p. 0) (\<lambda>b. 0) (\<lambda>a. None) 10 [])
        (efx_ex []) IOBUFCTRL_FLUSH [] (world_ex opt_ex)) = Some (Some 3) \<and>
   DEFAULT_CIPHER_ALGO build_ex = 3 \<and> CIPHER_ALGO_3DES build_ex = 2"
  by (simp add: ex_defs efx_ex_def encrypt_filter_def encrypt_filter_flush_def filter_session_key_def
        make_session_key_def select_algo_from_prefs_def select_mdc_from_pklist_def Let_def log_when_def
        emit_def)






end
